(* ===== verification/Gw_Prelude.thy ===== *)
theory Gw_Prelude
  imports Complex_Main "HOL-Library.AList" "HOL-Library.Product_Lexorder"
begin

text \<open>
  Shared vocabulary of the gateway model: Python floats, byte and text strings, the
  exceptions the components raise, tables of key/value rows, and the generic lemmas about
  them.  Nothing here is specific to one component.

  Conventions.  A Python \<open>float\<close> is a \<open>pyfloat\<close>: a finite double is a rational number (its
  exact value), and the three non-finite values are constructors of their own.  Arithmetic on
  finite values is exact; rounding to 53 bits is not modelled.  Python \<open>str\<close> and \<open>bytes\<close> are
  both \<open>string\<close> (a \<open>char list\<close>): the texts the code handles are ASCII or Latin-1, one \<open>char\<close>
  is one code point or one octet.
\<close>

section \<open>Hint collections\<close>

named_theorems py_simps \<open>evaluation rules for the Python-level operations\<close>
named_theorems inv_intros \<open>preservation lemmas of the components' invariants\<close>

section \<open>Python floats\<close>

datatype pyfloat = NaN | NInf | Fin rat | PInf

primrec pf_rank :: "pyfloat \<Rightarrow> nat" where
  "pf_rank NaN = 0"
| "pf_rank NInf = 1"
| "pf_rank (Fin _) = 2"
| "pf_rank PInf = 3"

text \<open>
  The type-class order is the order in which SQLite sorts stored \<open>REAL\<close> values (a NaN is
  stored as NULL, which sorts first).  Python's own comparisons are \<open>py_lt\<close> and \<open>py_le\<close>
  below; they are false whenever a NaN is involved.
\<close>

instantiation pyfloat :: linorder
begin

definition less_eq_pyfloat :: "pyfloat \<Rightarrow> pyfloat \<Rightarrow> bool" where
  "less_eq_pyfloat a b =
     (case (a, b) of (Fin x, Fin y) \<Rightarrow> x \<le> y | _ \<Rightarrow> pf_rank a \<le> pf_rank b)"

definition less_pyfloat :: "pyfloat \<Rightarrow> pyfloat \<Rightarrow> bool" where
  "less_pyfloat a b = (a \<le> b \<and> \<not> b \<le> (a :: pyfloat))"

instance
proof
  fix x y z :: pyfloat
  show "x < y \<longleftrightarrow> x \<le> y \<and> \<not> y \<le> x" by (simp add: less_pyfloat_def)
  show "x \<le> x" by (cases x) (auto simp: less_eq_pyfloat_def)
  show "x \<le> y \<or> y \<le> x" by (cases x; cases y) (auto simp: less_eq_pyfloat_def)
  show "x \<le> y \<Longrightarrow> y \<le> x \<Longrightarrow> x = y"
    by (cases x; cases y) (auto simp: less_eq_pyfloat_def)
  show "x \<le> y \<Longrightarrow> y \<le> z \<Longrightarrow> x \<le> z"
    by (cases x; cases y; cases z) (auto simp: less_eq_pyfloat_def)
qed

end

lemma Fin_le [simp]: "(Fin a \<le> Fin b) = (a \<le> b)"
  by (simp add: less_eq_pyfloat_def)

lemma Fin_less [simp]: "(Fin a < Fin b) = (a < b)"
  by (auto simp: less_pyfloat_def)

lemma le_PInf [simp]: "(x :: pyfloat) \<le> PInf"
  by (cases x) (auto simp: less_eq_pyfloat_def)

lemma PInf_le [simp]: "PInf \<le> x \<longleftrightarrow> x = PInf"
  by (cases x) (auto simp: less_eq_pyfloat_def)

lemma NaN_le [simp]: "NaN \<le> x"
  by (cases x) (auto simp: less_eq_pyfloat_def)

lemma le_NaN [simp]: "x \<le> NaN \<longleftrightarrow> x = NaN"
  by (cases x) (auto simp: less_eq_pyfloat_def)

lemma NInf_le [simp]: "NInf \<le> x \<longleftrightarrow> x \<noteq> NaN"
  by (cases x) (auto simp: less_eq_pyfloat_def)

lemma le_NInf [simp]: "x \<le> NInf \<longleftrightarrow> x = NaN \<or> x = NInf"
  by (cases x) (auto simp: less_eq_pyfloat_def)

definition py_le :: "pyfloat \<Rightarrow> pyfloat \<Rightarrow> bool" where
  "py_le a b = (a \<noteq> NaN \<and> b \<noteq> NaN \<and> a \<le> b)"

definition py_lt :: "pyfloat \<Rightarrow> pyfloat \<Rightarrow> bool" where
  "py_lt a b = (a \<noteq> NaN \<and> b \<noteq> NaN \<and> a < b)"

text \<open>\<open>max(a, b)\<close> and \<open>min(a, b)\<close> keep the first argument unless the second is strictly
  better, which decides what happens to a NaN.\<close>

definition py_max :: "pyfloat \<Rightarrow> pyfloat \<Rightarrow> pyfloat" where
  "py_max a b = (if py_lt a b then b else a)"

definition py_min :: "pyfloat \<Rightarrow> pyfloat \<Rightarrow> pyfloat" where
  "py_min a b = (if py_lt b a then b else a)"

fun py_add :: "pyfloat \<Rightarrow> pyfloat \<Rightarrow> pyfloat" where
  "py_add (Fin a) (Fin b) = Fin (a + b)"
| "py_add NaN _ = NaN"
| "py_add _ NaN = NaN"
| "py_add PInf NInf = NaN"
| "py_add NInf PInf = NaN"
| "py_add PInf _ = PInf"
| "py_add _ PInf = PInf"
| "py_add NInf _ = NInf"
| "py_add _ NInf = NInf"

fun py_neg :: "pyfloat \<Rightarrow> pyfloat" where
  "py_neg NaN = NaN"
| "py_neg NInf = PInf"
| "py_neg PInf = NInf"
| "py_neg (Fin a) = Fin (- a)"

definition py_sub :: "pyfloat \<Rightarrow> pyfloat \<Rightarrow> pyfloat" where
  "py_sub a b = py_add a (py_neg b)"

fun pf_sign :: "pyfloat \<Rightarrow> rat" where
  "pf_sign NaN = 0"
| "pf_sign NInf = -1"
| "pf_sign PInf = 1"
| "pf_sign (Fin a) = sgn a"

definition py_mul :: "pyfloat \<Rightarrow> pyfloat \<Rightarrow> pyfloat" where
  "py_mul a b = (case (a, b) of
      (Fin x, Fin y) \<Rightarrow> Fin (x * y)
    | (NaN, _) \<Rightarrow> NaN
    | (_, NaN) \<Rightarrow> NaN
    | _ \<Rightarrow> (if pf_sign a * pf_sign b = 0 then NaN
            else if pf_sign a * pf_sign b > 0 then PInf else NInf))"

lemma py_le_Fin [simp]: "py_le (Fin a) (Fin b) = (a \<le> b)"
  by (simp add: py_le_def)

lemma py_lt_Fin [simp]: "py_lt (Fin a) (Fin b) = (a < b)"
  by (simp add: py_lt_def)

lemma py_lt_PInf [simp]: "py_lt (Fin a) PInf" "\<not> py_lt PInf x"
  by (auto simp: py_lt_def less_pyfloat_def)

lemma py_lt_NaN [simp]: "\<not> py_lt NaN x" "\<not> py_lt x NaN"
  by (auto simp: py_lt_def)

lemma py_lt_NInf [simp]: "\<not> py_lt x NInf"
  by (cases x) (auto simp: py_lt_def less_pyfloat_def)

lemma py_le_PInf [simp]: "py_le (Fin a) PInf" "\<not> py_le PInf (Fin a)"
  by (auto simp: py_le_def)

lemma py_le_NaN [simp]: "\<not> py_le NaN x" "\<not> py_le x NaN"
  by (auto simp: py_le_def)

lemma py_max_Fin [simp]: "py_max (Fin a) (Fin b) = Fin (max a b)"
  by (auto simp: py_max_def max_def)

lemma py_min_Fin [simp]: "py_min (Fin a) (Fin b) = Fin (min a b)"
  by (auto simp: py_min_def min_def)

lemma py_mul_Fin [simp]: "py_mul (Fin a) (Fin b) = Fin (a * b)"
  by (simp add: py_mul_def)

lemma py_sub_Fin [simp]: "py_sub (Fin a) (Fin b) = Fin (a - b)"
  by (simp add: py_sub_def)

lemma py_max_ge1: "a \<noteq> NaN \<Longrightarrow> a \<le> py_max a b"
  by (auto simp: py_max_def py_lt_def)

lemma py_max_ge2: "a \<noteq> NaN \<Longrightarrow> b \<noteq> NaN \<Longrightarrow> b \<le> py_max a b"
  by (auto simp: py_max_def py_lt_def)

lemma py_max_not_NaN: "a \<noteq> NaN \<Longrightarrow> py_max a b \<noteq> NaN"
  by (auto simp: py_max_def py_lt_def)

section \<open>Exceptions and results\<close>

text \<open>
  The exceptions that reach a handler somewhere in the program.  The four delivery errors and
  their fields are those of \<open>errors.py\<close>; \<open>OtherExc\<close> is any other exception, with its type name.
\<close>

datatype exn =
    ValueError string
  | RuntimeError string
  | IndexError
  | IntegrityError
  | OSError
  | MessageRejected string
  | QueueUnavailable string
  | Retryable string pyfloat bool
  | AuthenticationRequired string
  | AdditionalAuthenticationRequired string
  | Permanent string
  | Uncertain string
  | CancelledError
  | OtherExc string

type_synonym 'a res = "exn + 'a"

definition bind_res :: "'a res \<Rightarrow> ('a \<Rightarrow> 'b res) \<Rightarrow> 'b res" where
  "bind_res m f = (case m of Inl e \<Rightarrow> Inl e | Inr x \<Rightarrow> f x)"

lemma bind_res_simps [simp]: "bind_res (Inl e) f = Inl e" "bind_res (Inr x) f = f x"
  by (simp_all add: bind_res_def)

lemma bind_res_Inr: "bind_res m f = Inr y \<longleftrightarrow> (\<exists>x. m = Inr x \<and> f x = Inr y)"
  by (cases m) auto

fun guard_res :: "bool \<Rightarrow> exn \<Rightarrow> unit res" where
  "guard_res True e = Inl e"
| "guard_res False e = Inr ()"

lemma guard_res_Inr [simp]: "guard_res b e = Inr u \<longleftrightarrow> \<not> b"
  by (cases b) auto

lemma guard_res_Inl [simp]: "guard_res b e = Inl x \<longleftrightarrow> b \<and> x = e"
  by (cases b) auto

section \<open>Systems of steps and their invariants\<close>

text \<open>
  The states a labelled step relation reaches from the initial states, and the interface every
  component with an invariant provides: the invariant holds at the start and every step keeps
  it.
\<close>

inductive reach :: "('s \<Rightarrow> bool) \<Rightarrow> ('e \<Rightarrow> 's \<Rightarrow> 's \<Rightarrow> bool) \<Rightarrow> 's \<Rightarrow> bool"
  for init :: "'s \<Rightarrow> bool" and step :: "'e \<Rightarrow> 's \<Rightarrow> 's \<Rightarrow> bool"
  where
    reach_init: "init s \<Longrightarrow> reach init step s"
  | reach_step: "reach init step s \<Longrightarrow> step e s t \<Longrightarrow> reach init step t"

text \<open>An execution: the events and the states after them.\<close>

fun run :: "('e \<Rightarrow> 's \<Rightarrow> 's \<Rightarrow> bool) \<Rightarrow> 's \<Rightarrow> ('e \<times> 's) list \<Rightarrow> bool" where
  "run step s [] = True"
| "run step s ((e, t) # xs) = (step e s t \<and> run step t xs)"

fun final :: "'s \<Rightarrow> ('e \<times> 's) list \<Rightarrow> 's" where
  "final s [] = s"
| "final s ((e, t) # xs) = final t xs"

lemma run_append [simp]: "run step s (xs @ ys) = (run step s xs \<and> run step (final s xs) ys)"
  by (induction step s xs rule: run.induct) auto

lemma final_append [simp]: "final s (xs @ ys) = final (final s xs) ys"
  by (induction s xs rule: final.induct) auto

lemma run_reach: "reach init step s \<Longrightarrow> run step s xs \<Longrightarrow> reach init step (final s xs)"
  by (induction step s xs rule: run.induct) (auto intro: reach_step)

locale inv_system =
  fixes init :: "'s \<Rightarrow> bool"
    and step :: "'e \<Rightarrow> 's \<Rightarrow> 's \<Rightarrow> bool"
    and inv :: "'s \<Rightarrow> bool"
  assumes init_inv: "init s \<Longrightarrow> inv s"
    and step_inv: "inv s \<Longrightarrow> step e s t \<Longrightarrow> inv t"
begin

lemma reach_inv: "reach init step s \<Longrightarrow> inv s"
  by (induction rule: reach.induct) (blast intro: init_inv step_inv)+

lemma run_inv: "inv s \<Longrightarrow> run step s xs \<Longrightarrow> inv (final s xs)"
  by (induction xs arbitrary: s) (auto dest: step_inv)

text \<open>A fact about single steps between states that satisfy the invariant holds along every
  execution, and a quantity that no step raises is never raised.\<close>

lemma run_mono:
  fixes f :: "'s \<Rightarrow> 'b :: preorder"
  assumes "\<And>e s t. inv s \<Longrightarrow> step e s t \<Longrightarrow> f s \<le> f t"
  shows "inv s \<Longrightarrow> run step s xs \<Longrightarrow> f s \<le> f (final s xs)"
proof (induction xs arbitrary: s)
  case Nil
  then show ?case by simp
next
  case (Cons x xs)
  obtain e t where x: "x = (e, t)" by force
  with Cons.prems have st: "step e s t" "run step t xs" by auto
  then have "f s \<le> f t" "inv t" using assms step_inv Cons.prems(1) by blast+
  with Cons.IH [OF \<open>inv t\<close> st(2)] x show ?case by (auto intro: order_trans)
qed

lemma run_stable:
  assumes "\<And>e s t. inv s \<Longrightarrow> step e s t \<Longrightarrow> P s \<Longrightarrow> P t"
  shows "inv s \<Longrightarrow> run step s xs \<Longrightarrow> P s \<Longrightarrow> P (final s xs)"
proof (induction xs arbitrary: s)
  case Nil
  then show ?case by simp
next
  case (Cons x xs)
  obtain e t where x: "x = (e, t)" by force
  with Cons.prems have st: "step e s t" "run step t xs" by auto
  then have "P t" "inv t" using assms step_inv Cons.prems(1,3) by blast+
  with Cons.IH [OF \<open>inv t\<close> st(2)] x show ?case by auto
qed

end

section \<open>Characters and strings\<close>

type_synonym bytes = string

abbreviation CR :: char where "CR \<equiv> CHR 0x0D"
abbreviation LF :: char where "LF \<equiv> CHR 0x0A"

definition code :: "char \<Rightarrow> nat" where
  "code c = of_char c"

text \<open>
  \<open>str.casefold\<close>, \<open>str.lower\<close> and \<open>str.upper\<close> on ASCII text.  A capital letter and its small
  letter differ in bit 5 (value 32).
\<close>

definition fold_char :: "char \<Rightarrow> char" where
  "fold_char c = (if 65 \<le> code c \<and> code c \<le> 90 then Char (digit0 c) (digit1 c) (digit2 c) (digit3 c) (digit4 c) True (digit6 c) (digit7 c)
     else c)"

definition up_char :: "char \<Rightarrow> char" where
  "up_char c = (if 97 \<le> code c \<and> code c \<le> 122 then Char (digit0 c) (digit1 c) (digit2 c) (digit3 c) (digit4 c) False (digit6 c) (digit7 c)
     else c)"

text \<open>The same on the bits of the character, for evaluation.\<close>

lemma fold_char_bits [code]:
  "fold_char (Char b0 b1 b2 b3 b4 b5 b6 b7) =
     Char b0 b1 b2 b3 b4 (b5 \<or> (b6 \<and> \<not> b7 \<and> (b0 \<or> b1 \<or> b2 \<or> b3 \<or> b4) \<and>
        \<not> (b4 \<and> b3 \<and> (b2 \<or> (b1 \<and> b0))))) b6 b7"
  by (cases b0; cases b1; cases b2; cases b3; cases b4; cases b5; cases b6; cases b7; simp add: fold_char_def code_def)

lemma up_char_bits [code]:
  "up_char (Char b0 b1 b2 b3 b4 b5 b6 b7) =
     Char b0 b1 b2 b3 b4 (b5 \<and> \<not> (b6 \<and> \<not> b7 \<and> (b0 \<or> b1 \<or> b2 \<or> b3 \<or> b4) \<and>
        \<not> (b4 \<and> b3 \<and> (b2 \<or> (b1 \<and> b0))))) b6 b7"
  by (cases b0; cases b1; cases b2; cases b3; cases b4; cases b5; cases b6; cases b7; simp add: up_char_def code_def)

definition casefold :: "string \<Rightarrow> string" where
  "casefold s = map fold_char s"

definition upper :: "string \<Rightarrow> string" where
  "upper s = map up_char s"

lemma code_fold_char: "65 \<le> code c \<Longrightarrow> code c \<le> 90 \<Longrightarrow> code (fold_char c) = code c + 32"
  by (cases c) (auto simp: fold_char_def code_def of_char_def of_bool_def split: if_splits)

lemma code_up_char: "97 \<le> code c \<Longrightarrow> code c \<le> 122 \<Longrightarrow> code (up_char c) + 32 = code c"
  by (cases c) (auto simp: up_char_def code_def of_char_def of_bool_def split: if_splits)

lemma fold_char_idem [simp]: "fold_char (fold_char c) = fold_char c"
  by (cases c) (simp add: fold_char_def)

lemmas char_eval = casefold_def upper_def fold_char_def up_char_def code_def

lemma casefold_idem [simp]: "casefold (casefold s) = casefold s"
  by (simp add: casefold_def)

lemma casefold_append [simp]: "casefold (s @ t) = casefold s @ casefold t"
  by (simp add: casefold_def)

lemma casefold_Nil [simp]: "casefold [] = []"
  by (simp add: casefold_def)

lemma casefold_eq_Nil [simp]: "casefold s = [] \<longleftrightarrow> s = []"
  by (simp add: casefold_def)

text \<open>\<open>str.isspace\<close> for ASCII: tab to carriage return, the four separators, and the blank.\<close>

definition is_space :: "char \<Rightarrow> bool" where
  "is_space c = ((9 \<le> code c \<and> code c \<le> 13) \<or> (28 \<le> code c \<and> code c \<le> 32))"

definition is_digit :: "char \<Rightarrow> bool" where
  "is_digit c = (48 \<le> code c \<and> code c \<le> 57)"

text \<open>\<open>s.encode("ascii")\<close> fails on such a character.\<close>

definition non_ascii :: "char \<Rightarrow> bool" where
  "non_ascii c = (128 \<le> code c)"

lemma is_space_bits [code]:
  "is_space (Char b0 b1 b2 b3 b4 b5 b6 b7) =
     (\<not> b7 \<and> \<not> b6 \<and> (if b5 then \<not> b4 \<and> \<not> b3 \<and> \<not> b2 \<and> \<not> b1 \<and> \<not> b0
        else if b4 then b3 \<and> b2 else b3 \<and> (if b2 then \<not> b1 else b1 \<or> b0)))"
  by (cases b0; cases b1; cases b2; cases b3; cases b4; cases b5; cases b6; cases b7; simp add: is_space_def code_def)

lemma is_digit_bits [code]:
  "is_digit (Char b0 b1 b2 b3 b4 b5 b6 b7) =
     (\<not> b7 \<and> \<not> b6 \<and> b5 \<and> b4 \<and> (b3 \<longrightarrow> \<not> b2 \<and> \<not> b1))"
  by (cases b0; cases b1; cases b2; cases b3; cases b4; cases b5; cases b6; cases b7; simp add: is_digit_def code_def)

lemma non_ascii_bits [code]: "non_ascii (Char b0 b1 b2 b3 b4 b5 b6 b7) = b7"
  by (cases b0; cases b1; cases b2; cases b3; cases b4; cases b5; cases b6; cases b7; simp add: non_ascii_def code_def)

definition lstrip :: "string \<Rightarrow> string" where
  "lstrip s = dropWhile is_space s"

definition rstrip :: "string \<Rightarrow> string" where
  "rstrip s = rev (dropWhile is_space (rev s))"

text \<open>\<open>s.rstrip(c)\<close> for one character.\<close>

definition rstrip_char :: "char \<Rightarrow> string \<Rightarrow> string" where
  "rstrip_char c s = rev (dropWhile (\<lambda>x. x = c) (rev s))"

definition strip :: "string \<Rightarrow> string" where
  "strip s = rstrip (lstrip s)"

fun is_prefix :: "'a list \<Rightarrow> 'a list \<Rightarrow> bool" where
  "is_prefix [] ys = True"
| "is_prefix (x # xs) [] = False"
| "is_prefix (x # xs) (y # ys) = (x = y \<and> is_prefix xs ys)"

definition ends_with :: "'a list \<Rightarrow> 'a list \<Rightarrow> bool" where
  "ends_with suf s = is_prefix (rev suf) (rev s)"

text \<open>\<open>needle in haystack\<close> for strings.\<close>

fun is_infix :: "'a list \<Rightarrow> 'a list \<Rightarrow> bool" where
  "is_infix n [] = (n = [])"
| "is_infix n (x # xs) = (is_prefix n (x # xs) \<or> is_infix n xs)"

text \<open>\<open>s.partition(sep)\<close>: the text before the first separator, whether there was one, and
  the text after it.\<close>

fun partition_at :: "'a list \<Rightarrow> 'a list \<Rightarrow> 'a list \<times> bool \<times> 'a list" where
  "partition_at sep [] = (if sep = [] then ([], True, []) else ([], False, []))"
| "partition_at sep (x # xs) =
     (if is_prefix sep (x # xs) then ([], True, drop (length sep) (x # xs))
      else (let (h, f, t) = partition_at sep xs in (x # h, f, t)))"

lemma is_prefix_append [simp]: "is_prefix xs (xs @ ys)"
  by (induction xs) auto

lemma is_prefix_iff: "is_prefix xs ys \<longleftrightarrow> (\<exists>zs. ys = xs @ zs)"
  by (induction xs ys rule: is_prefix.induct) auto

lemma is_prefix_append_left: "is_prefix xs ys \<Longrightarrow> is_prefix xs (ys @ zs)"
  by (auto simp: is_prefix_iff)

lemma is_prefix_append_long:
  "length xs \<le> length ys \<Longrightarrow> is_prefix xs (ys @ zs) = is_prefix xs ys"
  by (induction xs ys rule: is_prefix.induct) auto

lemma partition_found:
  "partition_at sep s = (h, True, t) \<Longrightarrow> s = h @ sep @ t"
proof (induction s arbitrary: h)
  case Nil
  then show ?case by (auto split: if_splits)
next
  case (Cons x xs)
  show ?case
  proof (cases "is_prefix sep (x # xs)")
    case True
    with Cons.prems show ?thesis by (auto simp: is_prefix_iff)
  next
    case False
    with Cons.prems Cons.IH show ?thesis by (auto split: prod.splits)
  qed
qed

lemma partition_not_found:
  "partition_at sep s = (h, False, t) \<Longrightarrow> h = s \<and> t = []"
  by (induction s arbitrary: h) (auto split: if_splits prod.splits)

text \<open>
  The text before the first separator can be put back in front of a separator and any other
  text: cutting again gives the same two halves.  This is what lets the gateway rewrite the
  header block and keep the body octets.
\<close>

lemma partition_again:
  assumes "partition_at sep s = (h, True, t)" and "sep \<noteq> []"
  shows "partition_at sep (h @ sep @ u) = (h, True, u)"
  using assms(1)
proof (induction s arbitrary: h)
  case Nil
  then show ?case using assms(2) by (auto split: if_splits)
next
  case (Cons x xs)
  show ?case
  proof (cases "is_prefix sep (x # xs)")
    case True
    with Cons.prems have "h = []" by auto
    with assms(2) show ?thesis by (cases sep) auto
  next
    case False
    obtain h' where h': "h = x # h'" "partition_at sep xs = (h', True, t)"
      using Cons.prems False by (auto split: prod.splits)
    then have xs: "xs = h' @ sep @ t" by (auto dest: partition_found)
    have "\<not> is_prefix sep (x # h' @ sep @ u)"
    proof -
      have "is_prefix sep ((x # h' @ sep) @ w) = is_prefix sep (x # h' @ sep)" for w
        by (rule is_prefix_append_long) simp
      from this [of t] this [of u] False xs show ?thesis by simp
    qed
    with Cons.IH [OF h'(2)] h'(1) show ?thesis by (simp del: is_prefix.simps)
  qed
qed

lemma partition_infix: "is_infix sep s \<Longrightarrow> \<exists>h u. partition_at sep s = (h, True, u)"
  by (induction s) (auto split: prod.splits)

lemma is_infix_append [simp]: "is_infix n ys \<Longrightarrow> is_infix n (xs @ ys)"
  by (induction xs) auto

end
