(* ===== verification/Gw_Config.thy ===== *)
theory Gw_Config
  imports Gw_Prelude
begin

text \<open>
  The configuration of \<open>config.py\<close>: one record per dataclass, its default values, and the two
  computed properties of \<open>AccountConfig\<close>.  Fields carry the section's prefix because the
  dataclasses share field names.  Integer fields are \<open>int\<close>, float fields \<open>pyfloat\<close>.
\<close>

record smtp_config =
  smtp_host :: string
  smtp_port :: int
  smtp_hostname :: string
  smtp_allowed_networks :: "string list"
  smtp_max_connections :: int
  smtp_max_message_bytes :: int
  smtp_max_recipients :: int
  smtp_max_header_bytes :: int
  smtp_max_buffer_bytes :: int
  smtp_command_timeout :: pyfloat
  smtp_data_timeout :: pyfloat
  smtp_tls_cert :: string
  smtp_tls_key :: string

record web_config =
  web_host :: string
  web_port :: int
  web_base_url :: string
  web_session_seconds :: int
  web_trusted_proxy_ips :: "string list"

record account_config =
  acc_sender :: string
  acc_login_username :: string
  acc_backend :: string
  acc_tenant_id :: string
  acc_client_id :: string
  acc_redirect_uri :: string
  acc_ews_url :: string
  acc_save_in_sent :: bool
  acc_client_secret_env :: string
  acc_nat_marker :: string
  acc_recipient_policy :: string
  acc_allowed_recipient_domains :: "string list"
  acc_send_shared :: bool

record additional_config =
  add_tenant_id :: string
  add_client_id :: string
  add_redirect_uri :: string
  add_client_secret_env :: string

record queue_config =
  q_max_messages :: int
  q_max_bytes :: int
  q_min_free_bytes :: int
  q_batch_size :: int
  q_batch_seconds :: pyfloat
  q_pending_submissions :: int
  q_history_days :: int

record delivery_config =
  d_workers :: int
  d_messages_per_second :: pyfloat
  d_recipient_limit_24h :: int
  d_max_attempts :: int
  d_max_age_hours :: pyfloat
  d_request_timeout :: pyfloat
  d_connect_timeout :: pyfloat
  d_retry_base_seconds :: pyfloat
  d_retry_max_seconds :: pyfloat
  d_shutdown_seconds :: pyfloat

record config =
  cfg_data_dir :: string
  cfg_smtp :: smtp_config
  cfg_web :: web_config
  cfg_account :: account_config
  cfg_additional :: additional_config
  cfg_queue :: queue_config
  cfg_delivery :: delivery_config

section \<open>Defaults\<close>

definition default_smtp :: smtp_config where
  "default_smtp = \<lparr>
     smtp_host = ''127.0.0.1'', smtp_port = 1025, smtp_hostname = ''noreply-gateway.local'',
     smtp_allowed_networks = [''127.0.0.0/8'', ''::1/128''],
     smtp_max_connections = 128, smtp_max_message_bytes = 2000000, smtp_max_recipients = 500,
     smtp_max_header_bytes = 131072, smtp_max_buffer_bytes = 64 * 1024 * 1024,
     smtp_command_timeout = Fin 60, smtp_data_timeout = Fin 120,
     smtp_tls_cert = [], smtp_tls_key = []\<rparr>"

definition default_web :: web_config where
  "default_web = \<lparr>
     web_host = ''127.0.0.1'', web_port = 8080, web_base_url = ''http://127.0.0.1:8080'',
     web_session_seconds = 28800, web_trusted_proxy_ips = []\<rparr>"

definition default_account :: account_config where
  "default_account = \<lparr>
     acc_sender = [], acc_login_username = [], acc_backend = ''ews'', acc_tenant_id = ''common'',
     acc_client_id = ''facd6cff-a294-4415-b59f-c5b01937d7bd'',
     acc_redirect_uri = ''https://login.microsoftonline.com/common/oauth2/nativeclient'',
     acc_ews_url = ''https://outlook.office365.com/EWS/Exchange.asmx'',
     acc_save_in_sent = True, acc_client_secret_env = [], acc_nat_marker = ''_NAT_'',
     acc_recipient_policy = ''davmail_union'', acc_allowed_recipient_domains = [],
     acc_send_shared = False\<rparr>"

definition default_additional :: additional_config where
  "default_additional = \<lparr>add_tenant_id = [], add_client_id = [], add_redirect_uri = [],
     add_client_secret_env = []\<rparr>"

definition default_queue :: queue_config where
  "default_queue = \<lparr>
     q_max_messages = 100000, q_max_bytes = 5 * 1024 ^ 3, q_min_free_bytes = 256 * 1024 ^ 2,
     q_batch_size = 128, q_batch_seconds = Fin (5 / 1000), q_pending_submissions = 1024,
     q_history_days = 7\<rparr>"

definition default_delivery :: delivery_config where
  "default_delivery = \<lparr>
     d_workers = 4, d_messages_per_second = Fin (1 / 2), d_recipient_limit_24h = 10000,
     d_max_attempts = 20, d_max_age_hours = Fin 72, d_request_timeout = Fin 60,
     d_connect_timeout = Fin 10, d_retry_base_seconds = Fin 15, d_retry_max_seconds = Fin 3600,
     d_shutdown_seconds = Fin 70\<rparr>"

definition default_config :: config where
  "default_config = \<lparr>cfg_data_dir = ''./state'', cfg_smtp = default_smtp, cfg_web = default_web,
     cfg_account = default_account, cfg_additional = default_additional,
     cfg_queue = default_queue, cfg_delivery = default_delivery\<rparr>"

section \<open>Computed properties\<close>

definition username :: "account_config \<Rightarrow> string" where
  "username a = (if acc_login_username a \<noteq> [] then acc_login_username a else acc_sender a)"

definition scope :: "account_config \<Rightarrow> string" where
  "scope a =
     (if acc_backend a = ''graph'' \<and> acc_send_shared a
      then ''openid profile offline_access User.Read Mail.Send Mail.Send.Shared''
      else ''openid profile offline_access '' @
        (if acc_backend a = ''graph'' then ''https://graph.microsoft.com/Mail.Send''
         else ''https://outlook.office365.com/EWS.AccessAsUser.All''))"

abbreviation sender_of :: "config \<Rightarrow> string" where
  "sender_of cfg \<equiv> acc_sender (cfg_account cfg)"

text \<open>The mailbox name the quota ledger is kept under: \<open>config.account.sender.casefold()\<close>.\<close>

abbreviation quota_mailbox :: "config \<Rightarrow> string" where
  "quota_mailbox cfg \<equiv> casefold (sender_of cfg)"

end
