(* ===== verification/Gw_Tables.thy ===== *)
theory Gw_Tables
  imports Gw_Prelude
begin

text \<open>
  The key/value tables of the queue database (\<open>settings\<close>, \<open>counters\<close>, \<open>buckets\<close>) as
  association lists in row order, with the three SQL statements the code runs on them:
  lookup with a default, upsert that overwrites, upsert that adds.
\<close>

definition tab_get :: "'v \<Rightarrow> 'k \<Rightarrow> ('k \<times> 'v) list \<Rightarrow> 'v" where
  "tab_get d k t = (case map_of t k of None \<Rightarrow> d | Some v \<Rightarrow> v)"

text \<open>\<open>INSERT ... ON CONFLICT(key) DO UPDATE SET value=excluded.value\<close>\<close>

definition tab_set :: "'k \<Rightarrow> 'v \<Rightarrow> ('k \<times> 'v) list \<Rightarrow> ('k \<times> 'v) list" where
  "tab_set k v t = AList.update k v t"

text \<open>\<open>INSERT ... ON CONFLICT(key) DO UPDATE SET value=value+excluded.value\<close>\<close>

definition tab_add :: "'k \<Rightarrow> int \<Rightarrow> ('k \<times> int) list \<Rightarrow> ('k \<times> int) list" where
  "tab_add k v t = AList.update k (tab_get 0 k t + v) t"

text \<open>
  What the database component relies on, as an interface: a table read back after each kind
  of write.  The interpretation below gives it for the association lists.
\<close>

locale counter_table =
  fixes get :: "'k \<Rightarrow> 't \<Rightarrow> int"
    and add :: "'k \<Rightarrow> int \<Rightarrow> 't \<Rightarrow> 't"
    and put :: "'k \<Rightarrow> int \<Rightarrow> 't \<Rightarrow> 't"
  assumes get_add: "get j (add k v t) = (if j = k then get k t + v else get j t)"
    and get_put: "get j (put k v t) = (if j = k then v else get j t)"
begin

lemma get_add_same: "get k (add k v t) = get k t + v"
  by (simp add: get_add)

lemma get_add_other: "j \<noteq> k \<Longrightarrow> get j (add k v t) = get j t"
  by (simp add: get_add)

lemma add_add: "get j (add k v (add k w t)) = get j (add k (v + w) t)"
  by (simp add: get_add)

lemma add_commute: "get j (add k v (add l w t)) = get j (add l w (add k v t))"
  by (simp add: get_add)

lemma get_fold_add: "get k (fold (\<lambda>v. add k v) vs t) = get k t + sum_list vs"
  by (induction vs arbitrary: t) (simp_all add: get_add)

end

interpretation ctab: counter_table "\<lambda>k. tab_get 0 k" tab_add tab_set
  by unfold_locales (auto simp: tab_get_def tab_add_def tab_set_def update_conv')

lemma tab_get_set [simp]: "tab_get d j (tab_set k v t) = (if j = k then v else tab_get d j t)"
  by (simp add: tab_get_def tab_set_def update_conv')

lemmas tab_get_add [simp] = ctab.get_add

lemma tab_get_Nil [simp]: "tab_get d k [] = d"
  by (simp add: tab_get_def)

lemma tab_set_keys: "fst ` set (tab_set k v t) = insert k (fst ` set t)"
  by (simp add: tab_set_def dom_update)

end
