(* ===== verification/Gw_Message.thy ===== *)
theory Gw_Message
  imports Gw_Config Gw_Tables
begin

text \<open>
  \<open>message.py\<close>: the mailbox check and \<open>prepare_message\<close>, which turns a received DATA payload
  into the message that is queued.  The grammar of \<open>email\<close> headers belongs to Python's library
  and is a parameter, the record \<open>email_lib\<close>; every decision the gateway takes on the parsed
  headers is spelled out.
\<close>

section \<open>What the email library provides\<close>

text \<open>
  A header as the policy \<open>SMTP\<close> presents it: its text (\<open>str(header)\<close>), whether it has defects,
  and the \<open>addr_spec\<close> of each of its \<open>addresses\<close> (empty for a header that is not an address
  header).
\<close>

record hval =
  hv_str :: string
  hv_defects :: bool
  hv_addrs :: "string list"

type_synonym headers = "(string \<times> hval) list"

text \<open>
  \<open>el_parse\<close>: \<open>BytesHeaderParser(policy=SMTP).parsebytes\<close>, with whether the message has defects;
  \<open>el_store\<close>: the header made from a name and a text, \<open>None\<close> for the \<open>ValueError\<close> raised when
  the text spans lines; \<open>el_serialize\<close>: \<open>as_bytes\<close>; \<open>el_addr_spec\<close>: the local part, the domain
  and the quoted form of \<open>Address(addr_spec=value)\<close>, \<open>None\<close> for the errors it raises;
  \<open>el_formatdate\<close>: the current date text.
\<close>

record email_lib =
  el_parse :: "bytes \<Rightarrow> headers \<times> bool"
  el_store :: "string \<Rightarrow> string \<Rightarrow> hval option"
  el_serialize :: "headers \<Rightarrow> bytes"
  el_addr_spec :: "string \<Rightarrow> (string \<times> string \<times> string) option"
  el_formatdate :: string

section \<open>The mailbox check\<close>

definition is_control :: "char \<Rightarrow> bool" where
  "is_control c = (code c < 32 \<or> code c = 127)"

lemma is_control_bits [code]:
  "is_control (Char b0 b1 b2 b3 b4 b5 b6 b7) =
     (\<not> b5 \<and> \<not> b6 \<and> \<not> b7 \<or> b0 \<and> b1 \<and> b2 \<and> b3 \<and> b4 \<and> b5 \<and> b6 \<and> \<not> b7)"
  by (cases b0; cases b1; cases b2; cases b3; cases b4; cases b5; cases b6; cases b7; simp add: is_control_def code_def)

definition mailbox :: "email_lib \<Rightarrow> string \<Rightarrow> bool \<Rightarrow> string res" where
  "mailbox lib value allow_empty =
     (if value = [] \<and> allow_empty then Inr []
      else if list_ex is_control value \<or> length value > 254
        then Inl (MessageRejected ''Invalid mailbox'')
      else if list_ex non_ascii value
        then Inl (MessageRejected ''Invalid mailbox; SMTPUTF8 addresses are not supported'')
      else case el_addr_spec lib value of
          None \<Rightarrow> Inl (MessageRejected ''Invalid mailbox; SMTPUTF8 addresses are not supported'')
        | Some (user, domain, spec) \<Rightarrow>
            (if user = [] \<or> domain = [] \<or> strip value \<noteq> value
             then Inl (MessageRejected ''A complete addr-spec is required'')
             else Inr spec))"

lemma mailbox_no_control:
  "mailbox lib v e = Inr a \<Longrightarrow> (v = [] \<and> e) \<or> (\<forall>c \<in> set v. \<not> is_control c \<and> code c < 128)"
  by (auto simp: mailbox_def list_ex_iff not_le non_ascii_def split: if_splits option.splits prod.splits)

lemma mailbox_length: "mailbox lib v e = Inr a \<Longrightarrow> length v \<le> 254"
  by (auto simp: mailbox_def split: if_splits option.splits prod.splits)

lemma mailbox_error: "mailbox lib v e = Inl x \<Longrightarrow> \<exists>m. x = MessageRejected m"
  by (auto simp: mailbox_def split: if_splits option.splits prod.splits)

text \<open>The list comprehension \<open>[mailbox(r) for r in recipients]\<close>: the first error ends it.\<close>

fun map_res :: "('a \<Rightarrow> 'b res) \<Rightarrow> 'a list \<Rightarrow> 'b list res" where
  "map_res f [] = Inr []"
| "map_res f (x # xs) = bind_res (f x) (\<lambda>y. bind_res (map_res f xs) (\<lambda>ys. Inr (y # ys)))"

lemma map_res_Inr: "map_res f xs = Inr ys \<Longrightarrow> list_all2 (\<lambda>x y. f x = Inr y) xs ys"
  by (induction xs arbitrary: ys) (auto simp: bind_res_Inr)

lemma map_res_mem: "map_res f xs = Inr ys \<Longrightarrow> y \<in> set ys \<Longrightarrow> \<exists>x \<in> set xs. f x = Inr y"
  by (induction xs arbitrary: ys) (auto simp: bind_res_Inr)

lemma map_res_mem_src: "map_res f xs = Inr ys \<Longrightarrow> x \<in> set xs \<Longrightarrow> \<exists>y \<in> set ys. f x = Inr y"
  by (induction xs arbitrary: ys) (auto simp: bind_res_Inr)

section \<open>The prepared message\<close>

record prepared_message =
  pm_id :: string
  pm_mime :: bytes
  pm_recipients :: "string list"
  pm_envelope_sender :: string
  pm_original_from :: string
  pm_subject :: string
  pm_message_id :: string
  pm_nat :: bool

section \<open>Operations of a parsed message\<close>

definition same_name :: "string \<Rightarrow> string \<Rightarrow> bool" where
  "same_name a b = (casefold a = casefold b)"

definition get_all :: "string \<Rightarrow> headers \<Rightarrow> hval list" where
  "get_all name hs = map snd (filter (\<lambda>(k, v). same_name k name) hs)"

definition get_first :: "string \<Rightarrow> headers \<Rightarrow> hval option" where
  "get_first name hs = (case get_all name hs of [] \<Rightarrow> None | v # _ \<Rightarrow> Some v)"

definition del_header :: "string \<Rightarrow> headers \<Rightarrow> headers" where
  "del_header name hs = filter (\<lambda>(k, v). \<not> same_name k name) hs"

text \<open>The header names the policy allows once (\<open>header_max_count\<close> is 1 for them).\<close>

definition single_headers :: "string list" where
  "single_headers = [''from'', ''to'', ''cc'', ''bcc'', ''subject'', ''sender'', ''message-id'',
     ''date'', ''orig-date'', ''reply-to'', ''mime-version'', ''content-type'',
     ''content-disposition'', ''content-transfer-encoding'']"

text \<open>\<open>message[name] = text\<close>\<close>

definition add_header :: "email_lib \<Rightarrow> string \<Rightarrow> string \<Rightarrow> headers \<Rightarrow> headers res" where
  "add_header lib name text hs =
     (if casefold name \<in> set single_headers \<and> get_all name hs \<noteq> []
      then Inl (ValueError ''There may be at most 1 such header in a message'')
      else case el_store lib name text of
          None \<Rightarrow> Inl (ValueError ''Header values may not contain linefeed or carriage return characters'')
        | Some v \<Rightarrow> Inr (hs @ [(name, v)]))"

text \<open>\<open>message.replace_header(name, text)\<close>: the first header of that name keeps its place.\<close>

fun replace_first :: "string \<Rightarrow> hval \<Rightarrow> headers \<Rightarrow> headers" where
  "replace_first name v [] = []"
| "replace_first name v ((k, w) # hs) =
     (if same_name k name then (k, v) # hs else (k, w) # replace_first name v hs)"

definition replace_header :: "email_lib \<Rightarrow> string \<Rightarrow> string \<Rightarrow> headers \<Rightarrow> headers res" where
  "replace_header lib name text hs =
     (if get_all name hs = [] then Inl (OtherExc ''KeyError'')
      else case el_store lib name text of
          None \<Rightarrow> Inl (ValueError ''Header values may not contain linefeed or carriage return characters'')
        | Some v \<Rightarrow> Inr (replace_first name v hs))"

fun add_headers :: "email_lib \<Rightarrow> string \<Rightarrow> string list \<Rightarrow> headers \<Rightarrow> headers res" where
  "add_headers lib name [] hs = Inr hs"
| "add_headers lib name (t # ts) hs =
     bind_res (add_header lib name t hs) (add_headers lib name ts)"

subsection \<open>Reading after writing\<close>

lemma get_all_append [simp]: "get_all n (hs @ hs') = get_all n hs @ get_all n hs'"
  by (simp add: get_all_def)

lemma get_all_single [simp]: "get_all n [(k, v)] = (if same_name k n then [v] else [])"
  by (simp add: get_all_def)

lemma get_all_Nil [simp]: "get_all n [] = []"
  by (simp add: get_all_def)

lemma same_name_refl [simp]: "same_name a a"
  by (simp add: same_name_def)

lemma same_name_sym: "same_name a b = same_name b a"
  by (auto simp: same_name_def)

lemma get_all_del [simp]:
  "get_all n (del_header m hs) = (if same_name n m then [] else get_all n hs)"
  by (auto simp: get_all_def del_header_def same_name_def filter_empty_conv
      intro!: arg_cong [where f = "map snd"] filter_cong)

lemma get_all_replace_other:
  "\<not> same_name n m \<Longrightarrow> get_all n (replace_first m v hs) = get_all n hs"
  by (induction m v hs rule: replace_first.induct)
    (auto simp: get_all_def same_name_def)

lemma get_all_replace_same:
  "get_all n hs = w # ws \<Longrightarrow> get_all n (replace_first n v hs) = v # ws"
  by (induction n v hs rule: replace_first.induct)
    (auto simp: get_all_def same_name_def split: if_splits)

lemma add_header_Inr:
  "add_header lib n t hs = Inr hs' \<longleftrightarrow>
     (\<exists>v. el_store lib n t = Some v \<and> hs' = hs @ [(n, v)] \<and>
        \<not> (casefold n \<in> set single_headers \<and> get_all n hs \<noteq> []))"
  by (auto simp: add_header_def split: option.splits)

lemma add_headers_other:
  "add_headers lib n ts hs = Inr hs' \<Longrightarrow> \<not> same_name m n \<Longrightarrow> get_all m hs' = get_all m hs"
  by (induction ts arbitrary: hs)
    (auto simp: bind_res_Inr add_header_Inr same_name_def)

text \<open>A header name that may occur once takes at most one text.\<close>

lemma add_headers_single:
  "casefold n \<in> set single_headers \<Longrightarrow> add_headers lib n ts hs = Inr hs' \<Longrightarrow> length ts \<le> 1"
  by (cases ts; cases "tl ts") (auto simp: bind_res_Inr add_header_Inr)

section \<open>Step 1: Resent headers take over\<close>

definition resent_names :: "string list" where
  "resent_names = [''From'', ''To'', ''Cc'', ''Bcc'', ''Message-ID'']"

definition resent_step :: "email_lib \<Rightarrow> string \<Rightarrow> headers \<Rightarrow> headers res" where
  "resent_step lib name hs =
     (let values = get_all (''Resent-'' @ name) hs
      in if values = [] then Inr hs
         else add_headers lib name (map hv_str values)
                (del_header (''Resent-'' @ name) (del_header name hs)))"

fun apply_resent :: "email_lib \<Rightarrow> string list \<Rightarrow> headers \<Rightarrow> headers res" where
  "apply_resent lib [] hs = Inr hs"
| "apply_resent lib (n # ns) hs = bind_res (resent_step lib n hs) (apply_resent lib ns)"

text \<open>The four headers that may occur only once.\<close>

fun check_duplicates :: "string list \<Rightarrow> headers \<Rightarrow> unit res" where
  "check_duplicates [] hs = Inr ()"
| "check_duplicates (n # ns) hs =
     (if length (get_all n hs) > 1
      then Inl (MessageRejected (''Duplicate '' @ n @ '' header'')) else check_duplicates ns hs)"

section \<open>Step 2: the sender policy\<close>

text \<open>\<open>s.replace(marker, "")\<close>: all occurrences, left to right, without overlap.\<close>

fun delete_all :: "string \<Rightarrow> nat \<Rightarrow> string \<Rightarrow> string" where
  "delete_all m (Suc n) (c # cs) = delete_all m n cs"
| "delete_all m k [] = []"
| "delete_all m 0 (c # cs) =
     (if m \<noteq> [] \<and> is_prefix m (c # cs) then delete_all m (length m - 1) cs
      else c # delete_all m 0 cs)"

definition remove_marker :: "string \<Rightarrow> string \<Rightarrow> string" where
  "remove_marker m s = delete_all m 0 s"

text \<open>The addresses an unmarked message may be sent from, in case-folded form.\<close>

definition allowed_senders :: "config \<Rightarrow> string \<Rightarrow> string list" where
  "allowed_senders cfg extra = map casefold (filter (\<lambda>v. v \<noteq> []) [sender_of cfg, extra])"

definition first_addr :: "hval \<Rightarrow> string res" where
  "first_addr h = (case hv_addrs h of [] \<Rightarrow> Inl IndexError | a # _ \<Rightarrow> Inr a)"

definition from_addr :: "headers \<Rightarrow> string res" where
  "from_addr hs = (case get_first ''From'' hs of
      None \<Rightarrow> Inl (OtherExc ''AttributeError'') | Some h \<Rightarrow> first_addr h)"

definition resolve_sender ::
  "email_lib \<Rightarrow> config \<Rightarrow> string \<Rightarrow> headers \<Rightarrow> (headers \<times> string \<times> bool) res" where
  "resolve_sender lib cfg extra hs =
     (case get_first ''From'' hs of
        None \<Rightarrow> Inl (MessageRejected ''Exactly one valid From mailbox is required'')
      | Some h \<Rightarrow>
          if hv_defects h \<or> length (hv_addrs h) \<noteq> 1
          then Inl (MessageRejected ''Exactly one valid From mailbox is required'')
          else if is_infix (acc_nat_marker (cfg_account cfg)) (hv_str h)
          then (if sender_of cfg = []
                then Inl (MessageRejected ''NAT sender rewriting requires a configured legacy sender'')
                else let original = remove_marker (acc_nat_marker (cfg_account cfg)) (hv_str h);
                         subject = (case get_first ''Subject'' hs of
                                      None \<Rightarrow> ''null'' | Some s \<Rightarrow> hv_str s)
                     in bind_res
                          (add_header lib ''Subject''
                             (subject @ '' (Sender: '' @ original @ '')'')
                             (del_header ''Subject'' hs))
                        (\<lambda>hs1. bind_res (replace_header lib ''From'' (sender_of cfg) hs1)
                        (\<lambda>hs2. Inr (hs2, hv_str h, True))))
          else bind_res (mailbox lib (hd (hv_addrs h)) False)
               (\<lambda>a. if casefold a \<notin> set (allowed_senders cfg extra)
                    then Inl (MessageRejected ''From must match a connected sender address'')
                    else Inr (hs, hv_str h, False)))"

text \<open>A \<open>Sender\<close> header must name the effective From mailbox.\<close>

definition check_sender :: "email_lib \<Rightarrow> headers \<Rightarrow> unit res" where
  "check_sender lib hs =
     (case get_first ''Sender'' hs of
        None \<Rightarrow> Inr ()
      | Some s \<Rightarrow>
          if hv_defects s \<or> length (hv_addrs s) \<noteq> 1
          then Inl (MessageRejected ''Sender header must match the configured mailbox'')
          else bind_res (from_addr hs)
               (\<lambda>f. bind_res (mailbox lib f False)
               (\<lambda>a. if casefold (hd (hv_addrs s)) \<noteq> casefold a
                    then Inl (MessageRejected ''Sender header must match the configured mailbox'')
                    else Inr ())))"

section \<open>Step 3: the effective recipients\<close>

text \<open>\<open>list(dict.fromkeys(xs))\<close>: the first occurrence of each element stays.\<close>

definition fromkeys :: "'a list \<Rightarrow> 'a list" where
  "fromkeys xs = rev (remdups (rev xs))"

lemma set_fromkeys [simp]: "set (fromkeys xs) = set xs"
  by (simp add: fromkeys_def)

lemma distinct_fromkeys [simp]: "distinct (fromkeys xs)"
  by (simp add: fromkeys_def)

lemma fromkeys_eq_Nil [simp]: "fromkeys xs = [] \<longleftrightarrow> xs = []"
  by (simp add: fromkeys_def)

text \<open>A dictionary from case-folded addresses to addresses, in insertion order.\<close>

type_synonym addr_book = "(string \<times> string) list"

definition book_add :: "string \<Rightarrow> addr_book \<Rightarrow> addr_book" where
  "book_add r b = AList.update (casefold r) r b"

fun collect_addrs :: "email_lib \<Rightarrow> string list \<Rightarrow> addr_book \<Rightarrow> addr_book res" where
  "collect_addrs lib [] b = Inr b"
| "collect_addrs lib (a # as) b =
     bind_res (mailbox lib a False) (\<lambda>r. collect_addrs lib as (book_add r b))"

fun collect_headers :: "email_lib \<Rightarrow> string \<Rightarrow> hval list \<Rightarrow> addr_book \<Rightarrow> addr_book res" where
  "collect_headers lib name [] b = Inr b"
| "collect_headers lib name (h # hs) b =
     (if hv_defects h then Inl (MessageRejected (''Malformed '' @ name @ '' header''))
      else bind_res (collect_addrs lib (hv_addrs h) b) (collect_headers lib name hs))"

fun collect_visible :: "email_lib \<Rightarrow> string list \<Rightarrow> headers \<Rightarrow> addr_book \<Rightarrow> addr_book res" where
  "collect_visible lib [] hs b = Inr b"
| "collect_visible lib (n # ns) hs b =
     bind_res (collect_headers lib n (get_all n hs) b) (collect_visible lib ns hs)"

definition visible_names :: "string list" where
  "visible_names = [''To'', ''Cc'', ''Bcc'']"

fun join_with :: "string \<Rightarrow> string list \<Rightarrow> string" where
  "join_with sep [] = []"
| "join_with sep [s] = s"
| "join_with sep (s # t # ss) = s @ sep @ join_with sep (t # ss)"

text \<open>\<open>r.rsplit("@", 1)[1]\<close>: what follows the last at sign; \<open>None\<close> for the \<open>IndexError\<close>.\<close>

definition rsplit_at :: "string \<Rightarrow> string option" where
  "rsplit_at r = (if CHR ''@'' \<in> set r
                  then Some (rev (takeWhile (\<lambda>c. c \<noteq> CHR ''@'') (rev r))) else None)"

text \<open>\<open>any(r.rsplit("@", 1)[1].casefold() not in allowed for r in effective)\<close>\<close>

fun outside_domains :: "string list \<Rightarrow> string list \<Rightarrow> bool res" where
  "outside_domains allowed [] = Inr False"
| "outside_domains allowed (r # rs) =
     (case rsplit_at r of None \<Rightarrow> Inl IndexError
      | Some d \<Rightarrow> if casefold d \<notin> set allowed then Inr True else outside_domains allowed rs)"

definition add_missing :: "email_lib \<Rightarrow> string list \<Rightarrow> headers \<Rightarrow> headers res" where
  "add_missing lib missing hs =
     (if missing = [] then Inr hs
      else add_header lib ''Bcc'' (join_with '', '' (map hv_str (get_all ''Bcc'' hs) @ missing))
             (del_header ''Bcc'' hs))"

definition resolve_recipients ::
  "email_lib \<Rightarrow> config \<Rightarrow> string list \<Rightarrow> headers \<Rightarrow> (headers \<times> string list) res" where
  "resolve_recipients lib cfg recipients hs =
     bind_res (map_res (\<lambda>r. mailbox lib r False) recipients) (\<lambda>ms.
     let envelope = fromkeys ms in
     if envelope = [] then Inl (MessageRejected ''At least one recipient is required'')
     else bind_res (collect_visible lib visible_names hs []) (\<lambda>visible.
     if acc_recipient_policy (cfg_account cfg) = ''envelope_strict''
        \<and> \<not> set (map fst visible) \<subseteq> casefold ` set envelope
     then Inl (MessageRejected ''Header recipients must also appear in SMTP RCPT TO'')
     else let missing = filter (\<lambda>r. casefold r \<notin> set (map fst visible)) envelope in
     bind_res (add_missing lib missing hs) (\<lambda>hs1.
     let effective = fold book_add envelope visible;
         allowed = map casefold (acc_allowed_recipient_domains (cfg_account cfg)) in
     if int (length effective) > smtp_max_recipients (cfg_smtp cfg)
     then Inl (MessageRejected ''Too many effective recipients (headers plus envelope)'')
     else if allowed = [] then Inr (hs1, map snd effective)
     else bind_res (outside_domains allowed (map fst effective)) (\<lambda>outside.
     if outside then Inl (MessageRejected ''Recipient domain is not allowed'')
     else Inr (hs1, map snd effective)))))"

section \<open>Step 4: the remaining headers and the wire form\<close>

definition stale_names :: "string list" where
  "stale_names = [''Return-Path'', ''Authentication-Results'', ''DKIM-Signature'', ''ARC-Seal'',
     ''ARC-Message-Signature'', ''ARC-Authentication-Results'']"

definition default_header ::
  "email_lib \<Rightarrow> string \<Rightarrow> string \<Rightarrow> headers \<Rightarrow> headers res" where
  "default_header lib name text hs =
     (if get_first name hs = None then add_header lib name text hs else Inr hs)"

definition finish_headers ::
  "email_lib \<Rightarrow> config \<Rightarrow> string \<Rightarrow> headers \<Rightarrow> headers res" where
  "finish_headers lib cfg queue_id hs =
     bind_res (default_header lib ''Message-ID''
                 (''<'' @ queue_id @ ''@'' @ smtp_hostname (cfg_smtp cfg) @ ''>'')
                 (fold del_header stale_names hs))
       (default_header lib ''Date'' (el_formatdate lib))"

definition crlf2 :: bytes where
  "crlf2 = [CR, LF, CR, LF]"

definition head_of :: "bytes \<Rightarrow> bytes" where
  "head_of b = fst (partition_at crlf2 b)"

definition encode_message :: "email_lib \<Rightarrow> headers \<Rightarrow> bytes \<Rightarrow> bytes" where
  "encode_message lib hs body = head_of (el_serialize lib hs) @ crlf2 @ body"

text \<open>\<open>re.search(br"(?<!\r)\n|\r(?!\n)", head)\<close>: a line feed or a carriage return on its own.\<close>

fun bare_newline :: "bytes \<Rightarrow> bool" where
  "bare_newline [] = False"
| "bare_newline (c # cs) =
     (if c = LF then True
      else if c = CR then (case cs of [] \<Rightarrow> True | d # ds \<Rightarrow> d \<noteq> LF \<or> bare_newline ds)
      else bare_newline cs)"

definition additional_size_limit :: nat where
  "additional_size_limit = 2500000"

section \<open>\<open>prepare_message\<close>\<close>

definition prepare_message ::
  "email_lib \<Rightarrow> bytes \<Rightarrow> string list \<Rightarrow> string \<Rightarrow> string \<Rightarrow> config \<Rightarrow> string
     \<Rightarrow> prepared_message res" where
  "prepare_message lib raw recipients envelope_sender queue_id cfg extra =
     (if int (length raw) > smtp_max_message_bytes (cfg_smtp cfg)
      then Inl (MessageRejected ''Message too large'') else
      let (hd0, sep, body) = partition_at crlf2 raw in
      if \<not> sep \<or> int (length hd0) > smtp_max_header_bytes (cfg_smtp cfg) \<or> CHR 0x00 \<in> set hd0
      then Inl (MessageRejected ''Missing, oversized, or invalid message headers'')
      else if bare_newline hd0
      then Inl (MessageRejected ''Headers require CRLF line endings'') else
      let (hs0, defects) = el_parse lib (hd0 @ crlf2) in
      if defects then Inl (MessageRejected ''Malformed headers'') else
      bind_res (apply_resent lib resent_names hs0) (\<lambda>hs1.
      bind_res (check_duplicates [''From'', ''Subject'', ''Sender'', ''Message-ID''] hs1) (\<lambda>_.
      bind_res (resolve_sender lib cfg extra hs1) (\<lambda>(hs2, original_from, natted).
      bind_res (check_sender lib hs2) (\<lambda>_.
      bind_res (resolve_recipients lib cfg recipients hs2) (\<lambda>(hs3, effective).
      bind_res (finish_headers lib cfg queue_id hs3) (\<lambda>hs4.
      let mime = encode_message lib hs4 body in
      if int (length mime) > smtp_max_message_bytes (cfg_smtp cfg)
      then Inl (MessageRejected ''Rewritten message exceeds the configured size limit'')
      else bind_res (if extra = [] then Inr False
                     else bind_res (from_addr hs4) (\<lambda>a. Inr (casefold a = casefold extra)))
      (\<lambda>additional.
      if additional \<and> length mime > additional_size_limit
      then Inl (MessageRejected ''Additional Graph sender is limited to 2,500,000-byte MIME messages'')
      else Inr \<lparr>pm_id = queue_id, pm_mime = mime, pm_recipients = effective,
                pm_envelope_sender = envelope_sender, pm_original_from = original_from,
                pm_subject = (case get_first ''Subject'' hs4 of None \<Rightarrow> [] | Some s \<Rightarrow> hv_str s),
                pm_message_id = (case get_first ''Message-ID'' hs4 of
                                   None \<Rightarrow> ''None'' | Some s \<Rightarrow> hv_str s),
                pm_nat = natted\<rparr>))))))))"

end
