(* ===== verification/Gw_Message_Props.thy ===== *)
theory Gw_Message_Props
  imports Gw_Message
begin

text \<open>
  What \<open>prepare_message\<close> guarantees about the message it hands to the queue: which mailbox it
  is sent from, who receives it, that the body octets are the client's, and its size bounds.
\<close>

section \<open>Header names\<close>

lemma name_neqs [simp]:
  "\<not> same_name ''From'' ''Bcc''" "\<not> same_name ''From'' ''Subject''"
  "\<not> same_name ''From'' ''Message-ID''" "\<not> same_name ''From'' ''Date''"
  "\<not> same_name ''Bcc'' ''Message-ID''" "\<not> same_name ''Bcc'' ''Date''"
  "\<not> same_name ''To'' ''Bcc''" "\<not> same_name ''Cc'' ''Bcc''"
  by (simp_all add: same_name_def char_eval)

lemma stale_neqs [simp]:
  "n \<in> set stale_names \<Longrightarrow> \<not> same_name ''From'' n"
  "n \<in> set stale_names \<Longrightarrow> \<not> same_name n ''Message-ID''"
  "n \<in> set stale_names \<Longrightarrow> \<not> same_name n ''Date''"
proof -
  have "list_all (\<lambda>n. \<not> same_name ''From'' n \<and> \<not> same_name n ''Message-ID'' \<and>
          \<not> same_name n ''Date'') stale_names"
    by (simp add: stale_names_def same_name_def char_eval)
  then show "n \<in> set stale_names \<Longrightarrow> \<not> same_name ''From'' n"
    "n \<in> set stale_names \<Longrightarrow> \<not> same_name n ''Message-ID''"
    "n \<in> set stale_names \<Longrightarrow> \<not> same_name n ''Date''"
    by (auto simp: list_all_iff)
qed

section \<open>Operations on headers\<close>

lemma add_header_get:
  "add_header lib n t hs = Inr hs' \<Longrightarrow>
     \<exists>v. el_store lib n t = Some v \<and> get_all m hs' = get_all m hs @ (if same_name n m then [v] else [])"
  by (auto simp: add_header_Inr)

lemma add_header_other:
  "add_header lib n t hs = Inr hs' \<Longrightarrow> \<not> same_name m n \<Longrightarrow> get_all m hs' = get_all m hs"
  by (auto simp: add_header_Inr same_name_sym)

lemma default_header_get:
  "default_header lib n t hs = Inr hs' \<Longrightarrow> get_all n hs' \<noteq> []"
  by (auto simp: default_header_def add_header_Inr get_first_def split: if_splits list.splits)

lemma default_header_other:
  "default_header lib n t hs = Inr hs' \<Longrightarrow> \<not> same_name m n \<Longrightarrow> get_all m hs' = get_all m hs"
  by (auto simp: default_header_def add_header_other split: if_splits)

lemma fold_del_get:
  "get_all m (fold del_header ns hs) = (if \<exists>n \<in> set ns. same_name m n then [] else get_all m hs)"
  by (induction ns arbitrary: hs) auto

lemma same_name_stale:
  "same_name n m \<Longrightarrow> m \<in> set stale_names \<Longrightarrow> \<not> same_name n ''Message-ID'' \<and> \<not> same_name n ''Date''"
  using stale_neqs by (auto simp: same_name_def)

lemma from_not_stale [simp]: "\<not> (\<exists>n \<in> set stale_names. same_name ''From'' n)"
  using stale_neqs(1) by blast

lemma finish_headers_get:
  assumes "finish_headers lib cfg q hs = Inr hs'"
  shows "get_all ''From'' hs' = get_all ''From'' hs"
    and "n \<in> set stale_names \<Longrightarrow> get_all n hs' = []"
    and "get_all ''Message-ID'' hs' \<noteq> []"
proof -
  obtain hs1 where 1: "default_header lib ''Message-ID''
        (''<'' @ q @ ''@'' @ smtp_hostname (cfg_smtp cfg) @ ''>'') (fold del_header stale_names hs) = Inr hs1"
    and 2: "default_header lib ''Date'' (el_formatdate lib) hs1 = Inr hs'"
    using assms by (auto simp: finish_headers_def bind_res_Inr)
  show "get_all ''From'' hs' = get_all ''From'' hs"
    using default_header_other [OF 2] default_header_other [OF 1] by (simp add: fold_del_get)
  show "get_all n hs' = []" if "n \<in> set stale_names"
    using default_header_other [OF 2 stale_neqs(3) [OF that]]
      default_header_other [OF 1 stale_neqs(2) [OF that]] that
    by (auto simp: fold_del_get)
  have "\<not> same_name ''Message-ID'' ''Date''" by (simp add: same_name_def char_eval)
  then show "get_all ''Message-ID'' hs' \<noteq> []"
    using default_header_other [OF 2] default_header_get [OF 1] by simp
qed

lemma add_missing_other:
  "add_missing lib ms hs = Inr hs' \<Longrightarrow> \<not> same_name m ''Bcc'' \<Longrightarrow> get_all m hs' = get_all m hs"
  by (auto simp: add_missing_def add_header_other split: if_splits)

lemma check_duplicates_Inr:
  "check_duplicates ns hs = Inr u \<longleftrightarrow> (\<forall>n \<in> set ns. length (get_all n hs) \<le> 1)"
  by (induction ns) (auto simp: not_less)

section \<open>The address book\<close>

definition book_ok :: "addr_book \<Rightarrow> bool" where
  "book_ok b = (distinct (map fst b) \<and> (\<forall>p \<in> set b. fst p = casefold (snd p)))"

lemma book_ok_Nil [simp]: "book_ok []"
  by (simp add: book_ok_def)

lemma mem_update: "p \<in> set (AList.update k v b) \<Longrightarrow> p = (k, v) \<or> p \<in> set b"
  by (induction b) (auto split: if_splits)

lemma book_ok_add [simp]: "book_ok b \<Longrightarrow> book_ok (book_add r b)"
  unfolding book_ok_def book_add_def
  by (auto simp: distinct_update dest!: mem_update)

lemma keys_book_add: "set (map fst (book_add r b)) = insert (casefold r) (set (map fst b))"
  by (auto simp: book_add_def dom_update [unfolded dom_map_of_conv_image_fst])

lemma book_ok_map: "book_ok b \<Longrightarrow> map fst b = map casefold (map snd b)"
  by (auto simp: book_ok_def)

lemma collect_addrs_ok:
  "collect_addrs lib as b = Inr b' \<Longrightarrow> book_ok b \<Longrightarrow> book_ok b'"
  by (induction as arbitrary: b) (auto simp: bind_res_Inr)

lemma collect_headers_ok:
  "collect_headers lib n hs b = Inr b' \<Longrightarrow> book_ok b \<Longrightarrow> book_ok b'"
  by (induction hs arbitrary: b) (auto simp: bind_res_Inr dest: collect_addrs_ok split: if_splits)

lemma collect_visible_ok:
  "collect_visible lib ns hs b = Inr b' \<Longrightarrow> book_ok b \<Longrightarrow> book_ok b'"
  by (induction ns arbitrary: b) (auto simp: bind_res_Inr dest: collect_headers_ok)

lemma fold_book_ok: "book_ok b \<Longrightarrow> book_ok (fold book_add rs b)"
  by (induction rs arbitrary: b) auto

lemma fold_book_keys:
  "set (map fst (fold book_add rs b)) = casefold ` set rs \<union> set (map fst b)"
  by (induction rs arbitrary: b) (auto simp: keys_book_add simp del: set_map)

lemma outside_domains_False:
  "outside_domains al rs = Inr False \<Longrightarrow> r \<in> set rs \<Longrightarrow>
     \<exists>d. rsplit_at r = Some d \<and> casefold d \<in> set al"
  by (induction rs) (auto split: option.splits if_splits)

section \<open>A prepared message, stage by stage\<close>

lemma prepare_InrE:
  assumes "prepare_message lib raw rcpts env q cfg extra = Inr m"
  obtains hd0 body hs0 hs1 hs2 orig natted hs3 effective hs4 additional
  where "partition_at crlf2 raw = (hd0, True, body)"
    and "int (length raw) \<le> smtp_max_message_bytes (cfg_smtp cfg)"
    and "int (length hd0) \<le> smtp_max_header_bytes (cfg_smtp cfg)" and "\<not> bare_newline hd0"
    and "el_parse lib (hd0 @ crlf2) = (hs0, False)"
    and "apply_resent lib resent_names hs0 = Inr hs1"
    and "check_duplicates [''From'', ''Subject'', ''Sender'', ''Message-ID''] hs1 = Inr ()"
    and "resolve_sender lib cfg extra hs1 = Inr (hs2, orig, natted)"
    and "check_sender lib hs2 = Inr ()"
    and "resolve_recipients lib cfg rcpts hs2 = Inr (hs3, effective)"
    and "finish_headers lib cfg q hs3 = Inr hs4"
    and "pm_id m = q" and "pm_mime m = encode_message lib hs4 body"
    and "int (length (pm_mime m)) \<le> smtp_max_message_bytes (cfg_smtp cfg)"
    and "pm_recipients m = effective" and "pm_envelope_sender m = env"
    and "pm_original_from m = orig" and "pm_nat m = natted"
    and "\<And>a. extra \<noteq> [] \<Longrightarrow> from_addr hs4 = Inr a \<Longrightarrow> casefold a = casefold extra \<Longrightarrow>
           length (pm_mime m) \<le> additional_size_limit"
proof -
  obtain hd0 sep body where p: "partition_at crlf2 raw = (hd0, sep, body)"
    by (cases "partition_at crlf2 raw") auto
  obtain hs0 de where h: "el_parse lib (hd0 @ crlf2) = (hs0, de)"
    by (cases "el_parse lib (hd0 @ crlf2)") auto
  note a = assms [unfolded prepare_message_def Let_def p prod.case h]
  have g: "int (length raw) \<le> smtp_max_message_bytes (cfg_smtp cfg)" "sep"
    "int (length hd0) \<le> smtp_max_header_bytes (cfg_smtp cfg)" "\<not> bare_newline hd0" "\<not> de"
    using a by (auto split: if_splits)
  with a show ?thesis
    by (auto simp: bind_res_Inr p h split: if_splits prod.splits
        intro!: that [of hd0 body hs0])
qed

subsection \<open>Resent headers\<close>

lemma resent_step_other:
  assumes "resent_step lib n hs = Inr hs'" and "\<not> same_name m n"
    and "\<not> same_name m (''Resent-'' @ n)"
  shows "get_all m hs' = get_all m hs"
  using assms add_headers_other [of lib n _ _ hs' m]
  by (auto simp: resent_step_def Let_def split: if_splits)

lemma resent_step_single:
  assumes "casefold n \<in> set single_headers"
    and "length (get_all (''Resent-'' @ n) hs) > 1"
  shows "isl (resent_step lib n hs)"
proof (rule ccontr)
  assume "\<not> isl (resent_step lib n hs)"
  then obtain hs' where "resent_step lib n hs = Inr hs'" by (cases "resent_step lib n hs") auto
  moreover have "get_all (''Resent-'' @ n) hs \<noteq> []"
    using assms(2) by (cases "get_all (''Resent-'' @ n) hs") auto
  ultimately have "add_headers lib n (map hv_str (get_all (''Resent-'' @ n) hs))
      (del_header (''Resent-'' @ n) (del_header n hs)) = Inr hs'"
    by (simp only: resent_step_def Let_def if_False)
  from add_headers_single [OF assms(1) this] assms(2) show False by simp
qed

lemma resent_names_single: "n \<in> set resent_names \<Longrightarrow> casefold n \<in> set single_headers"
proof -
  have "list_all (\<lambda>n. casefold n \<in> set single_headers) resent_names" by code_simp
  then show "n \<in> set resent_names \<Longrightarrow> casefold n \<in> set single_headers"
    by (auto simp: list_all_iff)
qed

lemma resent_names_apart:
  "n \<in> set resent_names \<Longrightarrow> k \<in> set resent_names \<Longrightarrow> n \<noteq> k \<Longrightarrow>
     \<not> same_name (''Resent-'' @ n) k \<and> \<not> same_name (''Resent-'' @ n) (''Resent-'' @ k)"
proof -
  have "list_all (\<lambda>n. list_all (\<lambda>k. n \<noteq> k \<longrightarrow> \<not> same_name (''Resent-'' @ n) k
      \<and> \<not> same_name (''Resent-'' @ n) (''Resent-'' @ k)) resent_names) resent_names" by code_simp
  then show "n \<in> set resent_names \<Longrightarrow> k \<in> set resent_names \<Longrightarrow> n \<noteq> k \<Longrightarrow>
     \<not> same_name (''Resent-'' @ n) k \<and> \<not> same_name (''Resent-'' @ n) (''Resent-'' @ k)"
    unfolding list_all_iff by blast
qed

lemma apply_resent_single:
  assumes "apply_resent lib ns hs = Inr hs'" and "n \<in> set ns" and "set ns \<subseteq> set resent_names"
  shows "length (get_all (''Resent-'' @ n) hs) \<le> 1"
  using assms
proof (induction ns arbitrary: hs)
  case (Cons k ns)
  obtain hs1 where 1: "resent_step lib k hs = Inr hs1" "apply_resent lib ns hs1 = Inr hs'"
    using Cons.prems(1) by (auto simp: bind_res_Inr)
  show ?case
  proof (cases "n = k")
    case True
    show ?thesis
      using resent_step_single [of n hs lib] resent_names_single [of n] 1(1) True Cons.prems(3)
      by (fastforce simp: not_less)
  next
    case False
    then have "n \<in> set ns" using Cons.prems(2) by simp
    moreover have "get_all (''Resent-'' @ n) hs1 = get_all (''Resent-'' @ n) hs"
      using resent_step_other [OF 1(1)] resent_names_apart [of n k] False Cons.prems(2,3) by auto
    ultimately show ?thesis using Cons.IH [OF 1(2)] Cons.prems(3) by simp
  qed
qed simp

subsection \<open>The sender and the recipients of an accepted message\<close>

text \<open>What the policy asks of the one From header of an accepted message.\<close>

definition sender_ok :: "email_lib \<Rightarrow> config \<Rightarrow> string \<Rightarrow> bool \<Rightarrow> hval \<Rightarrow> bool" where
  "sender_ok lib cfg extra natted v =
     (if natted then sender_of cfg \<noteq> [] \<and> el_store lib ''From'' (sender_of cfg) = Some v
      else (case hv_addrs v of
              [a] \<Rightarrow> (case mailbox lib a False of
                        Inr b \<Rightarrow> casefold b \<in> set (allowed_senders cfg extra)
                      | Inl e \<Rightarrow> False)
            | as \<Rightarrow> False))"

lemma get_first_single:
  "get_first n hs = Some v \<Longrightarrow> length (get_all n hs) \<le> 1 \<Longrightarrow> get_all n hs = [v]"
  by (auto simp: get_first_def split: list.splits)

lemma resolve_sender_From:
  assumes "resolve_sender lib cfg extra hs = Inr (hs', orig, natted)"
    and "length (get_all ''From'' hs) \<le> 1"
  shows "\<exists>v. get_all ''From'' hs' = [v] \<and> sender_ok lib cfg extra natted v"
proof -
  obtain h where h: "get_first ''From'' hs = Some h"
    using assms(1) by (auto simp: resolve_sender_def split: option.splits)
  note one = get_first_single [OF h assms(2)]
  show ?thesis
  proof (cases "is_infix (acc_nat_marker (cfg_account cfg)) (hv_str h)")
    case True
    then obtain hs1 t where
      1: "add_header lib ''Subject'' t (del_header ''Subject'' hs) = Inr hs1"
      and 2: "replace_header lib ''From'' (sender_of cfg) hs1 = Inr hs'"
      and 3: "natted" "sender_of cfg \<noteq> []"
      using assms(1) h by (auto simp: resolve_sender_def Let_def bind_res_Inr split: if_splits)
    have "get_all ''From'' hs1 = [h]" using add_header_other [OF 1, of "''From''"] one by simp
    then show ?thesis using 2 3
      by (auto simp: replace_header_def sender_ok_def get_all_replace_same split: option.splits)
  next
    case False
    obtain a where "mailbox lib (hd (hv_addrs h)) False = Inr a"
      "casefold a \<in> set (allowed_senders cfg extra)" "hs' = hs" "\<not> natted" "length (hv_addrs h) = 1"
      using assms(1) h False
      by (auto simp: resolve_sender_def Let_def bind_res_Inr split: if_splits)
    then show ?thesis using one by (cases "hv_addrs h") (auto simp: sender_ok_def)
  qed
qed

lemma resolve_recipients_Inr:
  assumes "resolve_recipients lib cfg rcpts hs = Inr (hs', eff)"
  obtains ms visible where "map_res (\<lambda>r. mailbox lib r False) rcpts = Inr ms"
    and "collect_visible lib visible_names hs [] = Inr visible"
    and "eff = map snd (fold book_add (fromkeys ms) visible)"
    and "acc_recipient_policy (cfg_account cfg) = ''envelope_strict'' \<Longrightarrow>
           set (map fst visible) \<subseteq> casefold ` set ms"
    and "int (length eff) \<le> smtp_max_recipients (cfg_smtp cfg)" and "ms \<noteq> []"
    and "acc_allowed_recipient_domains (cfg_account cfg) \<noteq> [] \<Longrightarrow>
      outside_domains (map casefold (acc_allowed_recipient_domains (cfg_account cfg)))
         (map casefold eff) = Inr False"
    and "\<exists>missing. add_missing lib missing hs = Inr hs'"
proof -
  obtain ms where ms: "map_res (\<lambda>r. mailbox lib r False) rcpts = Inr ms"
    using assms by (auto simp: resolve_recipients_def bind_res_Inr)
  note a = assms [unfolded resolve_recipients_def ms bind_res_simps Let_def fromkeys_eq_Nil set_fromkeys]
  have ne: "ms \<noteq> []" using a by (auto split: if_splits)
  obtain visible where v: "collect_visible lib visible_names hs [] = Inr visible"
    using a ne by (auto simp: bind_res_Inr)
  note b = a [unfolded v bind_res_simps]
  have strict: "acc_recipient_policy (cfg_account cfg) = ''envelope_strict'' \<longrightarrow>
           set (map fst visible) \<subseteq> casefold ` set ms"
    using b ne by (auto split: if_splits)
  obtain hs1 where hs1: "add_missing lib
      (filter (\<lambda>r. casefold r \<notin> set (map fst visible)) (fromkeys ms)) hs = Inr hs1"
    using b ne strict by (auto simp: bind_res_Inr split: if_splits)
  note c = b [unfolded hs1 bind_res_simps]
  have eff: "eff = map snd (fold book_add (fromkeys ms) visible)" and hs': "hs' = hs1"
    and few: "int (length (fold book_add (fromkeys ms) visible)) \<le> smtp_max_recipients (cfg_smtp cfg)"
    and dom: "acc_allowed_recipient_domains (cfg_account cfg) \<noteq> [] \<longrightarrow>
      outside_domains (map casefold (acc_allowed_recipient_domains (cfg_account cfg)))
         (map fst (fold book_add (fromkeys ms) visible)) = Inr False"
    using c ne strict by (auto simp: bind_res_Inr split: if_splits)
  have "map fst (fold book_add (fromkeys ms) visible) = map casefold eff"
    using book_ok_map [OF fold_book_ok [OF collect_visible_ok [OF v book_ok_Nil]]] eff by simp
  with ms ne v strict hs1 eff hs' few dom show ?thesis by (intro that [of ms visible]) auto
qed

text \<open>The header block of an accepted message.\<close>

lemma prepared_headers:
  assumes "prepare_message lib raw rcpts env q cfg extra = Inr m"
  shows "\<exists>hs v. pm_mime m = encode_message lib hs (snd (snd (partition_at crlf2 raw)))
     \<and> get_all ''From'' hs = [v] \<and> sender_ok lib cfg extra (pm_nat m) v
     \<and> get_all ''Message-ID'' hs \<noteq> [] \<and> list_all (\<lambda>n. get_all n hs = []) stale_names
     \<and> (extra \<noteq> [] \<and> hv_addrs v \<noteq> [] \<and> casefold (hd (hv_addrs v)) = casefold extra
          \<longrightarrow> length (pm_mime m) \<le> additional_size_limit)"
  using assms
proof (rule prepare_InrE)
  fix hd0 body hs0 hs1 hs2 orig natted hs3 effective hs4
  assume p: "partition_at crlf2 raw = (hd0, True, body)"
    and c: "check_duplicates [''From'', ''Subject'', ''Sender'', ''Message-ID''] hs1 = Inr ()"
    and s: "resolve_sender lib cfg extra hs1 = Inr (hs2, orig, natted)"
    and r: "resolve_recipients lib cfg rcpts hs2 = Inr (hs3, effective)"
    and f: "finish_headers lib cfg q hs3 = Inr hs4"
    and m: "pm_mime m = encode_message lib hs4 body" "pm_nat m = natted"
    and l: "\<And>a. extra \<noteq> [] \<Longrightarrow> from_addr hs4 = Inr a \<Longrightarrow> casefold a = casefold extra \<Longrightarrow>
           length (pm_mime m) \<le> additional_size_limit"
  have "length (get_all ''From'' hs1) \<le> 1" using c [unfolded check_duplicates_Inr] by simp
  from resolve_sender_From [OF s this] obtain v where
    v: "get_all ''From'' hs2 = [v]" "sender_ok lib cfg extra natted v" by blast
  have "get_all ''From'' hs3 = [v]"
    using r by (rule resolve_recipients_Inr) (use v(1) add_missing_other in auto)
  then have v4: "get_all ''From'' hs4 = [v]" using finish_headers_get(1) [OF f] by simp
  then have "from_addr hs4 = first_addr v" by (simp add: from_addr_def get_first_def)
  then have "extra \<noteq> [] \<and> hv_addrs v \<noteq> [] \<and> casefold (hd (hv_addrs v)) = casefold extra
          \<longrightarrow> length (pm_mime m) \<le> additional_size_limit"
    using l by (cases "hv_addrs v") (auto simp: first_addr_def)
  then show ?thesis
    using finish_headers_get(2,3) [OF f] v4 v(2) m p by (auto simp: list_all_iff)
qed

end
