(* ===== verification/Gw_Message_Policy.thy ===== *)
theory Gw_Message_Policy
  imports Gw_Message_Props
begin

text \<open>
  The guarantees of \<open>prepare_message\<close> (\<open>message.py\<close>) for a message it accepts: its sender, its
  recipients, its body octets and its sizes, and the headers it always refuses.
\<close>

section \<open>A small email library\<close>

text \<open>One instance of the library parameter, for headers of one line each without quoting.\<close>

fun plain_lines :: "string \<Rightarrow> string \<Rightarrow> string list" where
  "plain_lines acc [] = (if acc = [] then [] else [rev acc])"
| "plain_lines acc (c # cs) =
     (if c = LF then rev acc # plain_lines [] cs
      else if c = CR then plain_lines acc cs else plain_lines (c # acc) cs)"

fun plain_items :: "string \<Rightarrow> string \<Rightarrow> string list" where
  "plain_items acc [] = [strip (rev acc)]"
| "plain_items acc (c # cs) =
     (if c = CHR '','' then strip (rev acc) # plain_items [] cs else plain_items (c # acc) cs)"

definition plain_val :: "string \<Rightarrow> hval" where
  "plain_val t = \<lparr>hv_str = t, hv_defects = False, hv_addrs = plain_items [] t\<rparr>"

definition plain_header :: "string \<Rightarrow> string \<times> hval" where
  "plain_header l = (let (k, f, v) = partition_at '': '' l in (k, plain_val v))"

definition plain_lib :: email_lib where
  "plain_lib = \<lparr>
     el_parse = (\<lambda>b. (map plain_header (filter (\<lambda>l. l \<noteq> []) (plain_lines [] b)), False)),
     el_store = (\<lambda>n t. if CR \<in> set t \<or> LF \<in> set t then None else Some (plain_val t)),
     el_serialize = (\<lambda>hs. concat (map (\<lambda>(k, v). k @ '': '' @ hv_str v @ [CR, LF]) hs) @ [CR, LF]),
     el_addr_spec = (\<lambda>a. case rsplit_at a of None \<Rightarrow> None
        | Some d \<Rightarrow> Some (take (length a - length d - 1) a, d, a)),
     el_formatdate = ''Thu, 01 Jan 1970 00:00:00 GMT''\<rparr>"

definition policy_cfg :: config where
  "policy_cfg = default_config\<lparr>cfg_account := default_account\<lparr>acc_sender := ''gw@x.y'',
     acc_recipient_policy := ''envelope_strict'',
     acc_allowed_recipient_domains := [''B.c'']\<rparr>\<rparr>"

definition sample_raw :: bytes where
  "sample_raw = ''From: GW@x.y'' @ [CR, LF] @ ''To: a@b.c, A@b.c'' @ [CR, LF] @ [CR, LF] @ ''hi''"

definition sample :: prepared_message where
  "sample = projr (prepare_message plain_lib sample_raw [''a@b.c'', ''d@b.c''] [] ''q1'' policy_cfg [])"

lemma sample_eq:
  "prepare_message plain_lib sample_raw [''a@b.c'', ''d@b.c''] [] ''q1'' policy_cfg [] = Inr sample"
  unfolding sample_def by code_simp

definition body_of :: "bytes \<Rightarrow> bytes" where
  "body_of b = snd (snd (partition_at crlf2 b))"

section \<open>The sender\<close>

text \<open>
  C10: An accepted message is sent from a permitted mailbox.  The header block of the queued
  octets has exactly one From header: after NAT rewriting it is the configured mailbox, otherwise
  its single address is, up to case, the configured mailbox or the connected additional sender.
  The Resent headers were resolved before that check, so they cannot bring in another sender,
  and no stale authentication result or signature header is left.
\<close>

theorem sender_policy:
  assumes "prepare_message lib raw rcpts env q cfg extra = Inr m"
  shows "\<exists>hs v. pm_mime m = encode_message lib hs (body_of raw) \<and> get_all ''From'' hs = [v]
     \<and> sender_ok lib cfg extra (pm_nat m) v \<and> get_all ''Message-ID'' hs \<noteq> []
     \<and> list_all (\<lambda>n. get_all n hs = []) stale_names"
  unfolding body_of_def using prepared_headers [OF assms] by blast

theorem sender_policy_witness:
  "\<exists>hs v. pm_mime sample = encode_message plain_lib hs (body_of sample_raw) \<and>
     get_all ''From'' hs = [v] \<and> sender_ok plain_lib policy_cfg [] False v"
proof -
  have "pm_nat sample = False" unfolding sample_def by code_simp
  then show ?thesis using sender_policy [OF sample_eq] by auto
qed

section \<open>The recipients\<close>

text \<open>
  C11: The effective recipients of an accepted message.  Every RCPT address was a valid mailbox
  and is a recipient; no address occurs twice up to case; there are between one and
  \<open>max_recipients\<close> of them; with a domain list, each address is in a listed domain; and with the
  strict policy the recipients are, up to case, exactly the RCPT addresses, so that headers add
  nobody.
\<close>

theorem recipient_policy:
  assumes "prepare_message lib raw rcpts env q cfg extra = Inr m"
  shows "\<exists>ms. map_res (\<lambda>r. mailbox lib r False) rcpts = Inr ms
     \<and> casefold ` set ms \<subseteq> casefold ` set (pm_recipients m)
     \<and> distinct (map casefold (pm_recipients m)) \<and> pm_recipients m \<noteq> []
     \<and> int (length (pm_recipients m)) \<le> smtp_max_recipients (cfg_smtp cfg)
     \<and> (acc_recipient_policy (cfg_account cfg) = ''envelope_strict'' \<longrightarrow>
          casefold ` set (pm_recipients m) = casefold ` set ms)
     \<and> (acc_allowed_recipient_domains (cfg_account cfg) \<noteq> [] \<longrightarrow>
          list_all (\<lambda>r. \<exists>d. rsplit_at (casefold r) = Some d \<and>
             casefold d \<in> casefold ` set (acc_allowed_recipient_domains (cfg_account cfg)))
            (pm_recipients m))"
  using assms
proof (rule prepare_InrE)
  fix hs2 hs3 effective
  assume r: "resolve_recipients lib cfg rcpts hs2 = Inr (hs3, effective)"
    and m: "pm_recipients m = effective"
  from r show ?thesis
  proof (rule resolve_recipients_Inr)
    fix ms visible
    assume e: "effective = map snd (fold book_add (fromkeys ms) visible)"
      and v: "collect_visible lib visible_names hs2 [] = Inr visible"
      and ms: "map_res (\<lambda>r. mailbox lib r False) rcpts = Inr ms" "ms \<noteq> []"
      and strict: "acc_recipient_policy (cfg_account cfg) = ''envelope_strict'' \<Longrightarrow>
           set (map fst visible) \<subseteq> casefold ` set ms"
      and few: "int (length effective) \<le> smtp_max_recipients (cfg_smtp cfg)"
      and dom: "acc_allowed_recipient_domains (cfg_account cfg) \<noteq> [] \<Longrightarrow>
        outside_domains (map casefold (acc_allowed_recipient_domains (cfg_account cfg)))
         (map casefold effective) = Inr False"
    have ok: "book_ok (fold book_add (fromkeys ms) visible)"
      by (rule fold_book_ok [OF collect_visible_ok [OF v book_ok_Nil]])
    have keys: "map casefold effective = map fst (fold book_add (fromkeys ms) visible)"
      using book_ok_map [OF ok] e by simp
    have set: "casefold ` set effective = casefold ` set ms \<union> set (map fst visible)"
      using fold_book_keys [of "fromkeys ms" visible] keys by (metis set_fromkeys set_map)
    then have "effective \<noteq> []" using ms(2) by auto
    moreover have "distinct (map casefold effective)" using ok keys by (simp add: book_ok_def)
    moreover have "list_all (\<lambda>r. \<exists>d. rsplit_at (casefold r) = Some d \<and>
             casefold d \<in> casefold ` set (acc_allowed_recipient_domains (cfg_account cfg))) effective"
      if "acc_allowed_recipient_domains (cfg_account cfg) \<noteq> []"
      using outside_domains_False [OF dom [OF that]] by (fastforce simp: list_all_iff)
    ultimately show ?thesis using ms set strict few m by (intro exI [of _ ms]) auto
  qed
qed

theorem recipient_policy_witness:
  "casefold ` set (pm_recipients sample) = {''a@b.c'', ''d@b.c''}
     \<and> distinct (map casefold (pm_recipients sample))"
proof -
  have "acc_recipient_policy (cfg_account policy_cfg) = ''envelope_strict''" by code_simp
  moreover have "map_res (\<lambda>r. mailbox plain_lib r False) [''a@b.c'', ''d@b.c''] =
      Inr [''a@b.c'', ''d@b.c'']" by code_simp
  moreover have "casefold ''a@b.c'' = ''a@b.c''" "casefold ''d@b.c'' = ''d@b.c''" by code_simp+
  ultimately show ?thesis using recipient_policy [OF sample_eq] by auto
qed

section \<open>Body and sizes\<close>

lemma plain_lib_blank_line:
  assumes "hs \<noteq> []"
  shows "is_infix crlf2 (el_serialize plain_lib hs)"
proof -
  obtain xs k v where "hs = xs @ [(k, v)]" using assms by (metis append_butlast_last_id surj_pair)
  then show ?thesis by (simp add: plain_lib_def crlf2_def)
qed

lemma prepared_body:
  assumes "prepare_message lib raw rcpts env q cfg extra = Inr m"
    and "\<And>hs. hs \<noteq> [] \<Longrightarrow> is_infix crlf2 (el_serialize lib hs)"
  shows "body_of (pm_mime m) = body_of raw"
  using assms(1)
proof (rule prepare_InrE)
  fix hd0 body hs3 hs4
  assume p: "partition_at crlf2 raw = (hd0, True, body)"
    and m: "pm_mime m = encode_message lib hs4 body"
    and f: "finish_headers lib cfg q hs3 = Inr hs4"
  have "hs4 \<noteq> []" using finish_headers_get(3) [OF f] by auto
  then obtain h u where h: "partition_at crlf2 (el_serialize lib hs4) = (h, True, u)"
    using assms(2) [of hs4] partition_infix by blast
  then have "partition_at crlf2 (pm_mime m) = (h, True, body)"
    using partition_again [OF h] m by (simp add: encode_message_def head_of_def crlf2_def)
  then show ?thesis using p by (simp add: body_of_def)
qed

text \<open>
  C12: The body is never touched.  Given that the library writes a blank line after the headers,
  cutting the queued octets at their first blank line gives back the octets the client sent after
  its first blank line.
\<close>

theorem body_preserved:
  assumes "prepare_message lib raw rcpts env q cfg extra = Inr m"
    and "\<And>hs. hs \<noteq> [] \<Longrightarrow> is_infix crlf2 (el_serialize lib hs)"
  shows "body_of (pm_mime m) = body_of raw"
  using assms by (rule prepared_body)

theorem body_preserved_witness: "body_of (pm_mime sample) = ''hi''"
proof -
  have "body_of (pm_mime sample) = body_of sample_raw"
    by (rule body_preserved [OF sample_eq]) (rule plain_lib_blank_line)
  then show ?thesis
    by (simp add: body_of_def sample_raw_def crlf2_def)
qed

text \<open>
   Size limits of an accepted message.  Neither what was received nor what is queued exceeds
  \<open>max_message_bytes\<close>, and a message whose effective From is the additional sender stays within
  the 2,500,000 octets its send API takes.
\<close>

theorem message_sizes:
  assumes "prepare_message lib raw rcpts env q cfg extra = Inr m"
  shows "int (length raw) \<le> smtp_max_message_bytes (cfg_smtp cfg)
     \<and> int (length (pm_mime m)) \<le> smtp_max_message_bytes (cfg_smtp cfg)
     \<and> (\<exists>hs v. pm_mime m = encode_message lib hs (body_of raw) \<and> get_all ''From'' hs = [v]
          \<and> (extra \<noteq> [] \<and> hv_addrs v \<noteq> [] \<and> casefold (hd (hv_addrs v)) = casefold extra
               \<longrightarrow> length (pm_mime m) \<le> 2500000))"
proof -
  have "int (length raw) \<le> smtp_max_message_bytes (cfg_smtp cfg)
      \<and> int (length (pm_mime m)) \<le> smtp_max_message_bytes (cfg_smtp cfg)"
    using assms by (rule prepare_InrE) simp
  then show ?thesis
    using prepared_headers [OF assms] unfolding body_of_def additional_size_limit_def by blast
qed

theorem message_sizes_witness:
  "int (length sample_raw) \<le> smtp_max_message_bytes (cfg_smtp policy_cfg)
     \<and> int (length (pm_mime sample)) \<le> smtp_max_message_bytes (cfg_smtp policy_cfg)"
  using message_sizes [OF sample_eq] by simp

section \<open>Resent headers\<close>

text \<open>
   A message with two Resent headers of one name is never accepted.  For From, To, Cc, Bcc and
  Message-ID the code copies every \<open>Resent-\<close> value into the plain header, but the library admits
  each of these headers once, so the second copy raises.
\<close>

theorem resent_twice_refused:
  assumes "n \<in> set resent_names"
    and "partition_at crlf2 raw = (hd0, True, body)"
    and "length (get_all (''Resent-'' @ n) (fst (el_parse lib (hd0 @ crlf2)))) > 1"
  shows "isl (prepare_message lib raw rcpts env q cfg extra)"
proof (rule ccontr)
  assume "\<not> isl (prepare_message lib raw rcpts env q cfg extra)"
  then obtain m where "prepare_message lib raw rcpts env q cfg extra = Inr m"
    by (cases "prepare_message lib raw rcpts env q cfg extra") auto
  then show False
  proof (rule prepare_InrE)
    fix hd1 body1 hs0 hs1
    assume "partition_at crlf2 raw = (hd1, True, body1)" "el_parse lib (hd1 @ crlf2) = (hs0, False)"
      "apply_resent lib resent_names hs0 = Inr hs1"
    then show False using apply_resent_single [of lib resent_names hs0 hs1 n] assms by simp
  qed
qed

definition resent_raw :: bytes where
  "resent_raw = ''From: gw@x.y'' @ [CR, LF] @ ''To: a@b.c'' @ [CR, LF] @ ''Resent-To: a@b.c'' @ [CR, LF]
     @ ''Resent-To: d@b.c'' @ [CR, LF] @ [CR, LF]"

theorem resent_twice_refused_witness:
  "isl (prepare_message plain_lib resent_raw [''a@b.c''] [] ''q1'' policy_cfg [])"
proof (rule resent_twice_refused [of "''To''"])
  show "''To'' \<in> set resent_names" by (simp add: resent_names_def)
  show "partition_at crlf2 resent_raw = (fst (partition_at crlf2 resent_raw), True, [])"
    by code_simp
  show "1 < length (get_all (''Resent-'' @ ''To'')
      (fst (el_parse plain_lib (fst (partition_at crlf2 resent_raw) @ crlf2))))"
    by code_simp
qed

end
