(* ===== verification/Gw_Store.thy ===== *)
theory Gw_Store
  imports Gw_Message
begin

text \<open>
  \<open>store.py\<close>, the database side: the tables of \<open>queue.sqlite3\<close> and the synchronous functions
  that run as one executor job and one SQLite transaction each (\<open>_open\<close>, \<open>_insert_batch\<close>,
  \<open>_claim\<close>, \<open>_finish\<close>, \<open>_action\<close>, \<open>set_setting\<close>, \<open>housekeeping\<close>; the readers are in
  \<open>Gw_Store_Reads\<close>).  An operation that raises is \<open>Inl\<close>: \<open>with self.db\<close> rolls the
  transaction back, so the caller keeps the old database.  \<open>now\<close> is the clock reading of the
  job (\<open>time.time()\<close>, a finite number); one reading serves the whole job.
\<close>

section \<open>Tables\<close>

datatype mstatus = Queued | Sending | Submitted | Retry | Failed | UncertainSt | Cancelled

text \<open>One row of \<open>messages\<close>.  The list of rows is in \<open>rowid\<close> order, which is insertion order.\<close>

record row =
  m_id :: string
  created :: rat
  cycle_started :: rat
  updated :: rat
  status :: mstatus
  next_attempt :: pyfloat
  attempts :: nat
  envelope_sender :: string
  original_from :: string
  recipients :: "string list"
  recipient_count :: nat
  subject :: string
  message_id :: string
  nat_flag :: bool
  size :: nat
  mime :: "bytes option"
  error :: string

datatype qstate = Reserved | Counted

record qrow =
  q_message :: string
  q_mailbox :: string
  q_at :: rat
  q_recipients :: nat
  q_state :: qstate

text \<open>
  A settings value is text: either a word, or the text of a float, written with \<open>str(x)\<close> and
  read back with \<open>float(...)\<close>, which returns the same float.
\<close>

datatype sval = SText string | SFloat pyfloat

record db =
  messages :: "row list"
  settings :: "(string \<times> sval) list"
  counters :: "(string \<times> int) list"
  buckets :: "((int \<times> string) \<times> int) list"
  quota :: "qrow list"

definition empty_db :: db where
  "empty_db = \<lparr>messages = [], settings = [], counters = [], buckets = [], quota = []\<rparr>"

section \<open>Row access\<close>

definition find_row :: "string \<Rightarrow> row list \<Rightarrow> row option" where
  "find_row i rs = find (\<lambda>r. m_id r = i) rs"

text \<open>\<open>UPDATE messages SET ... WHERE id=?\<close>\<close>

definition upd_row :: "string \<Rightarrow> (row \<Rightarrow> row) \<Rightarrow> row list \<Rightarrow> row list" where
  "upd_row i f rs = map (\<lambda>r. if m_id r = i then f r else r) rs"

definition retained :: "row \<Rightarrow> bool" where
  "retained r = (mime r \<noteq> None)"

section \<open>Settings and counters\<close>

text \<open>\<open>float(self._setting(key, "0"))\<close>: the default text reads as zero; a word is a \<open>ValueError\<close>.\<close>

definition float_setting :: "string \<Rightarrow> db \<Rightarrow> pyfloat res" where
  "float_setting key d =
     (case tab_get (SFloat (Fin 0)) key (settings d) of
        SFloat x \<Rightarrow> Inr x | SText t \<Rightarrow> Inl (ValueError ''could not convert string to float''))"

definition minute_of :: "rat \<Rightarrow> int" where
  "minute_of now = \<lfloor>now\<rfloor> div 60 * 60"

definition count :: "rat \<Rightarrow> string \<Rightarrow> int \<Rightarrow> bool \<Rightarrow> db \<Rightarrow> db" where
  "count now key v bucket d =
     d\<lparr>counters := tab_add key v (counters d),
       buckets := (if bucket then tab_add (minute_of now, key) v (buckets d) else buckets d)\<rparr>"

definition set_db :: "string \<Rightarrow> sval \<Rightarrow> db \<Rightarrow> db" where
  "set_db key v d = d\<lparr>settings := tab_set key v (settings d)\<rparr>"

abbreviation counter_of :: "db \<Rightarrow> string \<Rightarrow> int" where
  "counter_of d key \<equiv> tab_get 0 key (counters d)"

section \<open>\<open>_open\<close>\<close>

text \<open>
  Opening at start-up: the configured mailbox must be the stored one unless nothing is
  retained, the retained counters are recomputed, and the attempts a stopped process left in
  flight become \<open>uncertain\<close> and count against the quota.
\<close>

definition retained_size :: "row list \<Rightarrow> int" where
  "retained_size rs = sum_list (map (\<lambda>r. int (size r)) (filter retained rs))"

definition retained_count :: "row list \<Rightarrow> int" where
  "retained_count rs = int (length (filter retained rs))"

definition recover_row :: "rat \<Rightarrow> row \<Rightarrow> row" where
  "recover_row now r =
     (if status r = Sending
      then r\<lparr>status := UncertainSt,
             error := ''Process stopped during an upstream attempt; review before retry'',
             updated := now\<rparr>
      else r)"

definition recover_quota :: "qrow \<Rightarrow> qrow" where
  "recover_quota q = (if q_state q = Reserved then q\<lparr>q_state := Counted\<rparr> else q)"

definition open_db :: "config \<Rightarrow> int \<Rightarrow> rat \<Rightarrow> db \<Rightarrow> db res" where
  "open_db cfg version now d =
     (if version \<notin> {0, 1} then Inl (ValueError ''Unsupported queue database schema'') else
      let cnt = retained_count (messages d); sz = retained_size (messages d);
          previous = tab_get (SText []) ''sender'' (settings d)
      in if previous \<noteq> SText [] \<and> previous \<noteq> SText (quota_mailbox cfg) \<and> cnt \<noteq> 0
         then Inl (ValueError ''Cannot change sending mailbox while retained/unsent messages exist'')
         else
           let d1 = set_db ''sender'' (SText (quota_mailbox cfg)) d;
               d2 = d1\<lparr>counters := tab_set ''retained_bytes'' sz
                          (tab_set ''retained_messages'' cnt (counters d1))\<rparr>;
               recovered = length (filter (\<lambda>r. status r = Sending) (messages d2));
               d3 = d2\<lparr>messages := map (recover_row now) (messages d2),
                       quota := map recover_quota (quota d2)\<rparr>
           in Inr (if recovered > 0 then count now ''uncertain'' (int recovered) True d3 else d3))"

section \<open>\<open>_insert_batch\<close>\<close>

definition new_row :: "rat \<Rightarrow> prepared_message \<Rightarrow> row" where
  "new_row now m = \<lparr>
     m_id = pm_id m, created = now, cycle_started = now, updated = now, status = Queued,
     next_attempt = Fin now, attempts = 0, envelope_sender = pm_envelope_sender m,
     original_from = pm_original_from m, recipients = pm_recipients m,
     recipient_count = length (pm_recipients m), subject = take 2000 (pm_subject m),
     message_id = take 1000 (pm_message_id m), nat_flag = pm_nat m, size = length (pm_mime m),
     mime = Some (pm_mime m), error = []\<rparr>"

text \<open>The admission loop: running totals of retained messages and octets.\<close>

fun admit :: "queue_config \<Rightarrow> int \<Rightarrow> int \<Rightarrow> prepared_message list
    \<Rightarrow> bool list \<times> prepared_message list" where
  "admit q kept bytes [] = ([], [])"
| "admit q kept bytes (m # ms) =
     (if kept \<ge> q_max_messages q \<or> bytes + int (length (pm_mime m)) > q_max_bytes q
      then (let (rs, as) = admit q kept bytes ms in (False # rs, as))
      else (let (rs, as) = admit q (kept + 1) (bytes + int (length (pm_mime m))) ms
            in (True # rs, m # as)))"

definition total_mime :: "prepared_message list \<Rightarrow> int" where
  "total_mime ms = sum_list (map (\<lambda>m. int (length (pm_mime m))) ms)"

text \<open>The result per message: \<open>None\<close> for \<open>True\<close>, \<open>Some text\<close> for a refusal.\<close>

type_synonym verdict = "string option"

definition verdict_of :: "bool \<Rightarrow> verdict" where
  "verdict_of ok = (if ok then None else Some ''Durable queue capacity exceeded'')"

definition insert_rows :: "rat \<Rightarrow> prepared_message list \<Rightarrow> db \<Rightarrow> db res" where
  "insert_rows now ms d =
     (if distinct (map pm_id ms) \<and> set (map pm_id ms) \<inter> set (map m_id (messages d)) = {}
      then Inr (d\<lparr>messages := messages d @ map (new_row now) ms\<rparr>)
      else Inl IntegrityError)"

definition account_batch :: "rat \<Rightarrow> prepared_message list \<Rightarrow> db \<Rightarrow> db" where
  "account_batch now ms d =
     (if ms = [] then d
      else count now ''retained_bytes'' (total_mime ms) False
          (count now ''retained_messages'' (int (length ms)) False
          (count now ''nat'' (int (length (filter pm_nat ms))) True
          (count now ''accepted'' (int (length ms)) True d))))"

definition insert_batch ::
  "config \<Rightarrow> bool \<Rightarrow> int \<Rightarrow> rat \<Rightarrow> prepared_message list \<Rightarrow> db \<Rightarrow> (db \<times> verdict list) res" where
  "insert_batch cfg healthy free now batch d =
     (if \<not> healthy then Inr (d, map (\<lambda>_. Some ''Queue needs operator attention'') batch)
      else if free < q_min_free_bytes (cfg_queue cfg) + total_mime batch * 2
      then Inr (d, map (\<lambda>_. Some ''Insufficient free disk space'') batch)
      else
        let (oks, accepted) = admit (cfg_queue cfg) (counter_of d ''retained_messages'')
                                (counter_of d ''retained_bytes'') batch
        in bind_res (insert_rows now accepted d)
             (\<lambda>d1. Inr (account_batch now accepted d1, map verdict_of oks)))"

section \<open>\<open>_claim\<close>\<close>

definition ready :: "mstatus \<Rightarrow> rat \<Rightarrow> row \<Rightarrow> bool" where
  "ready st now r = (status r = st \<and> py_le (next_attempt r) (Fin now))"

definition ready_key :: "row \<Rightarrow> pyfloat \<times> rat" where
  "ready_key r = (next_attempt r, created r)"

text \<open>\<open>SELECT ... WHERE status=? AND next_attempt<=? ORDER BY next_attempt,created LIMIT 1\<close>\<close>

definition first_ready :: "mstatus \<Rightarrow> rat \<Rightarrow> row list \<Rightarrow> row option" where
  "first_ready st now rs =
     (case filter (ready st now) rs of [] \<Rightarrow> None | x # xs \<Rightarrow> Some (arg_min_list ready_key (x # xs)))"

definition candidates :: "rat \<Rightarrow> row list \<Rightarrow> row list" where
  "candidates now rs = List.map_filter (\<lambda>st. first_ready st now rs) [Queued, Retry]"

definition quota_used :: "string \<Rightarrow> rat \<Rightarrow> qrow list \<Rightarrow> int" where
  "quota_used mbox now qs =
     sum_list (map (\<lambda>q. int (q_recipients q))
       (filter (\<lambda>q. q_mailbox q = mbox \<and> q_at q > now - 86400) qs))"

definition too_old :: "config \<Rightarrow> rat \<Rightarrow> row \<Rightarrow> bool" where
  "too_old cfg now r =
     py_lt (py_mul (d_max_age_hours (cfg_delivery cfg)) (Fin 3600)) (Fin (now - cycle_started r))"

definition over_budget :: "config \<Rightarrow> rat \<Rightarrow> row \<Rightarrow> db \<Rightarrow> bool" where
  "over_budget cfg now r d =
     (d_recipient_limit_24h (cfg_delivery cfg) \<noteq> 0 \<and>
      quota_used (quota_mailbox cfg) now (quota d) + int (recipient_count r)
        > d_recipient_limit_24h (cfg_delivery cfg))"

definition expire_row :: "rat \<Rightarrow> row \<Rightarrow> row" where
  "expire_row now r = r\<lparr>status := Failed, error := ''Queue maximum age exceeded'', updated := now\<rparr>"

definition start_row :: "rat \<Rightarrow> row \<Rightarrow> row" where
  "start_row now r = r\<lparr>status := Sending, attempts := attempts r + 1, updated := now\<rparr>"

definition reservation :: "config \<Rightarrow> rat \<Rightarrow> row \<Rightarrow> qrow" where
  "reservation cfg now r = \<lparr>q_message = m_id r, q_mailbox = quota_mailbox cfg, q_at = now,
     q_recipients = recipient_count r, q_state = Reserved\<rparr>"

text \<open>The row a worker gets is the row as it was read, with one attempt more.\<close>

definition claim :: "config \<Rightarrow> rat \<Rightarrow> db \<Rightarrow> (db \<times> row option) res" where
  "claim cfg now d =
     (if tab_get (SText ''false'') ''paused'' (settings d) = SText ''true'' then Inr (d, None)
      else bind_res (float_setting ''cooldown_until'' d) (\<lambda>until.
      if py_lt (Fin now) until then Inr (d, None)
      else case candidates now (messages d) of
          [] \<Rightarrow> Inr (d, None)
        | c # cs \<Rightarrow>
            let r = arg_min_list ready_key (c # cs) in
            if too_old cfg now r
            then Inr (count now ''failed'' 1 True
                        (d\<lparr>messages := upd_row (m_id r) (expire_row now) (messages d)\<rparr>), None)
            else if over_budget cfg now r d then Inr (d, None)
            else Inr (d\<lparr>messages := upd_row (m_id r) (start_row now) (messages d),
                        quota := quota d @ [reservation cfg now r]\<rparr>,
                      Some (r\<lparr>attempts := attempts r + 1\<rparr>))))"

section \<open>\<open>_finish\<close>\<close>

definition finish_row :: "rat \<Rightarrow> mstatus \<Rightarrow> string \<Rightarrow> pyfloat \<Rightarrow> row \<Rightarrow> row" where
  "finish_row now st err delay r =
     (let r1 = r\<lparr>status := st, error := take 500 err, updated := now,
                 next_attempt := py_add (Fin now) delay\<rparr>
      in if st = Submitted then r1\<lparr>mime := None\<rparr> else r1)"

definition release_counters :: "rat \<Rightarrow> row \<Rightarrow> db \<Rightarrow> db" where
  "release_counters now r d =
     count now ''retained_bytes'' (- int (size r)) False
       (count now ''retained_messages'' (-1) False d)"

definition settle_quota :: "string \<Rightarrow> mstatus \<Rightarrow> qrow list \<Rightarrow> qrow list" where
  "settle_quota i st qs =
     (if st \<in> {Submitted, UncertainSt}
      then map (\<lambda>q. if q_message q = i \<and> q_state q = Reserved then q\<lparr>q_state := Counted\<rparr> else q) qs
      else filter (\<lambda>q. \<not> (q_message q = i \<and> q_state q = Reserved)) qs)"

primrec status_name :: "mstatus \<Rightarrow> string" where
  "status_name Queued = ''queued''"
| "status_name Sending = ''sending''"
| "status_name Submitted = ''submitted''"
| "status_name Retry = ''retry''"
| "status_name Failed = ''failed''"
| "status_name UncertainSt = ''uncertain''"
| "status_name Cancelled = ''cancelled''"

definition finish ::
  "rat \<Rightarrow> string \<Rightarrow> mstatus \<Rightarrow> string \<Rightarrow> pyfloat \<Rightarrow> bool \<Rightarrow> db \<Rightarrow> db res" where
  "finish now i st err delay cooldown d =
     (if st \<notin> {Submitted, Retry, Failed, UncertainSt} then Inl (ValueError ''Invalid result state'')
      else case find_row i (messages d) of
          None \<Rightarrow> Inl (RuntimeError ''Attempt is no longer in sending state'')
        | Some r \<Rightarrow>
            if status r \<noteq> Sending then Inl (RuntimeError ''Attempt is no longer in sending state'')
            else if py_add (Fin now) delay = NaN then Inl IntegrityError
            else
              let d1 = d\<lparr>messages := upd_row i (finish_row now st err delay) (messages d)\<rparr>;
                  d2 = (if st = Submitted then release_counters now r d1 else d1);
                  d3 = d2\<lparr>quota := settle_quota i st (quota d2)\<rparr>;
                  d4 = count now (status_name st) 1 True d3
              in if cooldown
                 then bind_res (float_setting ''cooldown_until'' d4) (\<lambda>old.
                        Inr (set_db ''cooldown_until''
                              (SFloat (py_max (py_add (Fin now) delay) old)) d4))
                 else Inr d4)"

section \<open>\<open>_action\<close> and \<open>set_setting\<close>\<close>

definition retry_row :: "rat \<Rightarrow> row \<Rightarrow> row" where
  "retry_row now r = r\<lparr>status := Queued, attempts := 0, cycle_started := now, updated := now,
     next_attempt := Fin now, error := []\<rparr>"

definition cancel_row :: "rat \<Rightarrow> row \<Rightarrow> row" where
  "cancel_row now r = r\<lparr>status := Cancelled, mime := None, updated := now\<rparr>"

definition act :: "rat \<Rightarrow> string \<Rightarrow> string \<Rightarrow> bool \<Rightarrow> db \<Rightarrow> db res" where
  "act now i action acknowledge d =
     (case find_row i (messages d) of
        None \<Rightarrow> Inl (ValueError ''Unknown queue ID'')
      | Some r \<Rightarrow>
          if status r \<in> {Sending, Submitted, Cancelled}
          then Inl (ValueError ''This message cannot be changed in its current state'')
          else if action = ''retry'' then
            (if status r = UncertainSt \<and> \<not> acknowledge
             then Inl (ValueError ''Retrying an uncertain send requires explicit duplicate-risk acknowledgement'')
             else Inr (count now ''manual_retry'' 1 True
                    (d\<lparr>messages := upd_row i (retry_row now) (messages d)\<rparr>)))
          else if action = ''cancel'' then
            Inr (count now ''cancelled'' 1 True (release_counters now r
                    (d\<lparr>messages := upd_row i (cancel_row now) (messages d)\<rparr>)))
          else Inl (ValueError ''Unknown action''))"

definition set_setting :: "string \<Rightarrow> sval \<Rightarrow> db \<Rightarrow> db" where
  "set_setting key v d = set_db key v d"

section \<open>\<open>housekeeping\<close>\<close>

text \<open>
  The sub-select picks at most 10000 of the expired rows, in an order that SQLite chooses; the
  choice \<open>ids\<close> is an argument, and \<open>expired_choice\<close> says which choices the statement allows.
\<close>

definition history_limit :: "config \<Rightarrow> rat \<Rightarrow> rat" where
  "history_limit cfg now = now - of_int (q_history_days (cfg_queue cfg)) * 86400"

definition expired :: "config \<Rightarrow> rat \<Rightarrow> row \<Rightarrow> bool" where
  "expired cfg now r = (status r \<in> {Submitted, Cancelled} \<and> updated r < history_limit cfg now)"

definition expired_choice :: "config \<Rightarrow> rat \<Rightarrow> string list \<Rightarrow> db \<Rightarrow> bool" where
  "expired_choice cfg now ids d =
     (let old = map m_id (filter (expired cfg now) (messages d))
      in distinct ids \<and> set ids \<subseteq> set old \<and> length ids = min 10000 (length old))"

definition housekeeping :: "config \<Rightarrow> rat \<Rightarrow> string list \<Rightarrow> db \<Rightarrow> db" where
  "housekeeping cfg now ids d =
     d\<lparr>messages := filter (\<lambda>r. m_id r \<notin> set ids) (messages d),
       buckets := filter (\<lambda>b. \<not> of_int (fst (fst b)) < history_limit cfg now) (buckets d),
       quota := filter (\<lambda>q. \<not> (q_at q < now - 86400 \<and> q_state q = Counted)) (quota d)\<rparr>"

end
