(* ===== verification/Gw_Store_Inv.thy ===== *)
theory Gw_Store_Inv
  imports Gw_Store
begin

text \<open>
  The well-formedness invariant of the queue database and its preservation by every
  transaction of \<open>Gw_Store\<close>: queue IDs are unique; a row has a body exactly when it is not
  \<open>submitted\<close> or \<open>cancelled\<close>; the two retained counters are the number and the octets of the
  bodies kept; and the quota reservations are exactly the attempts in flight.
\<close>

section \<open>One row of a table with unique keys\<close>

text \<open>
  With unique IDs a lookup splits the table, and an update touches exactly that row.  Every
  preservation proof below is a computation over this split.
\<close>

lemma upd_row_other: "i \<notin> m_id ` set rs \<Longrightarrow> upd_row i f rs = rs"
  by (induction rs) (auto simp: upd_row_def)

lemma find_row_split:
  assumes "find_row i rs = Some r" and "distinct (map m_id rs)"
  obtains xs ys where "rs = xs @ r # ys" "m_id r = i"
    "\<forall>x \<in> set xs. m_id x \<noteq> i" "\<forall>x \<in> set ys. m_id x \<noteq> i"
    "\<And>f. upd_row i f rs = xs @ f r # ys"
proof -
  from assms(1) obtain k where k: "k < length rs" "rs ! k = r" "m_id r = i"
    by (auto simp: find_row_def find_Some_iff)
  then have rs: "rs = take k rs @ r # drop (Suc k) rs" using id_take_nth_drop [of k rs] by simp
  have "distinct (map m_id (take k rs @ r # drop (Suc k) rs))" using assms(2) rs by simp
  then have d: "i \<notin> m_id ` set (take k rs)" "i \<notin> m_id ` set (drop (Suc k) rs)"
    using k(3) by auto
  have "upd_row i f (take k rs @ r # drop (Suc k) rs) = take k rs @ f r # drop (Suc k) rs" for f
    using d k(3) upd_row_other [of i "take k rs" f] upd_row_other [of i "drop (Suc k) rs" f]
    by (simp add: upd_row_def)
  moreover have "\<forall>x \<in> set (take k rs). m_id x \<noteq> i" "\<forall>x \<in> set (drop (Suc k) rs). m_id x \<noteq> i"
    using d by auto
  ultimately show ?thesis using that rs k(3) by metis
qed

lemma find_row_mem:
  "r \<in> set rs \<Longrightarrow> distinct (map m_id rs) \<Longrightarrow> find_row (m_id r) rs = Some r"
  by (induction rs) (auto simp: find_row_def)

lemma find_row_Some_mem: "find_row i rs = Some r \<Longrightarrow> r \<in> set rs \<and> m_id r = i"
  by (auto simp: find_row_def find_Some_iff)

lemma find_row_None: "find_row i rs = None \<longleftrightarrow> i \<notin> m_id ` set rs"
  by (auto simp: find_row_def find_None_iff)

lemma find_row_iff:
  "distinct (map m_id rs) \<Longrightarrow> find_row i rs = Some r \<longleftrightarrow> r \<in> set rs \<and> m_id r = i"
  using find_row_mem find_row_Some_mem by blast

lemma find_upd_row:
  "(\<And>r. m_id (f r) = m_id r) \<Longrightarrow>
     find_row j (upd_row i f rs) = map_option (\<lambda>r. if j = i then f r else r) (find_row j rs)"
  by (induction rs) (auto simp: find_row_def upd_row_def)

lemma map_id_upd_row: "(\<And>r. m_id (f r) = m_id r) \<Longrightarrow> map m_id (upd_row i f rs) = map m_id rs"
  by (auto simp: upd_row_def)

lemma set_upd_row: "set (upd_row i f rs) = (\<lambda>r. if m_id r = i then f r else r) ` set rs"
  by (simp add: upd_row_def)

lemma row_ids [simp]:
  "m_id (expire_row now r) = m_id r" "m_id (start_row now r) = m_id r"
  "m_id (finish_row now st err del r) = m_id r" "m_id (retry_row now r) = m_id r"
  "m_id (cancel_row now r) = m_id r" "m_id (recover_row now r) = m_id r"
  "m_id (new_row now m) = pm_id m"
  by (simp_all add: expire_row_def start_row_def finish_row_def retry_row_def cancel_row_def
      recover_row_def new_row_def Let_def)

lemma row_ids_comp [simp]: "m_id \<circ> new_row now = pm_id" "m_id \<circ> recover_row now = m_id"
  by (simp_all add: fun_eq_iff)

lemma find_map_recover:
  "find_row i (map (recover_row now) rs) = map_option (recover_row now) (find_row i rs)"
  by (induction rs) (auto simp: find_row_def)

lemma find_row_filter_ids:
  "i \<notin> set ids \<Longrightarrow> find_row i (filter (\<lambda>r. m_id r \<notin> set ids) rs) = find_row i rs"
  by (induction rs) (auto simp: find_row_def)

lemma find_row_append:
  "find_row i (xs @ ys) = (case find_row i xs of None \<Rightarrow> find_row i ys | Some r \<Rightarrow> Some r)"
  by (induction xs) (auto simp: find_row_def)

section \<open>The invariant\<close>

definition row_ok :: "row \<Rightarrow> bool" where
  "row_ok r = ((mime r = None) = (status r \<in> {Submitted, Cancelled}) \<and>
     (case mime r of None \<Rightarrow> True | Some b \<Rightarrow> size r = length b))"

definition counters_ok :: "db \<Rightarrow> bool" where
  "counters_ok d =
     (counter_of d ''retained_messages'' = retained_count (messages d) \<and>
      counter_of d ''retained_bytes'' = retained_size (messages d))"

definition reserved :: "db \<Rightarrow> qrow list" where
  "reserved d = filter (\<lambda>q. q_state q = Reserved) (quota d)"

definition quota_ok :: "db \<Rightarrow> bool" where
  "quota_ok d =
     (distinct (map q_message (reserved d)) \<and>
      q_message ` set (reserved d) = m_id ` {r \<in> set (messages d). status r = Sending} \<and>
      (\<forall>q \<in> set (reserved d). \<forall>r \<in> set (messages d).
         m_id r = q_message q \<longrightarrow> q_recipients q = recipient_count r))"

definition store_inv :: "db \<Rightarrow> bool" where
  "store_inv d =
     (distinct (map m_id (messages d)) \<and> list_all row_ok (messages d) \<and> counters_ok d \<and> quota_ok d)"

lemma store_invD:
  assumes "store_inv d"
  shows "distinct (map m_id (messages d))" "list_all row_ok (messages d)" "counters_ok d" "quota_ok d"
  using assms by (simp_all add: store_inv_def)

lemma store_invI [intro?]:
  "distinct (map m_id (messages d)) \<Longrightarrow> list_all row_ok (messages d) \<Longrightarrow> counters_ok d \<Longrightarrow>
     quota_ok d \<Longrightarrow> store_inv d"
  by (simp add: store_inv_def)

lemma store_inv_find: "store_inv d \<Longrightarrow> r \<in> set (messages d) \<Longrightarrow> find_row (m_id r) (messages d) = Some r"
  by (auto intro: find_row_mem dest: store_invD)

section \<open>Frame facts of the small operations\<close>

lemma count_frame [simp]:
  "messages (count now k v b d) = messages d" "quota (count now k v b d) = quota d"
  "settings (count now k v b d) = settings d"
  "counter_of (count now k v b d) j = (if j = k then counter_of d k + v else counter_of d j)"
  by (auto simp: count_def)

lemma set_db_frame [simp]:
  "messages (set_db k v d) = messages d" "quota (set_db k v d) = quota d"
  "counters (set_db k v d) = counters d" "buckets (set_db k v d) = buckets d"
  "settings (set_db k v d) = tab_set k v (settings d)"
  by (auto simp: set_db_def)

lemma release_frame [simp]:
  "messages (release_counters now r d) = messages d" "quota (release_counters now r d) = quota d"
  "settings (release_counters now r d) = settings d"
  by (auto simp: release_counters_def)

lemma counter_release:
  "counter_of (release_counters now r d) ''retained_messages'' = counter_of d ''retained_messages'' - 1"
  "counter_of (release_counters now r d) ''retained_bytes'' = counter_of d ''retained_bytes'' - int (size r)"
  by (auto simp: release_counters_def count_def)

lemma retained_sums_append [simp]:
  "retained_count (xs @ ys) = retained_count xs + retained_count ys"
  "retained_size (xs @ ys) = retained_size xs + retained_size ys"
  "retained_count (r # ys) = (if retained r then 1 else 0) + retained_count ys"
  "retained_size (r # ys) = (if retained r then int (size r) else 0) + retained_size ys"
  "retained_count [] = 0" "retained_size [] = 0"
  by (simp_all add: retained_count_def retained_size_def)

lemma retained_size_nonneg: "0 \<le> retained_size rs"
  by (auto simp: retained_size_def intro!: sum_list_nonneg)

lemma quota_ok_cong:
  "messages d = messages d' \<Longrightarrow> quota d = quota d' \<Longrightarrow> quota_ok d = quota_ok d'"
  by (simp add: quota_ok_def reserved_def)

text \<open>A transaction that only counts and sets keeps the invariant, if it leaves the two retained
  counters alone.\<close>

lemma store_inv_frame:
  assumes "store_inv d" "messages d' = messages d" "quota d' = quota d"
    "counter_of d' ''retained_messages'' = counter_of d ''retained_messages''"
    "counter_of d' ''retained_bytes'' = counter_of d ''retained_bytes''"
  shows "store_inv d'"
proof -
  have "counters_ok d'" using assms by (simp add: store_inv_def counters_ok_def)
  moreover have "quota_ok d'"
    using quota_ok_cong [of d' d] assms by (simp add: store_inv_def)
  ultimately show ?thesis using assms by (simp add: store_inv_def)
qed

lemma store_inv_count:
  "store_inv d \<Longrightarrow> k \<notin> {''retained_messages'', ''retained_bytes''} \<Longrightarrow> store_inv (count now k v b d)"
  by (erule store_inv_frame) auto

lemma store_inv_set_db: "store_inv d \<Longrightarrow> store_inv (set_db k v d)"
  by (erule store_inv_frame) auto

section \<open>Preservation: updating one row\<close>

lemma store_inv_update:
  assumes inv: "store_inv d" and r: "find_row i (messages d) = Some r"
    and id: "\<And>r. m_id (f r) = m_id r" and ok: "row_ok (f r)"
    and msgs: "messages d' = upd_row i f (messages d)"
    and cnt: "counter_of d' ''retained_messages'' =
      counter_of d ''retained_messages'' - of_bool (retained r) + of_bool (retained (f r))"
    and sz: "counter_of d' ''retained_bytes'' = counter_of d ''retained_bytes''
      - (if retained r then int (size r) else 0) + (if retained (f r) then int (size (f r)) else 0)"
    and q: "quota_ok d'"
  shows "store_inv d'"
proof
  obtain xs ys where split: "messages d = xs @ r # ys" "messages d' = xs @ f r # ys"
    using find_row_split [OF r] store_invD(1) [OF inv] msgs by metis
  show "distinct (map m_id (messages d'))"
    using store_invD(1) [OF inv] id by (simp add: split)
  show "list_all row_ok (messages d')"
    using store_invD(2) [OF inv] ok by (simp add: split)
  show "counters_ok d'"
    using store_invD(3) [OF inv] cnt sz by (auto simp: counters_ok_def split)
  show "quota_ok d'" by (rule q)
qed

lemma sending_upd_row:
  assumes "find_row i rs = Some r" "distinct (map m_id rs)" "\<And>r. m_id (f r) = m_id r"
  shows "m_id ` {x \<in> set (upd_row i f rs). status x = Sending} =
    (m_id ` {x \<in> set rs. status x = Sending} - {i}) \<union> (if status (f r) = Sending then {i} else {})"
proof -
  obtain xs ys where s: "rs = xs @ r # ys" "m_id r = i"
    "\<forall>x \<in> set xs. m_id x \<noteq> i" "\<forall>x \<in> set ys. m_id x \<noteq> i" "upd_row i f rs = xs @ f r # ys"
    using find_row_split [OF assms(1,2)] by metis
  have fr: "m_id (f r) = i" using assms(3) s(2) by simp
  show ?thesis unfolding s(5) unfolding s(1) using s(2-4) fr
    by (auto simp: image_iff) (metis+)
qed

text \<open>A quota that agrees with the table still agrees after the update of one row, when its
  reservations change with the row's state.\<close>

lemma quota_ok_update:
  assumes inv: "store_inv d" and r: "find_row i (messages d) = Some r"
    and id: "\<And>r. m_id (f r) = m_id r"
    and rc: "\<And>r. recipient_count (f r) = recipient_count r"
    and msgs: "messages d' = upd_row i f (messages d)"
    and dist: "distinct (map q_message (reserved d'))"
    and ids: "q_message ` set (reserved d') =
       (q_message ` set (reserved d) - {i}) \<union> (if status (f r) = Sending then {i} else {})"
    and sub: "\<And>q. q \<in> set (reserved d') \<Longrightarrow> q \<in> set (reserved d) \<or>
       q_message q = i \<and> q_recipients q = recipient_count r"
  shows "quota_ok d'"
proof -
  have dm: "distinct (map m_id (messages d))" by (rule store_invD(1) [OF inv])
  have qd: "q_message ` set (reserved d) = m_id ` {r \<in> set (messages d). status r = Sending}"
    "\<forall>q \<in> set (reserved d). \<forall>r \<in> set (messages d). m_id r = q_message q \<longrightarrow>
       q_recipients q = recipient_count r"
    using store_invD(4) [OF inv] by (auto simp: quota_ok_def)
  have rm: "r \<in> set (messages d)" "m_id r = i" using find_row_Some_mem [OF r] by auto
  have "q_recipients q = recipient_count x"
    if q: "q \<in> set (reserved d')" and x: "x \<in> set (messages d')" "m_id x = q_message q" for q x
  proof -
    obtain y where y: "y \<in> set (messages d)" "x = (if m_id y = i then f y else y)"
      using x(1) by (auto simp: msgs set_upd_row)
    then have yx: "m_id y = m_id x" "recipient_count y = recipient_count x" using id rc by auto
    from sub [OF q] show ?thesis
    proof
      assume "q \<in> set (reserved d)"
      then show ?thesis using qd(2) y(1) yx x(2) by auto
    next
      assume "q_message q = i \<and> q_recipients q = recipient_count r"
      moreover from this have "y = r"
        using find_row_mem [OF y(1) dm] yx x(2) r by auto
      ultimately show ?thesis using yx by simp
    qed
  qed
  moreover have "q_message ` set (reserved d') = m_id ` {r \<in> set (messages d'). status r = Sending}"
    using sending_upd_row [of i "messages d" r f] r dm id by (simp add: msgs ids qd(1))
  ultimately show ?thesis using dist by (auto simp: quota_ok_def)
qed

lemma not_sending_not_reserved:
  assumes "store_inv d" "find_row i (messages d) = Some r" "status r \<noteq> Sending"
  shows "i \<notin> q_message ` set (reserved d)"
proof
  assume "i \<in> q_message ` set (reserved d)"
  then obtain x where "x \<in> set (messages d)" "m_id x = i" "status x = Sending"
    using store_invD(4) [OF assms(1)] by (auto simp: quota_ok_def)
  then show False using assms find_row_mem [of x "messages d"] store_invD(1) [OF assms(1)] by auto
qed

lemma quota_ok_same:
  assumes "store_inv d" "find_row i (messages d) = Some r"
    "\<And>r. m_id (f r) = m_id r" "\<And>r. recipient_count (f r) = recipient_count r"
    "messages d' = upd_row i f (messages d)" "quota d' = quota d"
    "status r \<noteq> Sending" "status (f r) \<noteq> Sending"
  shows "quota_ok d'"
proof (rule quota_ok_update [OF assms(1-5)])
  have "reserved d' = reserved d" using assms(6) by (simp add: reserved_def)
  then show "distinct (map q_message (reserved d'))"
    "q_message ` set (reserved d') =
       q_message ` set (reserved d) - {i} \<union> (if status (f r) = Sending then {i} else {})"
    "\<And>q. q \<in> set (reserved d') \<Longrightarrow> q \<in> set (reserved d) \<or>
       q_message q = i \<and> q_recipients q = recipient_count r"
    using store_invD(4) [OF assms(1)] not_sending_not_reserved [OF assms(1,2,7)] assms(8)
    by (auto simp: quota_ok_def)
qed

lemmas row_defs = expire_row_def start_row_def finish_row_def retry_row_def cancel_row_def
  recover_row_def new_row_def

lemma row_counts [simp]:
  "recipient_count (expire_row now r) = recipient_count r"
  "recipient_count (start_row now r) = recipient_count r"
  "recipient_count (finish_row now st err del r) = recipient_count r"
  "recipient_count (retry_row now r) = recipient_count r"
  "recipient_count (cancel_row now r) = recipient_count r"
  by (simp_all add: row_defs Let_def)

section \<open>Preservation: claim\<close>

lemma candidates_mem:
  "r \<in> set (candidates now rs) \<Longrightarrow> r \<in> set rs \<and> status r \<in> {Queued, Retry} \<and> py_le (next_attempt r) (Fin now)"
proof -
  have *: "first_ready st now rs = Some r \<Longrightarrow> r \<in> set (filter (ready st now) rs)" for st
    using arg_min_list_in [of "filter (ready st now) rs" ready_key]
    by (auto simp: first_ready_def split: list.splits)
  show "r \<in> set (candidates now rs) \<Longrightarrow> ?thesis"
    by (auto simp: candidates_def ready_def List.map_filter_def split: if_splits option.splits dest!: *)
qed

text \<open>The row \<open>_claim\<close> looks at: the earliest ready row, a queued one before a retried one.\<close>

definition next_row :: "rat \<Rightarrow> db \<Rightarrow> row option" where
  "next_row now d = (case candidates now (messages d) of
     [] \<Rightarrow> None | c # cs \<Rightarrow> Some (arg_min_list ready_key (c # cs)))"

lemma next_row_mem: "next_row now d = Some r \<Longrightarrow> r \<in> set (candidates now (messages d))"
  using arg_min_list_in [of "candidates now (messages d)" ready_key]
  by (auto simp: next_row_def split: list.splits)

text \<open>The outcomes of \<open>_claim\<close> that change the database.\<close>

lemma claim_cases:
  assumes "claim cfg now d = Inr (d', res)"
  obtains (none) "d' = d" "res = None"
  | (expire) r where "next_row now d = Some r" "too_old cfg now r"
      "d' = count now ''failed'' 1 True
              (d\<lparr>messages := upd_row (m_id r) (expire_row now) (messages d)\<rparr>)" "res = None"
  | (start) r where "next_row now d = Some r" "\<not> too_old cfg now r" "\<not> over_budget cfg now r d"
      "d' = d\<lparr>messages := upd_row (m_id r) (start_row now) (messages d),
              quota := quota d @ [reservation cfg now r]\<rparr>"
      "res = Some (r\<lparr>attempts := attempts r + 1\<rparr>)"
proof (cases "candidates now (messages d)")
  case Nil
  with assms none show ?thesis by (auto simp: claim_def bind_res_Inr split: if_split_asm)
next
  case (Cons c cs)
  define r where "r = arg_min_list ready_key (c # cs)"
  have nr: "next_row now d = Some r" by (simp add: next_row_def Cons r_def)
  let ?old = "(count now ''failed'' 1 True
          (d\<lparr>messages := upd_row (m_id r) (expire_row now) (messages d)\<rparr>), None)"
  let ?new = "(d\<lparr>messages := upd_row (m_id r) (start_row now) (messages d),
              quota := quota d @ [reservation cfg now r]\<rparr>, Some (r\<lparr>attempts := attempts r + 1\<rparr>))"
  from assms have "(d', res) = (d, None) \<or> (too_old cfg now r \<and> (d', res) = ?old) \<or>
     (\<not> too_old cfg now r \<and> \<not> over_budget cfg now r d \<and> (d', res) = ?new)"
    unfolding claim_def bind_res_Inr Let_def Cons list.case r_def [symmetric]
    by (cases "float_setting ''cooldown_until'' d") (auto simp del: upd_row_def split: if_split_asm)
  then show ?thesis using none expire [OF nr] start [OF nr] by (elim disjE conjE) simp_all
qed

lemma claim_inv [inv_intros]:
  assumes inv: "store_inv d" and c: "claim cfg now d = Inr (d', res)"
  shows "store_inv d'"
  using c
proof (cases rule: claim_cases)
  case none
  then show ?thesis using inv by simp
next
  case (expire r)
  then have r: "find_row (m_id r) (messages d) = Some r" "status r \<in> {Queued, Retry}" "row_ok r"
    using candidates_mem [OF next_row_mem [OF expire(1)]] store_invD(1,2) [OF inv]
    by (auto intro: find_row_mem simp: list_all_iff)
  show ?thesis
  proof (rule store_inv_update [OF inv r(1), where f = "expire_row now"])
    show "quota_ok d'"
      using r expire by (intro quota_ok_same [OF inv r(1), where f = "expire_row now"])
        (auto simp: expire_row_def)
  qed (use r expire in \<open>auto simp: expire_row_def row_ok_def retained_def\<close>)
next
  case (start r)
  then have r: "find_row (m_id r) (messages d) = Some r" "status r \<in> {Queued, Retry}" "row_ok r"
    using candidates_mem [OF next_row_mem [OF start(1)]] store_invD(1,2) [OF inv]
    by (auto intro: find_row_mem simp: list_all_iff)
  have res: "reserved d' = reserved d @ [reservation cfg now r]"
    using start by (simp add: reserved_def reservation_def)
  have nr: "m_id r \<notin> q_message ` set (reserved d)"
    using r by (intro not_sending_not_reserved [OF inv r(1)]) auto
  show ?thesis
  proof (rule store_inv_update [OF inv r(1), where f = "start_row now"])
    show "quota_ok d'"
    proof (rule quota_ok_update [OF inv r(1), where f = "start_row now"])
      show "distinct (map q_message (reserved d'))"
        using store_invD(4) [OF inv] nr by (auto simp: res quota_ok_def reservation_def)
      show "messages d' = upd_row (m_id r) (start_row now) (messages d)" using start by simp
    qed (use nr in \<open>auto simp: res reservation_def start_row_def\<close>)
  qed (use r start in \<open>auto simp: start_row_def row_ok_def retained_def\<close>)
qed

section \<open>Preservation: finish\<close>

text \<open>A successful \<open>_finish\<close>, taken apart.\<close>

lemma finish_Inr:
  assumes "finish now i st err delay cooldown d = Inr d'"
  obtains r where "find_row i (messages d) = Some r" "status r = Sending"
    "st \<in> {Submitted, Retry, Failed, UncertainSt}" "delay \<noteq> NaN"
    "messages d' = upd_row i (finish_row now st err delay) (messages d)"
    "quota d' = settle_quota i st (quota d)"
    "counters d' = counters (count now (status_name st) 1 True
        (if st = Submitted then release_counters now r d else d))"
    "settings d' = (if cooldown
       then tab_set ''cooldown_until'' (SFloat (py_max (py_add (Fin now) delay)
              (projr (float_setting ''cooldown_until'' d)))) (settings d)
       else settings d)"
    "cooldown \<Longrightarrow> \<not> isl (float_setting ''cooldown_until'' d)"
proof -
  from assms obtain r where r: "find_row i (messages d) = Some r" "status r = Sending"
    "st \<in> {Submitted, Retry, Failed, UncertainSt}"
    by (auto simp: finish_def split: option.splits if_split_asm)
  moreover from assms r have "py_add (Fin now) delay \<noteq> NaN"
    by (auto simp: finish_def split: if_split_asm)
  then have "delay \<noteq> NaN" by auto
  ultimately show ?thesis
    using that [of r] assms
    by (cases "tab_get (SFloat (Fin 0)) ''cooldown_until'' (settings d)")
      (auto simp: finish_def Let_def float_setting_def count_def release_counters_def
        split: if_split_asm)
qed

lemma reserved_settle:
  "reserved (d\<lparr>quota := settle_quota i st (quota d)\<rparr>) = filter (\<lambda>q. q_message q \<noteq> i) (reserved d)"
proof -
  have "filter (\<lambda>q. q_state q = Reserved) (settle_quota i st qs) =
      filter (\<lambda>q. q_message q \<noteq> i) (filter (\<lambda>q. q_state q = Reserved) qs)" for qs
    by (induction qs) (auto simp: settle_quota_def)
  then show ?thesis by (simp add: reserved_def)
qed

lemma finish_inv [inv_intros]:
  assumes inv: "store_inv d" and f: "finish now i st err delay cooldown d = Inr d'"
  shows "store_inv d'"
  using f
proof (rule finish_Inr)
  fix r
  assume r: "find_row i (messages d) = Some r" "status r = Sending"
    and st: "st \<in> {Submitted, Retry, Failed, UncertainSt}"
    and msgs: "messages d' = upd_row i (finish_row now st err delay) (messages d)"
    and q: "quota d' = settle_quota i st (quota d)"
    and cs: "counters d' = counters (count now (status_name st) 1 True
        (if st = Submitted then release_counters now r d else d))"
  have ok: "row_ok r" using r store_invD(2) [OF inv] by (auto simp: list_all_iff dest: find_row_Some_mem)
  have res: "reserved d' = filter (\<lambda>q. q_message q \<noteq> i) (reserved d)"
    using reserved_settle [of i st d] q by (simp add: reserved_def)
  have kept: "retained r" using ok r(2) by (auto simp: row_ok_def retained_def)
  have cnt: "counter_of d' k = counter_of d k - (if st = Submitted then v else 0)"
    if "(k, v) \<in> {(''retained_messages'', 1), (''retained_bytes'', int (size r))}" for k v
    using that st by (auto simp: cs release_counters_def)
  show ?thesis
  proof (rule store_inv_update [OF inv r(1), where f = "finish_row now st err delay"])
    show "quota_ok d'"
    proof (rule quota_ok_update [OF inv r(1), where f = "finish_row now st err delay"])
      show "distinct (map q_message (reserved d'))"
        using store_invD(4) [OF inv] by (auto simp: res quota_ok_def distinct_map_filter)
      show "messages d' = upd_row i (finish_row now st err delay) (messages d)" by (rule msgs)
    qed (use st in \<open>auto simp: res finish_row_def Let_def\<close>)
    show "messages d' = upd_row i (finish_row now st err delay) (messages d)" by (rule msgs)
    show "row_ok (finish_row now st err delay r)"
      using ok r st by (auto simp: row_ok_def finish_row_def Let_def)
  qed (use kept cnt st in \<open>auto simp: finish_row_def Let_def retained_def\<close>)
qed

section \<open>Preservation: operator actions, settings, housekeeping\<close>

lemma act_Inr:
  assumes "act now i action ack d = Inr d'"
  obtains (retry) r where "find_row i (messages d) = Some r" "action = ''retry''"
      "status r \<in> {Queued, Retry, Failed, UncertainSt}" "status r = UncertainSt \<Longrightarrow> ack"
      "d' = count now ''manual_retry'' 1 True
              (d\<lparr>messages := upd_row i (retry_row now) (messages d)\<rparr>)"
  | (cancel) r where "find_row i (messages d) = Some r" "action = ''cancel''"
      "status r \<in> {Queued, Retry, Failed, UncertainSt}"
      "d' = count now ''cancelled'' 1 True (release_counters now r
              (d\<lparr>messages := upd_row i (cancel_row now) (messages d)\<rparr>))"
proof -
  from assms obtain r where r: "find_row i (messages d) = Some r"
    by (auto simp: act_def split: option.splits)
  moreover have "status r \<in> {Queued, Retry, Failed, UncertainSt}"
    using assms r by (cases "status r") (auto simp: act_def)
  ultimately show ?thesis
    using assms retry [of r] cancel [of r] by (auto simp: act_def split: if_split_asm)
qed

lemma act_inv [inv_intros]:
  assumes inv: "store_inv d" and a: "act now i action ack d = Inr d'"
  shows "store_inv d'"
  using a
proof (cases rule: act_Inr)
  case (retry r)
  have ok: "row_ok r" using retry store_invD(2) [OF inv] by (auto simp: list_all_iff dest: find_row_Some_mem)
  show ?thesis
  proof (rule store_inv_update [OF inv retry(1), where f = "retry_row now"])
    show "quota_ok d'"
      using retry by (intro quota_ok_same [OF inv retry(1), where f = "retry_row now"])
        (auto simp: retry_row_def)
  qed (use ok retry in \<open>auto simp: retry_row_def row_ok_def retained_def\<close>)
next
  case (cancel r)
  have ok: "row_ok r" using cancel store_invD(2) [OF inv] by (auto simp: list_all_iff dest: find_row_Some_mem)
  show ?thesis
  proof (rule store_inv_update [OF inv cancel(1), where f = "cancel_row now"])
    show "quota_ok d'"
      using cancel by (intro quota_ok_same [OF inv cancel(1), where f = "cancel_row now"])
        (auto simp: cancel_row_def)
  qed (use ok cancel in \<open>auto simp: cancel_row_def row_ok_def retained_def counter_release\<close>)
qed

lemma set_setting_inv [inv_intros]: "store_inv d \<Longrightarrow> store_inv (set_setting k v d)"
  by (simp add: set_setting_def store_inv_set_db)

text \<open>Rows without a body can be dropped without touching the retained counters.\<close>

lemma retained_filter:
  "(\<And>r. r \<in> set rs \<Longrightarrow> \<not> P r \<Longrightarrow> \<not> retained r) \<Longrightarrow>
     retained_count (filter P rs) = retained_count rs \<and> retained_size (filter P rs) = retained_size rs"
  by (induction rs) auto

lemma housekeeping_inv [inv_intros]:
  assumes inv: "store_inv d" and ids: "expired_choice cfg now ids d"
  shows "store_inv (housekeeping cfg now ids d)"
proof
  let ?d = "housekeeping cfg now ids d" and ?P = "\<lambda>r. m_id r \<notin> set ids"
  have dm: "distinct (map m_id (messages d))" by (rule store_invD(1) [OF inv])
  have gone: "status r \<in> {Submitted, Cancelled}" if r: "r \<in> set (messages d)" "\<not> ?P r" for r
  proof -
    from r ids obtain x where x: "x \<in> set (messages d)" "m_id x = m_id r" "expired cfg now x"
      by (auto simp: expired_choice_def Let_def)
    then have "x = r" using find_row_mem [OF _ dm] r(1) by (metis option.inject)
    with x show ?thesis by (simp add: expired_def)
  qed
  have msgs: "messages ?d = filter ?P (messages d)" by (simp add: housekeeping_def)
  show "distinct (map m_id (messages ?d))" using dm by (simp add: msgs distinct_map_filter)
  show "list_all row_ok (messages ?d)" using store_invD(2) [OF inv] by (auto simp: msgs list_all_iff)
  have "\<not> retained r" if "r \<in> set (messages d)" "\<not> ?P r" for r
    using gone [OF that] that store_invD(2) [OF inv] by (auto simp: list_all_iff row_ok_def retained_def)
  then show "counters_ok ?d"
    using store_invD(3) [OF inv] retained_filter [of "messages d" ?P]
    by (auto simp: counters_ok_def msgs) (auto simp: housekeeping_def)
  have res: "reserved ?d = reserved d"
    by (auto simp: reserved_def housekeeping_def intro: filter_cong)
  have send: "{r \<in> set (messages ?d). status r = Sending} = {r \<in> set (messages d). status r = Sending}"
    using gone by (force simp: msgs)
  show "quota_ok ?d"
    using store_invD(4) [OF inv] unfolding quota_ok_def res send by (auto simp: msgs)
qed

section \<open>Preservation: the group commit\<close>

lemma admit_length: "admit q n b ms = (oks, as) \<Longrightarrow> length oks = length ms"
  by (induction q n b ms arbitrary: oks as rule: admit.induct) (auto split: if_splits prod.splits)

text \<open>What is admitted is the sub-list of the accepted positions.\<close>

lemma admit_accepted:
  "admit q n b ms = (oks, as) \<Longrightarrow> as = map snd (filter fst (zip oks ms))"
  by (induction q n b ms arbitrary: oks as rule: admit.induct) (auto split: if_splits prod.splits)

lemma total_mime_simps [simp]:
  "total_mime [] = 0" "total_mime (m # ms) = int (length (pm_mime m)) + total_mime ms"
  by (simp_all add: total_mime_def)

lemma total_mime_nonneg: "0 \<le> total_mime ms"
  by (auto simp: total_mime_def intro!: sum_list_nonneg)

text \<open>The running totals stay within both capacity limits.\<close>

lemma admit_bounds:
  "admit q n b ms = (oks, as) \<Longrightarrow> n \<le> q_max_messages q \<Longrightarrow> b \<le> q_max_bytes q \<Longrightarrow>
     n + int (length as) \<le> q_max_messages q \<and> b + total_mime as \<le> q_max_bytes q"
  by (induction q n b ms arbitrary: oks as rule: admit.induct)
    (fastforce split: if_splits prod.splits)+

lemma account_frame [simp]:
  "messages (account_batch now ms d) = messages d" "quota (account_batch now ms d) = quota d"
  "settings (account_batch now ms d) = settings d"
  by (simp_all add: account_batch_def)

lemma account_counters:
  "counter_of (account_batch now ms d) ''retained_messages'' =
     counter_of d ''retained_messages'' + int (length ms)"
  "counter_of (account_batch now ms d) ''retained_bytes'' =
     counter_of d ''retained_bytes'' + total_mime ms"
  by (auto simp: account_batch_def)

lemma new_rows:
  "retained_count (map (new_row now) ms) = int (length ms)"
  "retained_size (map (new_row now) ms) = total_mime ms"
  "list_all row_ok (map (new_row now) ms)"
  by (induction ms) (auto simp: new_row_def retained_def row_ok_def)

text \<open>The two outcomes of a batch that does not raise.\<close>

lemma insert_batch_cases:
  assumes "insert_batch cfg healthy free now batch d = Inr (d', vs)"
  obtains (refused) why where "d' = d" "vs = map (\<lambda>_. Some why) batch"
  | (stored) oks as where "healthy"
      "q_min_free_bytes (cfg_queue cfg) + total_mime batch * 2 \<le> free"
      "admit (cfg_queue cfg) (counter_of d ''retained_messages'') (counter_of d ''retained_bytes'')
         batch = (oks, as)"
      "distinct (map pm_id as)" "set (map pm_id as) \<inter> set (map m_id (messages d)) = {}"
      "d' = account_batch now as (d\<lparr>messages := messages d @ map (new_row now) as\<rparr>)"
      "vs = map verdict_of oks"
  using assms
  by (auto simp: insert_batch_def insert_rows_def bind_res_Inr Let_def split: if_split_asm prod.splits)

lemma insert_batch_inv [inv_intros]:
  assumes inv: "store_inv d" and b: "insert_batch cfg healthy free now batch d = Inr (d', vs)"
  shows "store_inv d'"
  using b
proof (cases rule: insert_batch_cases)
  case refused
  then show ?thesis using inv by simp
next
  case (stored oks as)
  have msgs: "messages d' = messages d @ map (new_row now) as" using stored by simp
  have q: "quota d' = quota d" using stored by simp
  show ?thesis
  proof
    show "distinct (map m_id (messages d'))"
      using store_invD(1) [OF inv] stored(4,5) by (auto simp: msgs)
    show "list_all row_ok (messages d')"
      using store_invD(2) [OF inv] new_rows(3) [of now as] by (simp add: msgs)
    show "counters_ok d'"
      using store_invD(3) [OF inv]
      by (simp add: counters_ok_def msgs new_rows stored(6) account_counters del: map_map)
    have "{r \<in> set (messages d'). status r = Sending} = {r \<in> set (messages d). status r = Sending}"
      by (auto simp: msgs new_row_def)
    moreover have "q_recipients x = recipient_count r"
      if "x \<in> set (reserved d)" "r \<in> set (messages d')" "m_id r = q_message x" for x r
    proof -
      from that(1) have "q_message x \<in> m_id ` set (messages d)"
        using store_invD(4) [OF inv] by (auto simp: quota_ok_def)
      then have "r \<in> set (messages d)" using that(2,3) stored(5) by (auto simp: msgs)
      then show ?thesis using that store_invD(4) [OF inv] by (auto simp: quota_ok_def)
    qed
    ultimately show "quota_ok d'"
      using store_invD(4) [OF inv] q by (simp add: quota_ok_def reserved_def)
  qed
qed

section \<open>Opening establishes the invariant\<close>

text \<open>
  What \<open>_open\<close> needs of the file: only what single transactions cannot break, unique IDs and
  well-formed rows.  The counters and the reservations are rebuilt.
\<close>

definition file_ok :: "db \<Rightarrow> bool" where
  "file_ok d = (distinct (map m_id (messages d)) \<and> list_all row_ok (messages d))"

lemma store_inv_file_ok: "store_inv d \<Longrightarrow> file_ok d"
  by (simp add: store_inv_def file_ok_def)

lemma open_db_Inr:
  assumes "open_db cfg version now d = Inr d'"
  shows "messages d' = map (recover_row now) (messages d)"
    "quota d' = map recover_quota (quota d)"
    "counter_of d' ''retained_messages'' = retained_count (messages d)"
    "counter_of d' ''retained_bytes'' = retained_size (messages d)"
    "settings d' = tab_set ''sender'' (SText (quota_mailbox cfg)) (settings d)"
  using assms by (auto simp: open_db_def Let_def split: if_split_asm)

lemma retained_recover [simp]:
  "retained (recover_row now r) = retained r" "size (recover_row now r) = size r"
  by (auto simp: recover_row_def retained_def)

lemma retained_map_recover:
  "retained_count (map (recover_row now) rs) = retained_count rs"
  "retained_size (map (recover_row now) rs) = retained_size rs"
  by (induction rs) auto

lemma open_inv [inv_intros]:
  assumes ok: "file_ok d" and op: "open_db cfg version now d = Inr d'"
  shows "store_inv d'"
proof
  note o = open_db_Inr [OF op]
  show "distinct (map m_id (messages d'))" using ok by (simp add: o file_ok_def comp_def)
  show "list_all row_ok (messages d')"
    using ok by (auto simp: o file_ok_def list_all_iff row_ok_def recover_row_def)
  show "counters_ok d'" by (simp add: counters_ok_def o retained_map_recover)
  have "reserved d' = []" by (auto simp: reserved_def o recover_quota_def filter_empty_conv)
  moreover have "status r \<noteq> Sending" if "r \<in> set (messages d')" for r
    using that by (auto simp: o recover_row_def)
  ultimately show "quota_ok d'" by (auto simp: quota_ok_def)
qed

text \<open>Claims, inserts and operator actions leave the settings alone.\<close>

lemma claim_settings: "claim cfg now d = Inr (d', res) \<Longrightarrow> settings d' = settings d"
  by (erule claim_cases) auto

lemma insert_settings: "insert_batch cfg h free now b d = Inr (d', vs) \<Longrightarrow> settings d' = settings d"
  by (erule insert_batch_cases) auto

lemma act_settings: "act now i action ack d = Inr d' \<Longrightarrow> settings d' = settings d"
  by (erule act_Inr) auto

end
