(* ===== verification/Gw_Store_Steps.thy ===== *)
theory Gw_Store_Steps
  imports Gw_Store_Inv
begin

text \<open>
  The queue database as a transition system: one labelled step per committed transaction, and
  a restart at any point between two transactions (a killed process loses the transaction it
  was in, never half of it).  On top of it, the message life cycle as an abstract machine and
  the lemmas that relate the rows to it.
\<close>

section \<open>Steps\<close>

datatype store_event =
    EvOpen int rat
  | EvInsert bool int rat "prepared_message list"
  | EvClaim rat
  | EvFinish rat string mstatus string pyfloat bool
  | EvAct rat string string bool
  | EvSet string sval
  | EvHouse rat "string list"

text \<open>The settings the running service writes besides the cooldown: \<open>Dispatcher.pause\<close> and
  \<open>Dispatcher.set_rate\<close>.\<close>

definition operator_keys :: "string list" where
  "operator_keys = [''paused'', ''rate'']"

inductive store_step :: "config \<Rightarrow> store_event \<Rightarrow> db \<Rightarrow> db \<Rightarrow> bool" for cfg where
  st_open: "open_db cfg version now d = Inr d' \<Longrightarrow> store_step cfg (EvOpen version now) d d'"
| st_insert: "insert_batch cfg healthy free now batch d = Inr (d', vs) \<Longrightarrow>
    store_step cfg (EvInsert healthy free now batch) d d'"
| st_claim: "claim cfg now d = Inr (d', res) \<Longrightarrow> store_step cfg (EvClaim now) d d'"
| st_finish: "finish now i st err delay cooldown d = Inr d' \<Longrightarrow>
    store_step cfg (EvFinish now i st err delay cooldown) d d'"
| st_act: "act now i action ack d = Inr d' \<Longrightarrow> store_step cfg (EvAct now i action ack) d d'"
| st_set: "key \<in> set operator_keys \<Longrightarrow> store_step cfg (EvSet key v) d (set_setting key v d)"
| st_house: "expired_choice cfg now ids d \<Longrightarrow>
    store_step cfg (EvHouse now ids) d (housekeeping cfg now ids d)"

lemma store_stepE [consumes 1, case_names st_open st_insert st_claim st_finish st_act st_set st_house]:
  assumes "store_step cfg e d d'"
  obtains version now where "e = EvOpen version now" "open_db cfg version now d = Inr d'"
  | healthy free now batch vs where "e = EvInsert healthy free now batch"
      "insert_batch cfg healthy free now batch d = Inr (d', vs)"
  | now res where "e = EvClaim now" "claim cfg now d = Inr (d', res)"
  | now i st err delay cooldown where "e = EvFinish now i st err delay cooldown"
      "finish now i st err delay cooldown d = Inr d'"
  | now i action ack where "e = EvAct now i action ack" "act now i action ack d = Inr d'"
  | key v where "e = EvSet key v" "key \<in> set operator_keys" "d' = set_setting key v d"
  | now ids where "e = EvHouse now ids" "expired_choice cfg now ids d"
      "d' = housekeeping cfg now ids d"
  using assms by cases auto

inductive_simps store_step_simps:
  "store_step cfg (EvOpen version now) d d'"
  "store_step cfg (EvInsert healthy free now batch) d d'"
  "store_step cfg (EvClaim now) d d'"
  "store_step cfg (EvFinish now i st err delay cooldown) d d'"
  "store_step cfg (EvAct now i action ack) d d'"
  "store_step cfg (EvSet key v) d d'"
  "store_step cfg (EvHouse now ids) d d'"

text \<open>The first start, on a new database file.\<close>

definition store_init :: "config \<Rightarrow> db \<Rightarrow> bool" where
  "store_init cfg d = (\<exists>now. open_db cfg 0 now empty_db = Inr d)"

lemma file_ok_empty: "file_ok empty_db"
  by (simp add: file_ok_def empty_db_def)

lemma store_step_inv: "store_inv d \<Longrightarrow> store_step cfg e d d' \<Longrightarrow> store_inv d'"
  by (erule store_stepE) (auto intro: inv_intros store_inv_file_ok)

interpretation store_sys: inv_system "store_init cfg" "store_step cfg" store_inv for cfg
  by unfold_locales
    (auto simp: store_init_def intro: open_inv file_ok_empty store_step_inv)

section \<open>Rows along a step\<close>

text \<open>What one step does to the row of a given ID.\<close>

definition row_after :: "string \<Rightarrow> db \<Rightarrow> row option" where
  "row_after i d = find_row i (messages d)"

lemma row_after_upd:
  assumes "store_inv d" "messages d' = upd_row j f (messages d)" "\<And>r. m_id (f r) = m_id r"
  shows "row_after i d' = map_option (\<lambda>r. if i = j then f r else r) (row_after i d)"
  using assms by (simp add: row_after_def find_upd_row)

lemma row_after_open: "open_db cfg v now d = Inr d' \<Longrightarrow>
    row_after i d' = map_option (recover_row now) (row_after i d)"
  by (simp add: row_after_def open_db_Inr find_map_recover)

lemma row_after_insert:
  assumes "insert_batch cfg h free now batch d = Inr (d', vs)" "row_after i d = Some r"
  shows "row_after i d' = Some r"
  using assms(1)
proof (cases rule: insert_batch_cases)
  case refused
  then show ?thesis using assms(2) by simp
next
  case (stored oks as)
  then show ?thesis using assms(2) by (simp add: row_after_def find_row_append)
qed

lemma row_after_claim:
  assumes "store_inv d" "claim cfg now d = Inr (d', res)"
  shows "row_after i d' = row_after i d \<or>
    (\<exists>r. row_after i d = Some r \<and> next_row now d = Some r \<and> status r \<in> {Queued, Retry} \<and>
       (row_after i d' = Some (expire_row now r) \<and> res = None \<or>
        row_after i d' = Some (start_row now r) \<and> res = Some (r\<lparr>attempts := attempts r + 1\<rparr>)))"
  using assms(2)
proof (cases rule: claim_cases)
  case none
  then show ?thesis by simp
next
  case (expire r)
  have m: "r \<in> set (messages d)" "status r \<in> {Queued, Retry}"
    using candidates_mem [OF next_row_mem [OF expire(1)]] by auto
  have "row_after i d' = map_option (\<lambda>x. if i = m_id r then expire_row now x else x) (row_after i d)"
    using row_after_upd [OF assms(1), of d' "m_id r" "expire_row now" i] expire by simp
  moreover have "row_after (m_id r) d = Some r"
    unfolding row_after_def using store_inv_find [OF assms(1) m(1)] .
  ultimately show ?thesis using expire m by (cases "i = m_id r") (auto simp: map_option.id [unfolded id_def])
next
  case (start r)
  have m: "r \<in> set (messages d)" "status r \<in> {Queued, Retry}"
    using candidates_mem [OF next_row_mem [OF start(1)]] by auto
  have "row_after i d' = map_option (\<lambda>x. if i = m_id r then start_row now x else x) (row_after i d)"
    using row_after_upd [OF assms(1), of d' "m_id r" "start_row now" i] start by simp
  moreover have "row_after (m_id r) d = Some r"
    unfolding row_after_def using store_inv_find [OF assms(1) m(1)] .
  ultimately show ?thesis using start m by (cases "i = m_id r") (auto simp: map_option.id [unfolded id_def])
qed

lemma row_after_finish:
  assumes "store_inv d" "finish now j st err delay cd d = Inr d'" "row_after i d = Some r"
  shows "row_after i d' = Some (if i = j then finish_row now st err delay r else r) \<and>
    (i = j \<longrightarrow> status r = Sending \<and> st \<in> {Submitted, Retry, Failed, UncertainSt})"
  using assms(2)
proof (rule finish_Inr)
  fix x assume x: "find_row j (messages d) = Some x" "status x = Sending"
    "st \<in> {Submitted, Retry, Failed, UncertainSt}"
    and m: "messages d' = upd_row j (finish_row now st err delay) (messages d)"
  show ?thesis
    using row_after_upd [OF assms(1) m, of i] assms(3) x by (auto simp: row_after_def)
qed

lemma row_after_act:
  assumes "store_inv d" "act now j action ack d = Inr d'" "row_after i d = Some r"
  shows "row_after i d' = Some r \<and> i \<noteq> j \<or>
    i = j \<and> status r \<in> {Queued, Retry, Failed, UncertainSt} \<and>
      (action = ''retry'' \<and> (status r = UncertainSt \<longrightarrow> ack) \<and> row_after i d' = Some (retry_row now r)
       \<or> action = ''cancel'' \<and> row_after i d' = Some (cancel_row now r))"
  using assms(2)
proof (cases rule: act_Inr)
  case (retry x)
  then show ?thesis
    using row_after_upd [OF assms(1), of d' j "retry_row now" i] assms(3)
    by (auto simp: row_after_def)
next
  case (cancel x)
  then show ?thesis
    using row_after_upd [OF assms(1), of d' j "cancel_row now" i] assms(3)
    by (auto simp: row_after_def)
qed

lemma row_after_house:
  assumes "store_inv d" "expired_choice cfg now ids d" "row_after i d = Some r"
  shows "row_after i (housekeeping cfg now ids d) = Some r \<or>
    row_after i (housekeeping cfg now ids d) = None \<and> status r \<in> {Submitted, Cancelled}"
proof (cases "i \<in> set ids")
  case False
  then show ?thesis using assms(3)
    by (simp add: row_after_def housekeeping_def find_row_filter_ids)
next
  case True
  then obtain x where x: "x \<in> set (messages d)" "m_id x = i" "status x \<in> {Submitted, Cancelled}"
    using assms(2) by (auto simp: expired_choice_def expired_def Let_def)
  then have "x = r" using store_inv_find [OF assms(1), of x] assms(3) by (auto simp: row_after_def)
  moreover have "row_after i (housekeeping cfg now ids d) = None"
    using True by (auto simp: row_after_def housekeeping_def find_row_None)
  ultimately show ?thesis using x by simp
qed

section \<open>The life cycle\<close>

text \<open>
  The abstract machine of one message: which event may take a message from one state to
  another.  Everything an administrator is told about the states is in this table.
\<close>

fun moves :: "store_event \<Rightarrow> string \<Rightarrow> mstatus \<Rightarrow> mstatus \<Rightarrow> bool" where
  "moves (EvOpen _ _) i s t = (if s = Sending then t = UncertainSt else t = s)"
| "moves (EvClaim _) i s t = (t = s \<or> (s \<in> {Queued, Retry} \<and> t \<in> {Sending, Failed}))"
| "moves (EvFinish _ j st _ _ _) i s t =
     (if i = j then s = Sending \<and> t = st \<and> st \<in> {Submitted, Retry, Failed, UncertainSt} else t = s)"
| "moves (EvAct _ j action ack) i s t =
     (if i = j then s \<in> {Queued, Retry, Failed, UncertainSt} \<and>
        ((action = ''retry'' \<and> (s = UncertainSt \<longrightarrow> ack) \<and> t = Queued) \<or>
         (action = ''cancel'' \<and> t = Cancelled))
      else t = s)"
| "moves _ i s t = (t = s)"

definition drops :: "string \<Rightarrow> store_event \<Rightarrow> bool" where
  "drops i e = ((\<exists>now err delay cd. e = EvFinish now i Submitted err delay cd) \<or>
     (\<exists>now ack. e = EvAct now i ''cancel'' ack))"

lemma status_updates [simp]:
  "status (expire_row now r) = Failed" "status (start_row now r) = Sending"
  "status (finish_row now st err delay r) = st" "status (retry_row now r) = Queued"
  "status (cancel_row now r) = Cancelled"
  "status (recover_row now r) = (if status r = Sending then UncertainSt else status r)"
  by (simp_all add: row_defs Let_def)

lemma mime_updates [simp]:
  "mime (expire_row now r) = mime r" "mime (start_row now r) = mime r"
  "mime (finish_row now st err delay r) = (if st = Submitted then None else mime r)"
  "mime (retry_row now r) = mime r" "mime (cancel_row now r) = None"
  "mime (recover_row now r) = mime r"
  by (simp_all add: row_defs Let_def)

text \<open>Every step of the database is a move of the abstract machine, for every message.\<close>

lemma step_moves:
  assumes inv: "store_inv d" and st: "store_step cfg e d d'" and r: "row_after i d = Some r"
  shows "(\<exists>r'. row_after i d' = Some r' \<and> moves e i (status r) (status r')) \<or>
     (row_after i d' = None \<and> status r \<in> {Submitted, Cancelled} \<and> (\<exists>now ids. e = EvHouse now ids))"
  using st
proof (cases rule: store_stepE)
  case (st_open version now)
  then show ?thesis using row_after_open [of cfg version now d d' i] r by auto
next
  case (st_insert healthy free now batch vs)
  then show ?thesis using row_after_insert [OF st_insert(2) r] by auto
next
  case (st_claim now res)
  then show ?thesis using row_after_claim [OF inv st_claim(2), of i] r by auto
next
  case (st_finish now j st err delay cooldown)
  then show ?thesis using row_after_finish [OF inv st_finish(2) r] by auto
next
  case (st_act now j action ack)
  then show ?thesis using row_after_act [OF inv st_act(2) r] by auto
next
  case (st_set key v)
  then show ?thesis using r by (simp add: row_after_def set_setting_def)
next
  case (st_house now ids)
  then show ?thesis using row_after_house [OF inv st_house(2) r] by auto
qed

text \<open>A body is dropped by its submission or its cancellation only.\<close>

lemma step_keeps_body:
  assumes inv: "store_inv d" and st: "store_step cfg e d d'" and r: "row_after i d = Some r"
    and b: "mime r = Some b" and nd: "\<not> drops i e"
  shows "\<exists>r'. row_after i d' = Some r' \<and> mime r' = Some b"
  using st
proof (cases rule: store_stepE)
  case (st_open version now)
  then show ?thesis using row_after_open [of cfg version now d d' i] r b by auto
next
  case (st_insert healthy free now batch vs)
  then show ?thesis using row_after_insert [OF st_insert(2) r] b by auto
next
  case (st_claim now res)
  then show ?thesis using row_after_claim [OF inv st_claim(2), of i] r b by auto
next
  case (st_finish now j st err delay cooldown)
  then show ?thesis using row_after_finish [OF inv st_finish(2) r] b nd by (auto simp: drops_def)
next
  case (st_act now j action ack)
  then show ?thesis using row_after_act [OF inv st_act(2) r] b nd by (auto simp: drops_def)
next
  case (st_set key v)
  then show ?thesis using r b by (simp add: row_after_def set_setting_def)
next
  case (st_house now ids)
  have "status r \<notin> {Submitted, Cancelled}"
    using b r store_invD(2) [OF inv] find_row_Some_mem [of i "messages d" r]
    by (auto simp: list_all_iff row_ok_def row_after_def)
  then show ?thesis using st_house row_after_house [OF inv st_house(2) r] b by auto
qed

end
