(* ===== verification/Gw_Store_Props.thy ===== *)
theory Gw_Store_Props
  imports Gw_Store_Steps
begin

text \<open>
  The promises of the durable queue: what holds in every database the service can reach, what
  happens to a message along any sequence of transactions and restarts, and what the
  individual transactions return.
\<close>

section \<open>A small database to run the theorems on\<close>

definition demo_cfg :: config where
  "demo_cfg = default_config\<lparr>cfg_account := default_account\<lparr>acc_sender := ''gw@x.y''\<rparr>\<rparr>"

definition demo_pm :: prepared_message where
  "demo_pm = \<lparr>pm_id = ''a'', pm_mime = ''hi'', pm_recipients = [''u@x.y''],
     pm_envelope_sender = [], pm_original_from = ''gw@x.y'', pm_subject = ''s'',
     pm_message_id = ''<a@x>'', pm_nat = False\<rparr>"

lemmas demo_defs = demo_cfg_def demo_pm_def empty_db_def default_config_def
  default_account_def default_queue_def default_delivery_def

text \<open>The states after an open, a commit, a claim.\<close>

definition demo_open :: db where
  "demo_open = projr (open_db demo_cfg 0 0 empty_db)"

definition demo_stored :: db where
  "demo_stored = fst (projr (insert_batch demo_cfg True (2 ^ 40) 0 [demo_pm] demo_open))"

definition demo_claimed :: db where
  "demo_claimed = fst (projr (claim demo_cfg 1 demo_stored))"

lemma demo_open_eq: "open_db demo_cfg 0 0 empty_db = Inr demo_open"
  by (simp add: demo_open_def open_db_def demo_defs Let_def retained_count_def)

lemma demo_stored_eq:
  "insert_batch demo_cfg True (2 ^ 40) 0 [demo_pm] demo_open = Inr (demo_stored, [None])"
  unfolding demo_stored_def demo_open_def by code_simp

lemma demo_claimed_eq: "claim demo_cfg 1 demo_stored =
    Inr (demo_claimed, Some ((new_row 0 demo_pm)\<lparr>attempts := 1\<rparr>))"
  unfolding demo_claimed_def demo_stored_def demo_open_def by code_simp

lemma demo_reach:
  "reach (store_init demo_cfg) (store_step demo_cfg) demo_stored"
  "reach (store_init demo_cfg) (store_step demo_cfg) demo_claimed"
proof -
  have "reach (store_init demo_cfg) (store_step demo_cfg) demo_open"
    using demo_open_eq by (intro reach_init) (auto simp: store_init_def)
  then show s: "reach (store_init demo_cfg) (store_step demo_cfg) demo_stored"
    by (rule reach_step) (rule st_insert [OF demo_stored_eq])
  then show "reach (store_init demo_cfg) (store_step demo_cfg) demo_claimed"
    by (rule reach_step) (rule st_claim [OF demo_claimed_eq])
qed

lemma demo_inv: "store_inv demo_stored" "store_inv demo_claimed"
  by (rule store_sys.reach_inv [OF demo_reach(1)], rule store_sys.reach_inv [OF demo_reach(2)])

lemma demo_rows:
  "row_after ''a'' demo_stored = Some (new_row 0 demo_pm)"
  "row_after ''a'' demo_claimed = Some (start_row 1 (new_row 0 demo_pm))"
  unfolding demo_claimed_def demo_stored_def demo_open_def by code_simp+

section \<open>The invariant in every reachable database\<close>

text \<open>
  C9: In every database the service can reach from a new file, by any sequence of committed
  transactions and restarts, queue IDs are unique, a message has its body exactly while it is
  neither submitted nor cancelled, the counters \<open>retained_messages\<close> and \<open>retained_bytes\<close> are the
  number and the total octets of the bodies kept, and the reserved quota entries are exactly
  the attempts in flight, each for the message's recipient count.
\<close>

theorem store_reachable_consistent:
  assumes "reach (store_init cfg) (store_step cfg) d"
  shows "distinct (map m_id (messages d))
    \<and> list_all (\<lambda>r. (mime r = None) = (status r \<in> {Submitted, Cancelled})) (messages d)
    \<and> counter_of d ''retained_messages'' = int (length (filter (\<lambda>r. mime r \<noteq> None) (messages d)))
    \<and> counter_of d ''retained_bytes'' =
        sum_list (map (\<lambda>r. case mime r of None \<Rightarrow> 0 | Some b \<Rightarrow> int (length b)) (messages d))
    \<and> distinct (map q_message (reserved d))
    \<and> q_message ` set (reserved d) = m_id ` {r \<in> set (messages d). status r = Sending}"
proof -
  have inv: "store_inv d" using assms by (rule store_sys.reach_inv)
  have "sum_list (map (\<lambda>r. case mime r of None \<Rightarrow> 0 | Some b \<Rightarrow> int (length b)) rs) = retained_size rs"
    if "list_all row_ok rs" for rs
    using that by (induction rs) (auto simp: row_ok_def retained_def split: option.splits)
  moreover have "list_all (\<lambda>r. (mime r = None) = (status r \<in> {Submitted, Cancelled})) (messages d)"
    using store_invD(2) [OF inv] by (auto simp: list_all_iff row_ok_def)
  moreover have "filter (\<lambda>r. mime r \<noteq> None) rs = filter retained rs" for rs
    by (rule filter_cong) (simp_all add: retained_def)
  ultimately show ?thesis
    using store_invD [OF inv]
    by (simp only: counters_ok_def quota_ok_def retained_count_def)
qed

theorem store_reachable_consistent_witness:
  "reach (store_init demo_cfg) (store_step demo_cfg) demo_claimed
   \<and> q_message ` set (reserved demo_claimed) =
       m_id ` {r \<in> set (messages demo_claimed). status r = Sending}"
  using demo_reach(2) store_reachable_consistent [OF demo_reach(2)] by blast

section \<open>Durability\<close>

lemma run_row_induct:
  assumes step: "\<And>e s t r. store_inv s \<Longrightarrow> store_step cfg e s t \<Longrightarrow> ok e \<Longrightarrow>
      row_after i s = Some r \<Longrightarrow> P r \<Longrightarrow> \<exists>r'. row_after i t = Some r' \<and> P r'"
    and inv: "store_inv d" and run: "run (store_step cfg) d xs"
    and okx: "list_all (\<lambda>(e, t). ok e) xs" and r: "row_after i d = Some r" "P r"
  shows "\<exists>r'. row_after i (final d xs) = Some r' \<and> P r'"
  using inv run okx r
proof (induction xs arbitrary: d r)
  case Nil
  then show ?case by auto
next
  case (Cons x xs)
  obtain e t where x: "x = (e, t)" by force
  with Cons.prems have st: "store_step cfg e d t" "run (store_step cfg) t xs" "ok e" by auto
  from step [OF Cons.prems(1) st(1,3) Cons.prems(4,5)] obtain r' where
    "row_after i t = Some r'" "P r'" by auto
  with Cons.IH [of t r'] store_step_inv [OF Cons.prems(1) st(1)] st(2) Cons.prems(3) x
  show ?case by auto
qed

text \<open>
   A stored body is never lost.  Along any sequence of transactions and restarts in which the
  message is neither reported submitted nor cancelled, the message stays in the queue with the
  body octets it was accepted with.
\<close>

theorem accepted_body_survives:
  assumes "store_inv d" and "run (store_step cfg) d xs"
    and "find_row i (messages d) = Some r" and "mime r = Some b"
    and "list_all (\<lambda>(e, t). \<not> drops i e) xs"
  shows "\<exists>r'. find_row i (messages (final d xs)) = Some r' \<and> mime r' = Some b"
proof -
  have "\<exists>r'. row_after i (final d xs) = Some r' \<and> mime r' = Some b"
    by (rule run_row_induct [OF _ assms(1,2), where ok = "\<lambda>e. \<not> drops i e"])
      (use step_keeps_body assms(3-5) in \<open>auto simp: row_after_def\<close>)
  then show ?thesis by (simp add: row_after_def)
qed

theorem accepted_body_survives_witness:
  "\<exists>r'. find_row ''a'' (messages (final demo_stored [(EvClaim 1, demo_claimed)])) = Some r'
     \<and> mime r' = Some ''hi''"
proof (rule accepted_body_survives [OF demo_inv(1), where cfg = demo_cfg])
  show "run (store_step demo_cfg) demo_stored [(EvClaim 1, demo_claimed)]"
    using demo_claimed_eq by (auto intro: st_claim)
  show "find_row ''a'' (messages demo_stored) = Some (new_row 0 demo_pm)"
    using demo_rows(1) by (simp add: row_after_def)
qed (simp_all add: new_row_def demo_pm_def drops_def)

section \<open>The life cycle\<close>

text \<open>
  C8: The rows refine the life-cycle machine \<open>moves\<close>: whatever transaction or restart takes the
  database from one consistent state to the next, each message's state changes only as the
  machine allows, and a message disappears only when it is submitted or cancelled and
  housekeeping removes it.
\<close>

theorem step_refines_lifecycle:
  assumes "store_inv d" and "store_step cfg e d d'" and "find_row i (messages d) = Some r"
  shows "(\<exists>r'. find_row i (messages d') = Some r' \<and> moves e i (status r) (status r')) \<or>
     (find_row i (messages d') = None \<and> status r \<in> {Submitted, Cancelled}
       \<and> (\<exists>now ids. e = EvHouse now ids))"
  using step_moves [OF assms(1,2), of i r] assms(3) by (simp add: row_after_def)

theorem step_refines_lifecycle_witness:
  "(\<exists>r'. find_row ''a'' (messages demo_claimed) = Some r' \<and>
      moves (EvClaim 1) ''a'' (status (new_row 0 demo_pm)) (status r')) \<or>
   (find_row ''a'' (messages demo_claimed) = None \<and> status (new_row 0 demo_pm) \<in> {Submitted, Cancelled}
      \<and> (\<exists>now ids. EvClaim 1 = EvHouse now ids))"
  by (rule step_refines_lifecycle [OF demo_inv(1) st_claim [OF demo_claimed_eq]])
    (simp add: demo_rows(1) [unfolded row_after_def])

definition resolves :: "string \<Rightarrow> store_event \<Rightarrow> bool" where
  "resolves i e = (\<exists>now action ack. e = EvAct now i action ack \<and> (action = ''cancel'' \<or> ack))"

lemma uncertain_step:
  assumes "store_inv d" "store_step cfg e d d'" "\<not> resolves i e"
    "row_after i d = Some r" "status r = UncertainSt"
  shows "\<exists>r'. row_after i d' = Some r' \<and> status r' = UncertainSt"
  using step_moves [OF assms(1,2,4)] assms(3,5)
  by (cases e) (auto simp: resolves_def split: if_splits)

lemma claim_gives:
  assumes "claim cfg now d = Inr (d', Some m)"
  obtains r where "next_row now d = Some r" "m = r\<lparr>attempts := attempts r + 1\<rparr>"
    "\<not> too_old cfg now r" "\<not> over_budget cfg now r d"
    "r \<in> set (messages d)" "status r \<in> {Queued, Retry}" "py_le (next_attempt r) (Fin now)"
    "d' = d\<lparr>messages := upd_row (m_id r) (start_row now) (messages d),
            quota := quota d @ [reservation cfg now r]\<rparr>"
  using assms candidates_mem next_row_mem by (cases rule: claim_cases) blast+

lemma claim_not_of_status:
  assumes "store_inv d" "row_after i d = Some r" "status r \<notin> {Queued, Retry}"
    "claim cfg now d = Inr (d', Some m)"
  shows "m_id m \<noteq> i"
proof
  assume i: "m_id m = i"
  from assms(4) obtain x where x: "m = x\<lparr>attempts := attempts x + 1\<rparr>" "x \<in> set (messages d)"
    "status x \<in> {Queued, Retry}" by (rule claim_gives)
  then have "m_id x = i" using i by simp
  then have "row_after i d = Some x"
    using store_inv_find [OF assms(1) x(2)] by (simp add: row_after_def)
  then show False using assms(2,3) x by simp
qed

text \<open>
  C3: An uncertain send is never repeated on its own.  As long as no operator cancels the message
  or retries it with the duplicate risk acknowledged, it stays \<open>uncertain\<close> along every sequence
  of transactions and restarts, and no worker is ever handed it again.
\<close>

theorem uncertain_never_resent:
  assumes "store_inv d" and "find_row i (messages d) = Some r" and "status r = UncertainSt"
    and "run (store_step cfg) d xs" and "list_all (\<lambda>(e, t). \<not> resolves i e) xs"
    and "claim cfg now (final d xs) = Inr (d', Some m)"
  shows "m_id m \<noteq> i"
proof -
  have "\<exists>r'. row_after i (final d xs) = Some r' \<and> status r' = UncertainSt"
  proof (rule run_row_induct [OF _ assms(1,4), where ok = "\<lambda>e. \<not> resolves i e"])
    show "row_after i d = Some r" using assms(2) by (simp add: row_after_def)
  qed (use assms(3,5) in \<open>blast intro: uncertain_step\<close>)+
  then obtain r' where "row_after i (final d xs) = Some r'" "status r' = UncertainSt" by blast
  then show ?thesis
    using claim_not_of_status [OF _ _ _ assms(6)] store_sys.run_inv [OF assms(1,4)] by simp
qed

definition demo_two :: db where
  "demo_two = \<lparr>messages = [(new_row 0 demo_pm)\<lparr>status := UncertainSt\<rparr>,
       new_row 0 (demo_pm\<lparr>pm_id := ''b''\<rparr>)],
     settings = [], counters = [(''retained_messages'', 2), (''retained_bytes'', 4)],
     buckets = [], quota = []\<rparr>"

lemma demo_two_inv: "store_inv demo_two"
proof -
  have "list_all (\<lambda>r. status r \<noteq> Sending) (messages demo_two)" by code_simp
  then have "{r \<in> set (messages demo_two). status r = Sending} = {}" by (auto simp: list_all_iff)
  moreover have "reserved demo_two = []" by code_simp
  ultimately have "quota_ok demo_two" by (simp add: quota_ok_def)
  moreover have "distinct (map m_id (messages demo_two)) \<and> list_all row_ok (messages demo_two)
      \<and> counters_ok demo_two" by code_simp
  ultimately show ?thesis by (simp add: store_inv_def)
qed

theorem uncertain_never_resent_witness:
  "\<exists>d' m. claim demo_cfg 1 demo_two = Inr (d', Some m) \<and> m_id m \<noteq> ''a''"
proof -
  let ?b = "(new_row 0 (demo_pm\<lparr>pm_id := ''b''\<rparr>))\<lparr>attempts := 1\<rparr>"
  have c: "claim demo_cfg 1 demo_two = Inr (fst (projr (claim demo_cfg 1 demo_two)), Some ?b)"
    by code_simp
  have "find_row ''a'' (messages demo_two) = Some ((new_row 0 demo_pm)\<lparr>status := UncertainSt\<rparr>)"
    by code_simp
  then have "m_id ?b \<noteq> ''a''"
    using c uncertain_never_resent [OF demo_two_inv, where xs = "[]" and cfg = demo_cfg] by simp
  with c show ?thesis by blast
qed

text \<open>
   Submitted and cancelled are final.  Along every sequence of transactions and restarts a
  message in one of these states keeps its state until housekeeping drops the row; no worker
  and no operator action brings it back into the queue.
\<close>

theorem settled_is_final:
  assumes "store_inv d" and "find_row i (messages d) = Some r"
    and "status r \<in> {Submitted, Cancelled}" and "run (store_step cfg) d xs"
    and "list_all (\<lambda>(e, t). \<forall>now ids. e \<noteq> EvHouse now ids) xs"
  shows "\<exists>r'. find_row i (messages (final d xs)) = Some r' \<and> status r' = status r"
proof -
  have step: "\<exists>x'. row_after i t = Some x' \<and> status x' = status r"
    if "store_inv u" "store_step cfg e u t" "\<forall>now ids. e \<noteq> EvHouse now ids"
      "row_after i u = Some x" "status x = status r" for u t e x
    using step_moves [OF that(1,2,4)] that(3,5) assms(3)
    by (cases e) (auto split: if_splits)
  have "\<exists>r'. row_after i (final d xs) = Some r' \<and> status r' = status r"
  proof (rule run_row_induct [OF _ assms(1,4), where ok = "\<lambda>e. \<forall>now ids. e \<noteq> EvHouse now ids"])
    show "row_after i d = Some r" using assms(2) by (simp add: row_after_def)
  qed (use step assms(5) in blast)+
  then show ?thesis by (simp add: row_after_def)
qed

definition demo_sent :: db where
  "demo_sent = projr (finish 2 ''a'' Submitted [] (Fin 0) False demo_claimed)"

lemma demo_sent_eq: "finish 2 ''a'' Submitted [] (Fin 0) False demo_claimed = Inr demo_sent"
  unfolding demo_sent_def demo_claimed_def demo_stored_def demo_open_def by code_simp

lemma demo_sent_row: "row_after ''a'' demo_sent =
    Some (finish_row 2 Submitted [] (Fin 0) (start_row 1 (new_row 0 demo_pm)))"
  unfolding demo_sent_def demo_claimed_def demo_stored_def demo_open_def by code_simp

theorem settled_is_final_witness:
  "\<exists>r'. find_row ''a'' (messages (final demo_sent
        [(EvSet ''paused'' (SText ''true''), set_setting ''paused'' (SText ''true'') demo_sent)])) = Some r'
     \<and> status r' = Submitted"
proof -
  have inv: "store_inv demo_sent" using demo_inv(2) demo_sent_eq by (rule finish_inv)
  have "find_row ''a'' (messages demo_sent) =
      Some (finish_row 2 Submitted [] (Fin 0) (start_row 1 (new_row 0 demo_pm)))"
    using demo_sent_row by (simp add: row_after_def)
  from settled_is_final [OF inv this, where cfg = demo_cfg and
      xs = "[(EvSet ''paused'' (SText ''true''), set_setting ''paused'' (SText ''true'') demo_sent)]"]
  show ?thesis by (simp add: store_step_simps operator_keys_def)
qed

definition settles :: "string \<Rightarrow> store_event \<Rightarrow> bool" where
  "settles i e = ((\<exists>now st err delay cd. e = EvFinish now i st err delay cd) \<or>
     (\<exists>version now. e = EvOpen version now))"

text \<open>
   An attempt is exclusive.  From the moment a message is in flight, and as long as no result
  is recorded for it and the service is not restarted, no claim hands it to another worker,
  whatever other transactions run in between.
\<close>

theorem in_flight_exclusive:
  assumes "store_inv d" and "find_row i (messages d) = Some r" and "status r = Sending"
    and "run (store_step cfg) d xs" and "list_all (\<lambda>(e, t). \<not> settles i e) xs"
    and "claim cfg now (final d xs) = Inr (d', Some m)"
  shows "m_id m \<noteq> i"
proof -
  have step: "\<exists>x'. row_after i t = Some x' \<and> status x' = Sending"
    if "store_inv u" "store_step cfg e u t" "\<not> settles i e"
      "row_after i u = Some x" "status x = Sending" for u t e x
    using step_moves [OF that(1,2,4)] that(3,5)
    by (cases e) (auto simp: settles_def split: if_splits)
  have "\<exists>r'. row_after i (final d xs) = Some r' \<and> status r' = Sending"
  proof (rule run_row_induct [OF _ assms(1,4), where ok = "\<lambda>e. \<not> settles i e"])
    show "row_after i d = Some r" using assms(2) by (simp add: row_after_def)
  qed (use step assms(3,5) in blast)+
  then obtain r' where "row_after i (final d xs) = Some r'" "status r' = Sending" by blast
  then show ?thesis
    using claim_not_of_status [OF _ _ _ assms(6)] store_sys.run_inv [OF assms(1,4)] by simp
qed

definition demo_pair :: db where
  "demo_pair = demo_two\<lparr>messages := [start_row 1 (new_row 0 demo_pm),
       new_row 0 (demo_pm\<lparr>pm_id := ''b''\<rparr>)],
     quota := [reservation demo_cfg 1 (new_row 0 demo_pm)]\<rparr>"

lemma demo_pair_inv: "store_inv demo_pair"
proof -
  have "{r \<in> set (messages demo_pair). status r = Sending} =
      set (filter (\<lambda>r. status r = Sending) (messages demo_pair))" by auto
  moreover have "filter (\<lambda>r. status r = Sending) (messages demo_pair) =
      [start_row 1 (new_row 0 demo_pm)]"
    by code_simp
  moreover have "reserved demo_pair = [reservation demo_cfg 1 (new_row 0 demo_pm)]" by code_simp
  ultimately have "quota_ok demo_pair"
    by (auto simp: quota_ok_def reservation_def demo_pair_def demo_pm_def new_row_def)
  moreover have "distinct (map m_id (messages demo_pair)) \<and> list_all row_ok (messages demo_pair)
      \<and> counters_ok demo_pair" by code_simp
  ultimately show ?thesis by (simp add: store_inv_def)
qed

theorem in_flight_exclusive_witness:
  "\<exists>d' m. claim demo_cfg 1 demo_pair = Inr (d', Some m) \<and> m_id m \<noteq> ''a''"
proof -
  let ?b = "(new_row 0 (demo_pm\<lparr>pm_id := ''b''\<rparr>))\<lparr>attempts := 1\<rparr>"
  have c: "claim demo_cfg 1 demo_pair = Inr (fst (projr (claim demo_cfg 1 demo_pair)), Some ?b)"
    by code_simp
  have "find_row ''a'' (messages demo_pair) = Some (start_row 1 (new_row 0 demo_pm))" by code_simp
  then have "m_id ?b \<noteq> ''a''"
    using c in_flight_exclusive [OF demo_pair_inv, where xs = "[]" and cfg = demo_cfg] by simp
  with c show ?thesis by blast
qed

section \<open>Bounds\<close>

definition within_capacity :: "config \<Rightarrow> db \<Rightarrow> bool" where
  "within_capacity cfg d =
     (retained_count (messages d) \<le> q_max_messages (cfg_queue cfg) \<and>
      retained_size (messages d) \<le> q_max_bytes (cfg_queue cfg))"

text \<open>An update that keeps, or drops, one body keeps the totals within the limits.\<close>

lemma capacity_update:
  assumes inv: "store_inv d" and cap: "within_capacity cfg d"
    and msgs: "messages d' = upd_row i f (messages d)"
    and r: "\<And>r. r \<in> set (messages d) \<Longrightarrow> retained (f r) \<Longrightarrow> retained r \<and> size (f r) = size r"
  shows "within_capacity cfg d'"
proof -
  have "retained_count (upd_row i f rs) \<le> retained_count rs \<and>
      retained_size (upd_row i f rs) \<le> retained_size rs"
    if "\<forall>r \<in> set rs. retained (f r) \<longrightarrow> retained r \<and> size (f r) = size r" for rs
    using that by (induction rs) (auto simp: upd_row_def)
  then show ?thesis using cap msgs r by (fastforce simp: within_capacity_def)
qed

lemma size_updates [simp]:
  "size (expire_row now r) = size r" "size (start_row now r) = size r"
  "size (finish_row now st err delay r) = size r" "size (retry_row now r) = size r"
  "size (cancel_row now r) = size r"
  by (simp_all add: row_defs Let_def)

lemma capacity_step:
  assumes inv: "store_inv d" and cap: "within_capacity cfg d" and st: "store_step cfg e d d'"
  shows "within_capacity cfg d'"
  using st
proof (cases rule: store_stepE)
  case (st_open version now)
  then show ?thesis using cap
    by (simp add: within_capacity_def open_db_Inr retained_map_recover)
next
  case (st_insert healthy free now batch vs)
  from st_insert(2) show ?thesis
  proof (cases rule: insert_batch_cases)
    case refused
    then show ?thesis using cap by simp
  next
    case (stored oks as)
    then show ?thesis
      using admit_bounds [OF stored(3)] cap store_invD(3) [OF inv]
      by (simp add: within_capacity_def counters_ok_def new_rows del: map_map)
  qed
next
  case (st_claim now res)
  from st_claim(2) show ?thesis
    by (cases rule: claim_cases)
      (use cap in \<open>auto intro: capacity_update [OF inv cap] simp: retained_def\<close>)
next
  case (st_finish now j st err delay cooldown)
  from st_finish(2) have "messages d' = upd_row j (finish_row now st err delay) (messages d)"
    by (rule finish_Inr)
  then show ?thesis by (rule capacity_update [OF inv cap]) (auto simp: retained_def split: if_splits)
next
  case (st_act now j action ack)
  from st_act(2) show ?thesis
    by (cases rule: act_Inr) (auto intro!: capacity_update [OF inv cap] simp: retained_def)
next
  case (st_set key v)
  then show ?thesis using cap by (simp add: within_capacity_def set_setting_def)
next
  case (st_house now ids)
  have "retained_count (filter P rs) \<le> retained_count rs \<and> retained_size (filter P rs) \<le> retained_size rs"
    for P rs by (induction rs) auto
  then show ?thesis using cap st_house
    by (auto simp: within_capacity_def housekeeping_def intro: order_trans)
qed

interpretation store_cap: inv_system "\<lambda>d. store_init cfg d \<and> within_capacity cfg d"
    "store_step cfg" "\<lambda>d. store_inv d \<and> within_capacity cfg d" for cfg
  by unfold_locales (auto intro: store_sys.init_inv store_step_inv capacity_step)

text \<open>
  C22: The queue never holds more than it was configured for: in every reachable database the
  number of retained bodies is at most \<open>max_messages\<close> and their octets are at most
  \<open>max_bytes\<close>, with the two limits not negative, whatever batches arrive.
\<close>

theorem queue_within_capacity:
  assumes "reach (store_init cfg) (store_step cfg) d"
    and "0 \<le> q_max_messages (cfg_queue cfg)" and "0 \<le> q_max_bytes (cfg_queue cfg)"
  shows "int (length (filter (\<lambda>r. mime r \<noteq> None) (messages d))) \<le> q_max_messages (cfg_queue cfg)
    \<and> sum_list (map (\<lambda>r. int (size r)) (filter (\<lambda>r. mime r \<noteq> None) (messages d)))
        \<le> q_max_bytes (cfg_queue cfg)"
proof -
  have "reach (\<lambda>d. store_init cfg d \<and> within_capacity cfg d) (store_step cfg) d"
    using assms(1)
  proof (induction rule: reach.induct)
    case (reach_init d)
    moreover from this have "messages d = []"
      by (auto simp: store_init_def open_db_Inr empty_db_def)
    then have "within_capacity cfg d" using assms(2,3) by (simp add: within_capacity_def)
    ultimately show ?case by (intro reach.reach_init) simp
  next
    case (reach_step s e t)
    from reach_step(3) show ?case by (rule reach.reach_step) (rule reach_step(2))
  qed
  then have "within_capacity cfg d" using store_cap.reach_inv by blast
  moreover have "filter (\<lambda>r. mime r \<noteq> None) rs = filter retained rs" for rs
    by (rule filter_cong) (simp_all add: retained_def)
  ultimately show ?thesis
    by (simp only: within_capacity_def retained_count_def retained_size_def)
qed

theorem queue_within_capacity_witness:
  "int (length (filter (\<lambda>r. mime r \<noteq> None) (messages demo_claimed))) \<le> 100000
    \<and> sum_list (map (\<lambda>r. int (size r)) (filter (\<lambda>r. mime r \<noteq> None) (messages demo_claimed)))
        \<le> 5 * 1024 ^ 3"
  using queue_within_capacity [OF demo_reach(2)] by (simp add: demo_defs)

text \<open>
   The daily budget holds at every attempt.  When a claim hands out a message under a
  recipient limit, the recipients the mailbox has reserved or used in the last 24 hours,
  this message included, do not exceed the limit.
\<close>

theorem claim_within_budget:
  assumes "claim cfg now d = Inr (d', Some m)" and "d_recipient_limit_24h (cfg_delivery cfg) \<noteq> 0"
  shows "quota_used (quota_mailbox cfg) now (quota d') \<le> d_recipient_limit_24h (cfg_delivery cfg)
    \<and> quota_used (quota_mailbox cfg) now (quota d') =
        quota_used (quota_mailbox cfg) now (quota d) + int (recipient_count m)"
proof -
  from assms(1) obtain r where "m = r\<lparr>attempts := attempts r + 1\<rparr>" "\<not> over_budget cfg now r d"
    "quota d' = quota d @ [reservation cfg now r]" by (rule claim_gives) simp
  then show ?thesis using assms(2)
    by (simp add: over_budget_def quota_used_def reservation_def)
qed

theorem claim_within_budget_witness:
  "quota_used ''gw@x.y'' 1 (quota demo_claimed) \<le> 10000
   \<and> quota_used ''gw@x.y'' 1 (quota demo_claimed) = quota_used ''gw@x.y'' 1 (quota demo_stored) + 1"
proof -
  have q: "quota_mailbox demo_cfg = ''gw@x.y''" "d_recipient_limit_24h (cfg_delivery demo_cfg) = 10000"
    by code_simp+
  have "recipient_count ((new_row 0 demo_pm)\<lparr>attempts := 1\<rparr>) = 1" by code_simp
  then show ?thesis using claim_within_budget [OF demo_claimed_eq] by (simp add: q)
qed

section \<open>Order of delivery\<close>

lemma arg_min_list_min: "x \<in> set xs \<Longrightarrow> f (arg_min_list f xs) \<le> (f x :: 'b :: linorder)"
  using f_arg_min_list_f [of xs f] by (cases xs) auto

lemma first_ready_min:
  assumes "first_ready st now rs = Some r" "x \<in> set rs" "ready st now x"
  shows "ready_key r \<le> ready_key x"
proof -
  have x: "x \<in> set (filter (ready st now) rs)" using assms(2,3) by simp
  from assms(1) have "r = arg_min_list ready_key (filter (ready st now) rs)"
    by (auto simp: first_ready_def split: list.splits)
  then show ?thesis using arg_min_list_min [OF x, of ready_key] by simp
qed

lemma first_ready_None: "first_ready st now rs = None \<longleftrightarrow> (\<forall>x \<in> set rs. \<not> ready st now x)"
  by (auto simp: first_ready_def filter_empty_conv dest: filter_eq_ConsD split: list.splits)

lemma next_row_min:
  assumes "next_row now d = Some r" "x \<in> set (messages d)" "status x \<in> {Queued, Retry}"
    "py_le (next_attempt x) (Fin now)"
  shows "ready_key r \<le> ready_key x"
proof -
  have x: "ready (status x) now x" using assms(4) by (simp add: ready_def)
  then obtain y where y: "first_ready (status x) now (messages d) = Some y"
    using assms(2) first_ready_None [of "status x" now "messages d"]
    by (cases "first_ready (status x) now (messages d)") auto
  then have "y \<in> set (candidates now (messages d))"
    using assms(3) by (auto simp: candidates_def List.map_filter_def split: option.splits)
  moreover have "r = arg_min_list ready_key (candidates now (messages d))"
    using assms(1) by (auto simp: next_row_def split: list.splits)
  ultimately have "ready_key r \<le> ready_key y" using arg_min_list_min by metis
  then show ?thesis using first_ready_min [OF y assms(2) x] by simp
qed

text \<open>
   The two index seeks of \<open>_claim\<close> find the right row: the message handed out is due, was
  queued or waiting for a retry, and no other due message of either state comes before it in
  the order of (\<open>next_attempt\<close>, \<open>created\<close>); its row goes in flight with one attempt more, a
  reservation for its recipients is added, and every other row is unchanged.
\<close>

theorem claim_hands_out_earliest:
  assumes "store_inv d" and "claim cfg now d = Inr (d', Some m)"
  shows "(\<exists>r. find_row (m_id m) (messages d) = Some r \<and> m = r\<lparr>attempts := attempts r + 1\<rparr>
      \<and> status r \<in> {Queued, Retry} \<and> py_le (next_attempt r) (Fin now)
      \<and> (\<forall>x. find_row (m_id x) (messages d) = Some x \<and> status x \<in> {Queued, Retry} \<and>
            py_le (next_attempt x) (Fin now) \<longrightarrow>
            (next_attempt r, created r) \<le> (next_attempt x, created x))
      \<and> find_row (m_id m) (messages d') =
          Some (r\<lparr>status := Sending, attempts := attempts r + 1, updated := now\<rparr>))
    \<and> (\<forall>j. j \<noteq> m_id m \<longrightarrow> find_row j (messages d') = find_row j (messages d))"
proof -
  from assms(2) obtain r where r: "next_row now d = Some r" "m = r\<lparr>attempts := attempts r + 1\<rparr>"
    "r \<in> set (messages d)" "status r \<in> {Queued, Retry}" "py_le (next_attempt r) (Fin now)"
    "messages d' = upd_row (m_id r) (start_row now) (messages d)" by (rule claim_gives) simp
  have id: "m_id m = m_id r" using r(2) by simp
  have f: "find_row (m_id r) (messages d) = Some r" by (rule store_inv_find [OF assms(1) r(3)])
  have after: "find_row j (messages d') =
      map_option (\<lambda>x. if j = m_id r then start_row now x else x) (find_row j (messages d))" for j
    using r(6) by (simp add: find_upd_row)
  have min: "(next_attempt r, created r) \<le> (next_attempt x, created x)"
    if "find_row (m_id x) (messages d) = Some x" "status x \<in> {Queued, Retry}"
      "py_le (next_attempt x) (Fin now)" for x
    using next_row_min [OF r(1) _ that(2,3)] find_row_Some_mem [OF that(1)] by (simp add: ready_key_def)
  have "find_row j (messages d') = find_row j (messages d)" if "j \<noteq> m_id r" for j
    using after [of j] that by (cases "find_row j (messages d)") auto
  moreover have "find_row (m_id r) (messages d') = Some (start_row now r)" using after f by simp
  ultimately show ?thesis unfolding id using f r(2,4,5) min by (auto simp: start_row_def)
qed

theorem claim_hands_out_earliest_witness:
  "find_row ''a'' (messages demo_claimed) =
     Some ((new_row 0 demo_pm)\<lparr>status := Sending, attempts := 1, updated := 1\<rparr>)
   \<and> find_row ''b'' (messages demo_claimed) = find_row ''b'' (messages demo_stored)"
proof -
  have id: "m_id ((new_row 0 demo_pm)\<lparr>attempts := 1\<rparr>) = ''a''" by code_simp
  have r: "find_row ''a'' (messages demo_stored) = Some (new_row 0 demo_pm)"
    using demo_rows(1) by (simp add: row_after_def)
  show ?thesis
    using claim_hands_out_earliest [OF demo_inv(1) demo_claimed_eq] unfolding id r
    by (auto simp: new_row_def)
qed

section \<open>The group commit\<close>

lemma zip_filter_nth:
  assumes "length oks = length ms" "k < length ms" "oks ! k"
  shows "ms ! k \<in> set (map snd (filter fst (zip oks ms)))"
proof -
  have "(oks ! k, ms ! k) \<in> set (zip oks ms)" using assms by (auto simp: set_zip)
  then show ?thesis using assms(3) by force
qed

lemma find_new_row:
  assumes "distinct (map pm_id as)" "m \<in> set as"
  shows "find_row (pm_id m) (map (new_row now) as) = Some (new_row now m)"
proof -
  have "find_row (m_id (new_row now m)) (map (new_row now) as) = Some (new_row now m)"
    by (rule find_row_mem) (use assms in auto)
  then show ?thesis by simp
qed

text \<open>
  The verdicts of a group commit: the database afterwards is the old one followed by the new rows
  of exactly the acknowledged messages.
\<close>

lemma insert_batch_ack:
  assumes "insert_batch cfg healthy free now batch d = Inr (d', vs)"
  shows "length vs = length batch
    \<and> messages d' = messages d @
        map (new_row now) (map snd (filter (\<lambda>(v, m). v = None) (zip vs batch)))
    \<and> (\<forall>k < length batch. vs ! k = None \<longrightarrow>
        (\<exists>r. find_row (pm_id (batch ! k)) (messages d') = Some r \<and> status r = Queued
          \<and> mime r = Some (pm_mime (batch ! k)) \<and> recipients r = pm_recipients (batch ! k)))"
  using assms
proof (cases rule: insert_batch_cases)
  case (refused why)
  have "filter (\<lambda>(v, m). v = None) (zip (map (\<lambda>_. Some why) batch) batch) = []"
    by (auto simp: filter_empty_conv set_zip)
  with refused show ?thesis by simp
next
  case (stored oks as)
  have len: "length oks = length batch" by (rule admit_length [OF stored(3)])
  have as: "as = map snd (filter fst (zip oks batch))" by (rule admit_accepted [OF stored(3)])
  have eq: "filter (\<lambda>(v, m). v = None) (zip (map verdict_of oks) batch) =
      map (\<lambda>(b, m). (verdict_of b, m)) (filter fst (zip oks batch))"
    by (simp add: zip_map1 filter_map comp_def verdict_of_def case_prod_unfold cong: if_cong)
  have "map snd (filter (\<lambda>(v, m). v = None) (zip vs batch)) = as"
    unfolding stored(7) eq as by (simp add: comp_def case_prod_unfold)
  then have msgs: "messages d' = messages d @
      map (new_row now) (map snd (filter (\<lambda>(v, m). v = None) (zip vs batch)))"
    using stored(6) by simp
  have row: "find_row (pm_id (batch ! k)) (messages d') = Some (new_row now (batch ! k))"
    if k: "k < length batch" "vs ! k = None" for k
  proof -
    have "oks ! k" using k stored(7) len by (auto simp: verdict_of_def split: if_splits)
    then have m: "batch ! k \<in> set as" using zip_filter_nth [OF len k(1)] as by simp
    then have "find_row (pm_id (batch ! k)) (messages d) = None"
      using stored(5) by (auto simp: find_row_None)
    then show ?thesis
      using find_new_row [OF stored(4) m] stored(6) by (simp add: find_row_append)
  qed
  show ?thesis using len stored(7) msgs row by (auto simp: new_row_def)
qed

end
