(* ===== verification/Gw_Store_Control.thy ===== *)
theory Gw_Store_Control
  imports Gw_Store_Props
begin

text \<open>
  Start-up recovery, the persisted cooldown, the recorded results of attempts, and the
  operator's actions: functional behaviour on every branch, and two consequences of the code
  that limit delivery (a back-off without end, and a message larger than the daily budget).
\<close>

section \<open>Recovery\<close>

text \<open>
   Restarting is safe at any point.  Whatever well-formed file a stopped process left behind,
  opening it yields a consistent database in which nothing is in flight and nothing is
  reserved: every interrupted attempt is \<open>uncertain\<close> with its body kept, the recipients of
  every reservation still count against the quota, and no other row changes.
\<close>

theorem open_recovers:
  assumes "distinct (map m_id (messages d))" and "list_all row_ok (messages d)"
    and "open_db cfg version now d = Inr d'"
  shows "store_inv d' \<and> reserved d' = []
    \<and> list_all2 (\<lambda>r r'. m_id r' = m_id r \<and> mime r' = mime r \<and>
          (if status r = Sending then status r' = UncertainSt else r' = r)) (messages d) (messages d')
    \<and> quota_used mbox t (quota d') = quota_used mbox t (quota d)"
proof -
  have ok: "file_ok d" using assms(1,2) by (simp add: file_ok_def)
  note o = open_db_Inr [OF assms(3)]
  have q: "quota_used mbox t (map recover_quota qs) = quota_used mbox t qs" for qs
    by (induction qs) (auto simp: quota_used_def recover_quota_def)
  have "reserved d' = []" by (auto simp: reserved_def o recover_quota_def filter_empty_conv)
  moreover have "list_all2 (\<lambda>r r'. m_id r' = m_id r \<and> mime r' = mime r \<and>
          (if status r = Sending then status r' = UncertainSt else r' = r)) rs (map (recover_row now) rs)"
    for rs by (induction rs) (auto simp: recover_row_def)
  ultimately show ?thesis using open_inv [OF ok assms(3)] q by (simp add: o)
qed

theorem open_recovers_witness:
  "\<exists>d'. open_db demo_cfg 1 5 demo_claimed = Inr d' \<and> store_inv d' \<and> reserved d' = []
     \<and> map status (messages d') = [UncertainSt]"
proof -
  have e: "open_db demo_cfg 1 5 demo_claimed = Inr (projr (open_db demo_cfg 1 5 demo_claimed))"
    unfolding demo_claimed_def demo_stored_def demo_open_def by code_simp
  have s: "map status (messages (projr (open_db demo_cfg 1 5 demo_claimed))) = [UncertainSt]"
    unfolding demo_claimed_def demo_stored_def demo_open_def by code_simp
  note o = open_recovers [OF store_invD(1,2) [OF demo_inv(2)] e, where mbox="[]" and t=0]
  show ?thesis
    by (intro exI [of _ "projr (open_db demo_cfg 1 5 demo_claimed)"] conjI e s
        conjunct1 [OF o] conjunct1 [OF conjunct2 [OF o]])
qed

section \<open>The cooldown\<close>

definition cooldown_of :: "db \<Rightarrow> sval" where
  "cooldown_of d = tab_get (SFloat (Fin 0)) ''cooldown_until'' (settings d)"

text \<open>The cooldown as a step may change it: only a result with a global cooldown moves it, and
  never back.\<close>

lemma cooldown_step:
  assumes "store_step cfg e d d'" "cooldown_of d = SFloat c" "c \<noteq> NaN"
  shows "\<exists>c'. cooldown_of d' = SFloat c' \<and> c' \<noteq> NaN \<and> c \<le> c'"
  using assms(1)
proof (cases rule: store_stepE)
  case (st_open version now)
  then show ?thesis using assms(2,3) by (simp add: cooldown_of_def open_db_Inr(5))
next
  case (st_insert healthy free now batch vs)
  then show ?thesis using assms(2,3) insert_settings by (simp add: cooldown_of_def)
next
  case (st_claim now res)
  then show ?thesis using assms(2,3) claim_settings by (simp add: cooldown_of_def)
next
  case (st_finish now i st err delay cooldown)
  from st_finish(2) show ?thesis
  proof (rule finish_Inr)
    assume "delay \<noteq> NaN"
      and s: "settings d' = (if cooldown
       then tab_set ''cooldown_until'' (SFloat (py_max (py_add (Fin now) delay)
              (projr (float_setting ''cooldown_until'' d)))) (settings d)
       else settings d)"
    then have n: "py_add (Fin now) delay \<noteq> NaN" by (cases delay) auto
    have "projr (float_setting ''cooldown_until'' d) = c"
      using assms(2) by (simp add: float_setting_def cooldown_of_def)
    then show ?thesis using s assms(2,3) n
      by (auto simp: cooldown_of_def intro: py_max_ge2 dest: py_max_not_NaN)
  qed
next
  case (st_act now i action ack)
  then show ?thesis using assms(2,3) act_settings by (simp add: cooldown_of_def)
next
  case (st_set key v)
  then show ?thesis using assms(2,3) by (auto simp: cooldown_of_def set_setting_def operator_keys_def)
next
  case (st_house now ids)
  then show ?thesis using assms(2,3) by (simp add: cooldown_of_def housekeeping_def)
qed

lemma cooldown_run:
  assumes "run (store_step cfg) d xs" "cooldown_of d = SFloat c" "c \<noteq> NaN"
  shows "\<exists>c'. cooldown_of (final d xs) = SFloat c' \<and> c' \<noteq> NaN \<and> c \<le> c'"
  using assms
proof (induction xs arbitrary: d c)
  case Nil
  then show ?case by auto
next
  case (Cons x xs)
  obtain e t where x: "x = (e, t)" by force
  with Cons.prems(1) have st: "store_step cfg e d t" "run (store_step cfg) t xs" by auto
  from cooldown_step [OF st(1) Cons.prems(2,3)] obtain c' where
    c': "cooldown_of t = SFloat c'" "c' \<noteq> NaN" "c \<le> c'" by blast
  from Cons.IH [OF st(2) c'(1,2)] c'(3) x show ?case by (auto intro: order_trans)
qed

lemma claim_in_cooldown:
  assumes "cooldown_of d = SFloat c" "py_lt (Fin now) c"
  shows "claim cfg now d = Inr (d, None)"
  using assms by (simp add: claim_def float_setting_def cooldown_of_def)

text \<open>
   A global cooldown holds.  Once a result with a global cooldown of \<open>delay\<close> seconds is
  recorded at time \<open>t\<close>, no claim before \<open>t + delay\<close> hands out any message, across every
  sequence of transactions and restarts, and no other back-off shortens it.
\<close>

theorem cooldown_blocks_claims:
  assumes "finish t i st err (Fin delay) True d = Inr d'"
    and "run (store_step cfg) d' xs" and "now < t + delay"
    and "cooldown_of d = SFloat c" and "c \<noteq> NaN"
  shows "claim cfg now (final d' xs) = Inr (final d' xs, None)"
proof -
  from assms(1) have "cooldown_of d' = SFloat (py_max (Fin (t + delay)) c)"
  proof (rule finish_Inr)
    assume "settings d' = (if True then tab_set ''cooldown_until'' (SFloat (py_max (py_add (Fin t) (Fin delay))
              (projr (float_setting ''cooldown_until'' d)))) (settings d) else settings d)"
    then show ?thesis using assms(4) by (simp add: cooldown_of_def float_setting_def)
  qed
  moreover have "py_max (Fin (t + delay)) c \<noteq> NaN" "Fin (t + delay) \<le> py_max (Fin (t + delay)) c"
    using py_max_not_NaN [of "Fin (t + delay)" c] py_max_ge1 [of "Fin (t + delay)" c] by simp_all
  ultimately obtain c' where c': "cooldown_of (final d' xs) = SFloat c'" "c' \<noteq> NaN" "Fin (t + delay) \<le> c'"
    using cooldown_run [OF assms(2)] order_trans by blast
  then have "py_lt (Fin now) c'"
    using assms(3) by (auto simp: py_lt_def intro: less_le_trans [where y = "Fin (t + delay)"])
  with c'(1) show ?thesis by (rule claim_in_cooldown)
qed

definition demo_throttled :: db where
  "demo_throttled = projr (finish 2 ''a'' Retry ''429'' (Fin 30) True demo_claimed)"

lemma demo_throttled_eq: "finish 2 ''a'' Retry ''429'' (Fin 30) True demo_claimed = Inr demo_throttled"
  unfolding demo_throttled_def demo_claimed_def demo_stored_def demo_open_def by code_simp

lemma demo_cooldown: "cooldown_of demo_claimed = SFloat (Fin 0)"
  unfolding demo_claimed_def demo_stored_def demo_open_def by code_simp

theorem cooldown_blocks_claims_witness:
  "finish 2 ''a'' Retry ''429'' (Fin 30) True demo_claimed = Inr demo_throttled
   \<and> claim demo_cfg 31 demo_throttled = Inr (demo_throttled, None)"
  using demo_throttled_eq
    cooldown_blocks_claims [OF demo_throttled_eq, where xs = "[]" and now = 31 and cfg = demo_cfg,
      OF _ _ demo_cooldown] by simp

text \<open>
   A back-off of infinite length is accepted and is permanent: a result recorded with delay
  \<open>inf\<close> and a global cooldown commits, and from then on no claim at any time hands out any
  message, whatever the operator does and however often the service restarts.
\<close>

theorem infinite_cooldown_is_permanent:
  assumes "find_row i (messages d) = Some r" and "status r = Sending"
    and "st \<in> {Submitted, Retry, Failed, UncertainSt}"
    and "cooldown_of d = SFloat c" and "c \<noteq> NaN"
  shows "\<exists>d'. finish t i st err PInf True d = Inr d' \<and>
    (\<forall>xs now. run (store_step cfg) d' xs \<longrightarrow> claim cfg now (final d' xs) = Inr (final d' xs, None))"
proof -
  have cd: "tab_get (SFloat (Fin 0)) ''cooldown_until'' (settings d) = SFloat c"
    using assms(4) by (simp add: cooldown_of_def)
  obtain d' where d': "finish t i st err PInf True d = Inr d'"
    using assms(1-3) cd
    by (auto simp: finish_def float_setting_def Let_def count_def release_counters_def)
  then have "cooldown_of d' = SFloat (py_max PInf c)"
  proof (rule finish_Inr)
    assume "settings d' = (if True then tab_set ''cooldown_until'' (SFloat (py_max (py_add (Fin t) PInf)
              (projr (float_setting ''cooldown_until'' d)))) (settings d) else settings d)"
    then show ?thesis using cd by (simp add: cooldown_of_def float_setting_def)
  qed
  then have inf: "cooldown_of d' = SFloat PInf" by (simp add: py_max_def)
  have "claim cfg now (final d' xs) = Inr (final d' xs, None)"
    if "run (store_step cfg) d' xs" for xs now
    using cooldown_run [OF that inf] claim_in_cooldown [of _ PInf now] by auto
  with d' show ?thesis by blast
qed

theorem infinite_cooldown_is_permanent_witness:
  "\<exists>d'. finish 2 ''a'' Retry ''busy'' PInf True demo_claimed = Inr d' \<and>
     claim demo_cfg (10 ^ 12) d' = Inr (d', None)"
proof -
  have r: "find_row ''a'' (messages demo_claimed) = Some (start_row 1 (new_row 0 demo_pm))"
    using demo_rows(2) by (simp add: row_after_def)
  obtain d' where d': "finish 2 ''a'' Retry ''busy'' PInf True demo_claimed = Inr d'"
    "\<And>xs now. run (store_step demo_cfg) d' xs \<Longrightarrow>
       claim demo_cfg now (final d' xs) = Inr (final d' xs, None)"
    using infinite_cooldown_is_permanent [OF r _ _ demo_cooldown, of Retry 2 "''busy''" demo_cfg] by auto
  from d'(2) [of "[]" "10 ^ 12"] d'(1) show ?thesis by auto
qed

section \<open>Results of attempts\<close>

lemma quota_used_counted:
  "st \<in> {Submitted, UncertainSt} \<Longrightarrow> quota_used mbox u (settle_quota i st qs) = quota_used mbox u qs"
  by (induction qs) (auto simp: quota_used_def settle_quota_def)

text \<open>
   Recording a result does what its status says.  It succeeds only for a message in flight;
  the row gets the status, the error cut to 500 characters and the next attempt time; the body
  goes exactly when the status is \<open>submitted\<close>; the reservation ends, and the recipients keep
  counting against the daily quota exactly when the message may have left (\<open>submitted\<close> or
  \<open>uncertain\<close>), while a retry or a failure gives them back.
\<close>

theorem finish_records_result:
  assumes "store_inv d" and "finish now i st err delay cooldown d = Inr d'"
  shows "(\<exists>r r'. find_row i (messages d) = Some r \<and> status r = Sending
      \<and> find_row i (messages d') = Some r' \<and> status r' = st \<and> error r' = take 500 err
      \<and> next_attempt r' = py_add (Fin now) delay \<and> attempts r' = attempts r
      \<and> mime r' = (if st = Submitted then None else mime r))
    \<and> i \<notin> q_message ` set (reserved d')
    \<and> (if st \<in> {Submitted, UncertainSt}
       then \<forall>mbox u. quota_used mbox u (quota d') = quota_used mbox u (quota d)
       else quota d' = filter (\<lambda>q. \<not> (q_message q = i \<and> q_state q = Reserved)) (quota d))"
  using assms(2)
proof (rule finish_Inr)
  fix r
  assume r: "find_row i (messages d) = Some r" "status r = Sending"
    "messages d' = upd_row i (finish_row now st err delay) (messages d)"
    and q: "quota d' = settle_quota i st (quota d)"
  have "find_row i (messages d') = Some (finish_row now st err delay r)"
    using r by (simp add: find_upd_row)
  then have "\<exists>r r'. find_row i (messages d) = Some r \<and> status r = Sending
      \<and> find_row i (messages d') = Some r' \<and> status r' = st \<and> error r' = take 500 err
      \<and> next_attempt r' = py_add (Fin now) delay \<and> attempts r' = attempts r
      \<and> mime r' = (if st = Submitted then None else mime r)"
    using r by (auto simp: finish_row_def Let_def)
  moreover have "i \<notin> q_message ` set (reserved d')"
    using reserved_settle [of i st d] q by (auto simp: reserved_def)
  ultimately show ?thesis
    using q quota_used_counted [of st] by (auto simp: settle_quota_def)
qed

theorem finish_records_result_witness:
  "finish 2 ''a'' Submitted [] (Fin 0) False demo_claimed = Inr demo_sent
   \<and> ''a'' \<notin> q_message ` set (reserved demo_sent)
   \<and> quota_used ''gw@x.y'' 2 (quota demo_sent) = quota_used ''gw@x.y'' 2 (quota demo_claimed)"
  using demo_sent_eq finish_records_result [OF demo_inv(2) demo_sent_eq] by simp

text \<open>
   A result is recorded once.  For a message that is not in flight (unknown, already settled,
  waiting, or turned \<open>uncertain\<close> by a restart) every attempt to record a result raises and
  changes nothing.
\<close>

theorem finish_rejects_stale:
  "(\<forall>r. find_row i (messages d) = Some r \<longrightarrow> status r \<noteq> Sending) \<Longrightarrow>
     st \<in> {Submitted, Retry, Failed, UncertainSt} \<Longrightarrow>
     finish now i st err delay cooldown d = Inl (RuntimeError ''Attempt is no longer in sending state'')"
  by (auto simp: finish_def split: option.splits)

theorem finish_rejects_stale_witness:
  "finish 3 ''a'' Retry [] (Fin 0) False demo_sent =
     Inl (RuntimeError ''Attempt is no longer in sending state'')"
  by (rule finish_rejects_stale) (use demo_sent_row in \<open>simp_all add: row_after_def\<close>)

section \<open>Operator actions\<close>

text \<open>
   An operator's request succeeds exactly when the life cycle allows it: the message exists,
  is not in flight, submitted or cancelled, the action is \<open>retry\<close> or \<open>cancel\<close>, and the retry of
  an uncertain send carries the acknowledgement.  A retry starts a fresh budget (no attempts,
  a new cycle, due at once) and keeps body and creation time; a cancellation drops the body.
\<close>

theorem action_follows_lifecycle:
  "(case act now i action ack d of
      Inl e \<Rightarrow> \<not> (\<exists>r t. find_row i (messages d) = Some r \<and> moves (EvAct now i action ack) i (status r) t)
    | Inr d' \<Rightarrow> (\<exists>r r'. find_row i (messages d) = Some r \<and> find_row i (messages d') = Some r'
        \<and> moves (EvAct now i action ack) i (status r) (status r')
        \<and> created r' = created r \<and> size r' = size r
        \<and> (if action = ''retry''
           then status r' = Queued \<and> attempts r' = 0 \<and> cycle_started r' = now
             \<and> next_attempt r' = Fin now \<and> mime r' = mime r
           else status r' = Cancelled \<and> mime r' = None)))"
proof (cases "act now i action ack d")
  case (Inl e)
  have "\<not> (\<exists>r t. find_row i (messages d) = Some r \<and> moves (EvAct now i action ack) i (status r) t)"
  proof
    assume "\<exists>r t. find_row i (messages d) = Some r \<and> moves (EvAct now i action ack) i (status r) t"
    then obtain r t where r: "find_row i (messages d) = Some r"
      "moves (EvAct now i action ack) i (status r) t" by blast
    with Inl show False by (auto simp: act_def split: if_split_asm)
  qed
  with Inl show ?thesis by simp
next
  case (Inr d')
  from Inr show ?thesis
  proof (cases rule: act_Inr)
    case (retry r)
    then have "find_row i (messages d') = Some (retry_row now r)" by (simp add: find_upd_row)
    with Inr retry show ?thesis by (auto simp: retry_row_def)
  next
    case (cancel r)
    then have "find_row i (messages d') = Some (cancel_row now r)" by (simp add: find_upd_row)
    with Inr cancel show ?thesis by (auto simp: cancel_row_def)
  qed
qed

section \<open>A message larger than the daily budget\<close>

text \<open>
   A message with more recipients than the daily limit blocks the queue: while it is the
  earliest due message and younger than the maximum age, every claim hands out nothing and
  changes nothing, even when no budget is used and smaller messages are due behind it.
\<close>

theorem oversized_message_blocks_queue:
  assumes "next_row now d = Some r" and "\<not> too_old cfg now r"
    and "0 < d_recipient_limit_24h (cfg_delivery cfg)"
    and "d_recipient_limit_24h (cfg_delivery cfg) < int (recipient_count r)"
  shows "claim cfg now d = Inr (d, None) \<or> (\<exists>e. claim cfg now d = Inl e)"
proof -
  have "0 \<le> quota_used (quota_mailbox cfg) now (quota d)"
    by (auto simp: quota_used_def intro!: sum_list_nonneg)
  then have over: "over_budget cfg now r d" using assms(3,4) by (simp add: over_budget_def)
  show ?thesis
  proof (cases "claim cfg now d")
    case (Inr p)
    obtain d' res where p: "p = (d', res)" by force
    from Inr p have "claim cfg now d = Inr (d', res)" by simp
    then have "d' = d \<and> res = None"
      by (cases rule: claim_cases) (use assms over in auto)
    then show ?thesis using Inr p by simp
  qed simp
qed

definition tight_cfg :: config where
  "tight_cfg = demo_cfg\<lparr>cfg_delivery := default_delivery\<lparr>d_recipient_limit_24h := 2\<rparr>\<rparr>"

definition demo_blocked :: db where
  "demo_blocked = demo_two\<lparr>messages :=
     [new_row 0 (demo_pm\<lparr>pm_recipients := [''u@x.y'', ''v@x.y'', ''w@x.y'']\<rparr>),
      new_row 1 (demo_pm\<lparr>pm_id := ''b''\<rparr>)]\<rparr>"

theorem oversized_message_blocks_queue_witness:
  "claim tight_cfg 100000 demo_blocked = Inr (demo_blocked, None)"
proof -
  let ?r = "new_row 0 (demo_pm\<lparr>pm_recipients := [''u@x.y'', ''v@x.y'', ''w@x.y'']\<rparr>)"
  have "next_row 100000 demo_blocked = Some ?r" "\<not> too_old tight_cfg 100000 ?r"
    "0 < d_recipient_limit_24h (cfg_delivery tight_cfg)"
    "d_recipient_limit_24h (cfg_delivery tight_cfg) < int (recipient_count ?r)"
    by code_simp+
  note b = oversized_message_blocks_queue [OF this]
  have "\<not> isl (claim tight_cfg 100000 demo_blocked)" by code_simp
  with b show ?thesis by auto
qed

end
