(* ===== verification/Gw_Store_Reads.thy ===== *)
theory Gw_Store_Reads
  imports Gw_Store "HOL-Library.List_Lexorder" "HOL-Library.Char_ord"
begin

text \<open>
  \<open>store.py\<close>, the read side: \<open>messages\<close> (the paged list of the administration page), \<open>export\<close>
  and \<open>stats\<close>.  Identifiers are compared octet by octet, as SQLite compares text.
\<close>

section \<open>\<open>messages\<close>\<close>

text \<open>The columns a listing shows: no octets, no recipients, no envelope.\<close>

record message_view =
  mv_id :: string
  mv_created :: rat
  mv_updated :: rat
  mv_status :: string
  mv_attempts :: nat
  mv_original_from :: string
  mv_recipient_count :: nat
  mv_subject :: string
  mv_message_id :: string
  mv_nat :: bool
  mv_size :: nat
  mv_error :: string
  mv_next_attempt :: pyfloat

definition view_of :: "row \<Rightarrow> message_view" where
  "view_of r = \<lparr>mv_id = m_id r, mv_created = created r, mv_updated = updated r,
     mv_status = status_name (status r), mv_attempts = attempts r,
     mv_original_from = original_from r, mv_recipient_count = recipient_count r,
     mv_subject = subject r, mv_message_id = message_id r, mv_nat = nat_flag r, mv_size = size r,
     mv_error = error r, mv_next_attempt = next_attempt r\<rparr>"

definition page_key :: "row \<Rightarrow> rat \<times> string" where
  "page_key r = (created r, m_id r)"

definition page_cond :: "string \<Rightarrow> pyfloat option \<Rightarrow> string \<Rightarrow> row \<Rightarrow> bool" where
  "page_cond st before before_id r =
     ((st = [] \<or> status_name (status r) = st) \<and>
      (case before of None \<Rightarrow> True
       | Some b \<Rightarrow> py_lt (Fin (created r)) b \<or> (Fin (created r) = b \<and> m_id r < before_id)))"

definition newest_first :: "row list \<Rightarrow> row list" where
  "newest_first rs = rev (sort_key page_key rs)"

definition page_limit :: "int \<Rightarrow> nat" where
  "page_limit limit = nat (min (max limit 1) 200)"

definition message_page ::
  "string \<Rightarrow> int \<Rightarrow> pyfloat option \<Rightarrow> string \<Rightarrow> db \<Rightarrow> message_view list" where
  "message_page st limit before before_id d =
     map view_of (take (page_limit limit)
       (newest_first (filter (page_cond st before before_id) (messages d))))"

section \<open>\<open>export\<close> and \<open>stats\<close>\<close>

definition export_mime :: "string \<Rightarrow> db \<Rightarrow> bytes option" where
  "export_mime i d = (case find_row i (messages d) of None \<Rightarrow> None | Some r \<Rightarrow> mime r)"

record queue_stats =
  qs_counters :: "(string \<times> int) list"
  qs_states :: "(string \<times> nat) list"
  qs_buckets :: "((int \<times> string) \<times> int) list"
  qs_oldest_pending :: rat
  qs_recipient_budget :: int
  qs_disk_free :: int
  qs_database_bytes :: int
  qs_healthy :: bool

definition all_states :: "mstatus list" where
  "all_states = [Cancelled, Failed, Queued, Retry, Sending, Submitted, UncertainSt]"

definition state_counts :: "row list \<Rightarrow> (string \<times> nat) list" where
  "state_counts rs = filter (\<lambda>p. snd p > 0)
     (map (\<lambda>st. (status_name st, length (filter (\<lambda>r. status r = st) rs))) all_states)"

definition charted :: "string list" where
  "charted = [''accepted'', ''submitted'', ''retry'', ''failed'', ''uncertain'']"

definition recent_buckets :: "rat \<Rightarrow> ((int \<times> string) \<times> int) list \<Rightarrow> ((int \<times> string) \<times> int) list" where
  "recent_buckets now bs = sort_key (\<lambda>b. fst (fst b))
     (filter (\<lambda>b. fst (fst b) \<ge> minute_of now - 3540 \<and> snd (fst b) \<in> set charted) bs)"

definition oldest_pending :: "rat \<Rightarrow> row list \<Rightarrow> rat" where
  "oldest_pending now rs =
     (case map created (filter (\<lambda>r. status r \<in> {Queued, Retry, Sending}) rs) of
        [] \<Rightarrow> 0 | c # cs \<Rightarrow> now - fold min cs c)"

definition stats :: "config \<Rightarrow> bool \<Rightarrow> int \<Rightarrow> int \<Rightarrow> rat \<Rightarrow> db \<Rightarrow> queue_stats" where
  "stats cfg healthy free file_bytes now d =
     \<lparr>qs_counters = counters d, qs_states = state_counts (messages d),
      qs_buckets = recent_buckets now (buckets d),
      qs_oldest_pending = oldest_pending now (messages d),
      qs_recipient_budget = quota_used (quota_mailbox cfg) now (quota d),
      qs_disk_free = free, qs_database_bytes = file_bytes, qs_healthy = healthy\<rparr>"

section \<open>Paging\<close>

text \<open>Iterating the listing the way the page does: the next page starts before the last row shown.\<close>

fun pages :: "nat \<Rightarrow> string \<Rightarrow> int \<Rightarrow> pyfloat option \<Rightarrow> string \<Rightarrow> db \<Rightarrow> message_view list" where
  "pages 0 st limit before bid d = []"
| "pages (Suc n) st limit before bid d =
     (let p = message_page st limit before bid d
      in if p = [] then []
         else p @ pages n st limit (Some (Fin (mv_created (last p)))) (mv_id (last p)) d)"

lemma page_limit_pos [simp]: "0 < page_limit l"
  by (simp add: page_limit_def)

lemma page_cond_next:
  "page_cond st (Some (Fin (created q))) (m_id q) r \<longleftrightarrow>
     page_cond st None [] r \<and> page_key r < page_key q"
  by (auto simp: page_cond_def page_key_def less_prod_def')

text \<open>A sorted list without repeated keys: what lies below a key is the tail after it.\<close>

lemma filter_below_rev_sorted:
  assumes "sorted_wrt (\<lambda>x y. f y < f x) (xs @ q # ys)"
  shows "filter (\<lambda>r. f r < (f q :: 'a::linorder)) (xs @ q # ys) = ys"
proof -
  have "filter (\<lambda>r. f r < f q) xs = []"
    using assms by (auto simp: sorted_wrt_append filter_empty_conv dest: less_asym)
  moreover have "filter (\<lambda>r. f r < f q) ys = ys"
    using assms by (auto simp: sorted_wrt_append intro!: filter_True)
  ultimately show ?thesis by simp
qed

lemma newest_first_sorted:
  assumes "distinct (map m_id rs)"
  shows "sorted_wrt (\<lambda>x y. page_key y < page_key x) (newest_first rs)"
proof -
  have d: "distinct (map page_key rs)"
    using assms by (auto simp: distinct_map page_key_def inj_on_def)
  have "sorted (map page_key (sort_key page_key rs))" by simp
  moreover have "distinct (map page_key (sort_key page_key rs))"
    using d by (simp add: distinct_map)
  ultimately have "sorted_wrt (<) (map page_key (sort_key page_key rs))"
    by (simp add: strict_sorted_iff)
  then show ?thesis
    by (simp add: newest_first_def sorted_wrt_rev sorted_wrt_map)
qed

lemma filter_newest_first: "filter P (newest_first rs) = newest_first (filter P rs)"
  by (simp add: newest_first_def rev_filter [symmetric] filter_sort)

definition listing :: "string \<Rightarrow> db \<Rightarrow> row list" where
  "listing st d = newest_first (filter (page_cond st None []) (messages d))"

lemma listing_sorted:
  "distinct (map m_id (messages d)) \<Longrightarrow> sorted_wrt (\<lambda>x y. page_key y < page_key x) (listing st d)"
  unfolding listing_def by (rule newest_first_sorted) (auto simp: distinct_map_filter)

text \<open>A page that starts after a row of the listing shows what follows that row.\<close>

lemma next_page:
  assumes "distinct (map m_id (messages d))" and "listing st d = xs @ q # ys"
  shows "message_page st limit (Some (Fin (created q))) (m_id q) d
     = map view_of (take (page_limit limit) ys)"
proof -
  have "newest_first (filter (page_cond st (Some (Fin (created q))) (m_id q)) (messages d))
      = filter (\<lambda>r. page_key r < page_key q) (listing st d)"
    by (auto simp: listing_def filter_newest_first page_cond_next
        intro!: arg_cong [where f = newest_first] filter_cong)
  also have "\<dots> = ys"
    using filter_below_rev_sorted [of page_key xs q ys] listing_sorted [OF assms(1), of st] assms(2)
    by simp
  finally show ?thesis by (simp add: message_page_def)
qed

lemma pages_after:
  assumes "distinct (map m_id (messages d))" and "listing st d = xs @ q # ys"
    and "length ys \<le> n"
  shows "pages n st limit (Some (Fin (created q))) (m_id q) d = map view_of ys"
  using assms(2,3)
proof (induction n arbitrary: xs q ys)
  case (Suc n)
  note p = next_page [OF assms(1) Suc.prems(1), of limit]
  show ?case
  proof (cases ys)
    case Nil
    then show ?thesis using p by simp
  next
    case (Cons y ys')
    let ?k = "page_limit limit"
    let ?t = "take ?k ys"
    have ne: "?t \<noteq> []" using Cons by simp
    have ys: "ys = butlast ?t @ last ?t # drop ?k ys"
      using append_butlast_last_id [OF ne] append_take_drop_id [of ?k ys]
      by (metis append.assoc append_Cons append_Nil)
    then have l: "listing st d = (xs @ q # butlast ?t) @ last ?t # drop ?k ys"
      using Suc.prems(1) by simp
    have "length (drop ?k ys) \<le> n" using Suc.prems(2) page_limit_pos [of limit] unfolding length_drop by linarith
    from Suc.IH [OF l this]
    have "pages n st limit (Some (Fin (created (last ?t)))) (m_id (last ?t)) d
        = map view_of (drop ?k ys)" .
    moreover have "last (map view_of ?t) = view_of (last ?t)" using ne by (simp add: last_map)
    ultimately show ?thesis
      using p ne Cons by (simp add: Let_def view_of_def flip: map_append)
  qed
qed simp

lemma pages_all:
  assumes "distinct (map m_id (messages d))" and "length (listing st d) \<le> n"
  shows "pages (Suc n) st limit None [] d = map view_of (listing st d)"
proof (cases "listing st d")
  case Nil
  then show ?thesis by (simp add: message_page_def listing_def)
next
  case (Cons y ys')
  let ?k = "page_limit limit" and ?l = "listing st d"
  have ne: "take ?k ?l \<noteq> []" using Cons by simp
  have l: "?l = butlast (take ?k ?l) @ last (take ?k ?l) # drop ?k ?l"
    using append_butlast_last_id [OF ne] append_take_drop_id [of ?k ?l]
    by (metis append.assoc append_Cons append_Nil)
  have "length (drop ?k ?l) \<le> n" using assms(2) by simp
  from pages_after [OF assms(1) l this]
  have "pages n st limit (Some (Fin (created (last (take ?k ?l))))) (m_id (last (take ?k ?l))) d
      = map view_of (drop ?k ?l)" .
  moreover have "last (map view_of (take ?k ?l)) = view_of (last (take ?k ?l))"
    using ne by (simp add: last_map)
  moreover have "message_page st limit None [] d = map view_of (take ?k ?l)"
    by (simp add: message_page_def listing_def)
  ultimately show ?thesis
    using ne Cons by (simp add: Let_def view_of_def flip: map_append)
qed

text \<open>
   Paging through the message list is complete.  Following the pages, each started before the
  last row of the one before, shows every row of the wanted status exactly once, newest first,
  whatever page size the client asks for (it is clamped to 1..200).
\<close>

theorem paging_complete:
  assumes "distinct (map m_id (messages d))" and "length (messages d) \<le> n"
  shows "\<exists>rs. pages (Suc n) st limit None [] d = map view_of rs \<and> distinct rs
     \<and> set rs = {r. r \<in> set (messages d) \<and> (st = [] \<or> status_name (status r) = st)}
     \<and> sorted_wrt (\<lambda>x y. page_key y < page_key x) rs"
proof (intro exI [of _ "listing st d"] conjI)
  have s: "set (listing st d) = {r. r \<in> set (messages d) \<and> (st = [] \<or> status_name (status r) = st)}"
    by (auto simp: listing_def newest_first_def page_cond_def)
  then show "set (listing st d) = {r. r \<in> set (messages d) \<and> (st = [] \<or> status_name (status r) = st)}" .
  have "length (listing st d) \<le> n"
    using assms(2) le_trans [OF length_filter_le] by (auto simp: listing_def newest_first_def)
  then show "pages (Suc n) st limit None [] d = map view_of (listing st d)"
    by (rule pages_all [OF assms(1)])
  show "sorted_wrt (\<lambda>x y. page_key y < page_key x) (listing st d)"
    by (rule listing_sorted [OF assms(1)])
  have "distinct (messages d)" using assms(1) by (rule distinct_map [THEN iffD1, THEN conjunct1])
  then show "distinct (listing st d)" by (simp add: listing_def newest_first_def)
qed

definition listed_row :: "string \<Rightarrow> rat \<Rightarrow> mstatus \<Rightarrow> row" where
  "listed_row i t st = (new_row t \<lparr>pm_id = i, pm_mime = [], pm_recipients = [],
     pm_envelope_sender = [], pm_original_from = [], pm_subject = [], pm_message_id = [],
     pm_nat = False\<rparr>)\<lparr>status := st\<rparr>"

definition listed_db :: db where
  "listed_db = empty_db\<lparr>messages := [listed_row ''a'' 3 Queued, listed_row ''b'' 5 Failed,
     listed_row ''d'' 3 Queued]\<rparr>"

theorem paging_complete_witness:
  "pages 4 ''queued'' 0 None [] listed_db
     = map view_of [listed_row ''d'' 3 Queued, listed_row ''a'' 3 Queued]
   \<and> (\<exists>rs. pages 4 ''queued'' 0 None [] listed_db = map view_of rs \<and> distinct rs)"
proof
  show "pages 4 ''queued'' 0 None [] listed_db
     = map view_of [listed_row ''d'' 3 Queued, listed_row ''a'' 3 Queued]" by code_simp
  have "distinct (map m_id (messages listed_db))" "length (messages listed_db) \<le> 3" by code_simp+
  from paging_complete [OF this, of "''queued''" 0]
  show "\<exists>rs. pages 4 ''queued'' 0 None [] listed_db = map view_of rs \<and> distinct rs"
    unfolding numeral_eq_Suc by auto
qed

end
