(* ===== verification/Gw_Queue.thy ===== *)
theory Gw_Queue
  imports Gw_Store_Props
begin

text \<open>
  \<open>store.py\<close>, the asynchronous side: \<open>submit\<close>, the commit writer \<open>_writer\<close> with its group
  commit, and \<open>close\<close>.  A submission waits in a bounded queue, the writer takes a batch and runs
  \<open>_insert_batch\<close> as one job, and every submission's future gets a result: the queue ID, or
  \<open>QueueUnavailable\<close>.  The writer's position in its loop is part of the state, so that
  submissions, other database jobs and \<open>close\<close> interleave with it at every \<open>await\<close>.
\<close>

section \<open>State\<close>

text \<open>A future is a number; its result is the queue ID, or the text of \<open>QueueUnavailable\<close>.\<close>

datatype outcome = Acked string | Refused string

record submission =
  sub_future :: nat
  sub_message :: prepared_message

text \<open>
  Where the writer stands: waiting for a first item, asleep with it for \<open>batch_seconds\<close>, in the
  insert job with its batch (and whether the stop mark was met), or returned.
\<close>

datatype writer_state = Waiting | Holding submission | Committing "submission list" bool | Stopped

record queue_state =
  sq_accepting :: bool
  sq_healthy :: bool
  sq_closing :: bool
  sq_stop_sent :: bool
  sq_pending :: "submission option list"
  sq_writer :: writer_state
  sq_db :: db
  sq_outcomes :: "(nat \<times> outcome) list"
  sq_next :: nat

definition queue_start :: "db \<Rightarrow> queue_state" where
  "queue_start d = \<lparr>sq_accepting = True, sq_healthy = True, sq_closing = False,
     sq_stop_sent = False, sq_pending = [], sq_writer = Waiting, sq_db = d, sq_outcomes = [],
     sq_next = 0\<rparr>"

section \<open>\<open>submit\<close>\<close>

definition pending_full :: "config \<Rightarrow> queue_state \<Rightarrow> bool" where
  "pending_full cfg s = (q_pending_submissions (cfg_queue cfg) > 0 \<and>
     int (length (sq_pending s)) \<ge> q_pending_submissions (cfg_queue cfg))"

definition submit :: "config \<Rightarrow> prepared_message \<Rightarrow> queue_state \<Rightarrow> (queue_state \<times> nat) res" where
  "submit cfg m s =
     (if \<not> sq_accepting s \<or> \<not> sq_healthy s
      then Inl (QueueUnavailable ''Queue is not accepting messages'')
      else if pending_full cfg s then Inl (QueueUnavailable ''Submission queue is full'')
      else Inr (s\<lparr>sq_pending := sq_pending s @ [Some \<lparr>sub_future = sq_next s, sub_message = m\<rparr>],
                  sq_next := Suc (sq_next s)\<rparr>, sq_next s))"

section \<open>\<open>_writer\<close>\<close>

text \<open>Filling the batch: at most \<open>k\<close> more items, stopping at an empty queue or the stop mark.\<close>

fun gather :: "nat \<Rightarrow> 'a option list \<Rightarrow> 'a list \<times> bool \<times> 'a option list" where
  "gather 0 p = ([], False, p)"
| "gather (Suc k) [] = ([], False, [])"
| "gather (Suc k) (None # p) = ([], True, p)"
| "gather (Suc k) (Some x # p) = (let (b, st, r) = gather k p in (x # b, st, r))"

text \<open>What the insert job meets: a fault of the database, the free disk space, the clock.\<close>

record job_env =
  je_fault :: bool
  je_free :: int
  je_now :: rat

definition insert_job ::
  "config \<Rightarrow> job_env \<Rightarrow> bool \<Rightarrow> prepared_message list \<Rightarrow> db \<Rightarrow> (db \<times> verdict list) res" where
  "insert_job cfg env healthy batch d =
     (if je_fault env then Inl (OtherExc ''OperationalError'')
      else insert_batch cfg healthy (je_free env) (je_now env) batch d)"

definition outcome_of :: "submission \<Rightarrow> verdict \<Rightarrow> nat \<times> outcome" where
  "outcome_of x v = (sub_future x,
     case v of None \<Rightarrow> Acked (pm_id (sub_message x)) | Some t \<Rightarrow> Refused t)"

definition commit_batch ::
  "config \<Rightarrow> job_env \<Rightarrow> submission list \<Rightarrow> queue_state \<Rightarrow> queue_state" where
  "commit_batch cfg env batch s =
     (case insert_job cfg env (sq_healthy s) (map sub_message batch) (sq_db s) of
        Inr (d, vs) \<Rightarrow> s\<lparr>sq_db := d, sq_outcomes := sq_outcomes s @ map2 outcome_of batch vs\<rparr>
      | Inl e \<Rightarrow> s\<lparr>sq_healthy := False, sq_outcomes := sq_outcomes s @
          map (\<lambda>x. (sub_future x, Refused ''Durable queue commit failed'')) batch\<rparr>)"

text \<open>The writer up to its next \<open>await\<close>; \<open>None\<close> when it has nothing to do.\<close>

definition writer_step :: "config \<Rightarrow> job_env \<Rightarrow> queue_state \<Rightarrow> queue_state option" where
  "writer_step cfg env s =
     (case sq_writer s of
        Waiting \<Rightarrow>
          (case sq_pending s of
             [] \<Rightarrow> None
           | None # p \<Rightarrow> Some (s\<lparr>sq_pending := p, sq_writer := Stopped\<rparr>)
           | Some x # p \<Rightarrow> Some (s\<lparr>sq_pending := p, sq_writer := Holding x\<rparr>))
      | Holding x \<Rightarrow>
          (let (b, stopping, p) = gather (nat (q_batch_size (cfg_queue cfg)) - 1) (sq_pending s)
           in Some (s\<lparr>sq_pending := p, sq_writer := Committing (x # b) stopping\<rparr>))
      | Committing b stopping \<Rightarrow>
          Some ((commit_batch cfg env b s)\<lparr>sq_writer := (if stopping then Stopped else Waiting)\<rparr>)
      | Stopped \<Rightarrow> None)"

section \<open>\<open>close\<close>\<close>

text \<open>\<open>close\<close> first stops intake, then waits for room to put the stop mark.\<close>

definition request_close :: "queue_state \<Rightarrow> queue_state" where
  "request_close s = s\<lparr>sq_accepting := False, sq_closing := True\<rparr>"

definition send_stop :: "config \<Rightarrow> queue_state \<Rightarrow> queue_state option" where
  "send_stop cfg s =
     (if sq_closing s \<and> \<not> sq_stop_sent s \<and> \<not> pending_full cfg s
      then Some (s\<lparr>sq_pending := sq_pending s @ [None], sq_stop_sent := True\<rparr>) else None)"

section \<open>The running queue\<close>

datatype queue_event =
    QSubmit prepared_message
  | QWriter job_env
  | QOther store_event
  | QUnhealthy
  | QClose
  | QStop

definition other_job :: "store_event \<Rightarrow> bool" where
  "other_job e = (case e of EvOpen v t \<Rightarrow> False | EvInsert h f t b \<Rightarrow> False | _ \<Rightarrow> True)"

text \<open>One step of the running program; \<open>QUnhealthy\<close> is the dispatcher or the service setting
  \<open>store.healthy\<close> to \<open>False\<close>.\<close>

inductive queue_step :: "config \<Rightarrow> queue_event \<Rightarrow> queue_state \<Rightarrow> queue_state \<Rightarrow> bool" for cfg where
  qs_submit: "submit cfg m s = Inr (t, f) \<Longrightarrow> queue_step cfg (QSubmit m) s t"
| qs_writer: "writer_step cfg env s = Some t \<Longrightarrow> queue_step cfg (QWriter env) s t"
| qs_other: "other_job e \<Longrightarrow> store_step cfg e (sq_db s) d \<Longrightarrow>
    queue_step cfg (QOther e) s (s\<lparr>sq_db := d\<rparr>)"
| qs_unhealthy: "queue_step cfg QUnhealthy s (s\<lparr>sq_healthy := False\<rparr>)"
| qs_close: "queue_step cfg QClose s (request_close s)"
| qs_stop: "send_stop cfg s = Some t \<Longrightarrow> queue_step cfg QStop s t"

inductive_simps queue_step_simps:
  "queue_step cfg (QSubmit m) s t"
  "queue_step cfg (QWriter env) s t"
  "queue_step cfg (QOther e) s t"
  "queue_step cfg QUnhealthy s t"
  "queue_step cfg QClose s t"
  "queue_step cfg QStop s t"

lemma queue_stepE [consumes 1, case_names qs_submit qs_writer qs_other qs_unhealthy qs_close qs_stop]:
  assumes "queue_step cfg e s t"
  obtains m f where "e = QSubmit m" "submit cfg m s = Inr (t, f)"
  | env where "e = QWriter env" "writer_step cfg env s = Some t"
  | ev d where "e = QOther ev" "other_job ev" "store_step cfg ev (sq_db s) d" "t = s\<lparr>sq_db := d\<rparr>"
  | "e = QUnhealthy" "t = s\<lparr>sq_healthy := False\<rparr>"
  | "e = QClose" "t = request_close s"
  | "e = QStop" "send_stop cfg s = Some t"
  using assms by (rule queue_step.cases) (blast intro: that)+

definition queue_init :: "config \<Rightarrow> queue_state \<Rightarrow> bool" where
  "queue_init cfg s = (\<exists>d. store_inv d \<and> s = queue_start d)"

section \<open>Invariant\<close>

definition held :: "queue_state \<Rightarrow> submission list" where
  "held s = (case sq_writer s of Holding x \<Rightarrow> [x] | Committing b st \<Rightarrow> b | _ \<Rightarrow> [])"

definition waiting_items :: "'a option list \<Rightarrow> 'a list" where
  "waiting_items p = List.map_filter id p"

lemma waiting_items_simps [simp]:
  "waiting_items [] = []" "waiting_items (Some x # p) = x # waiting_items p"
  "waiting_items (None # p) = waiting_items p"
  "waiting_items (p @ q) = waiting_items p @ waiting_items q"
  "waiting_items (map Some xs) = xs"
  by (induction xs) (simp_all add: waiting_items_def map_filter_def)

text \<open>Every future handed out: answered, in the writer's hands, or still queued.\<close>

definition futures :: "queue_state \<Rightarrow> nat list" where
  "futures s = map fst (sq_outcomes s) @ map sub_future (held s)
     @ map sub_future (waiting_items (sq_pending s))"

text \<open>The stop mark is the last item ever put, and it is put after intake has ended.\<close>

definition leaving :: "writer_state \<Rightarrow> bool" where
  "leaving w = (case w of Committing b st \<Rightarrow> st | Stopped \<Rightarrow> True | _ \<Rightarrow> False)"

definition stop_ok :: "queue_state \<Rightarrow> bool" where
  "stop_ok s = ((sq_closing s \<longrightarrow> \<not> sq_accepting s) \<and> (sq_stop_sent s \<longrightarrow> sq_closing s) \<and>
     (if leaving (sq_writer s) then sq_stop_sent s \<and> sq_pending s = []
      else sq_pending s = map Some (waiting_items (sq_pending s)) @
             (if sq_stop_sent s then [None] else [])))"

definition queue_inv :: "queue_state \<Rightarrow> bool" where
  "queue_inv s = (store_inv (sq_db s) \<and> distinct (futures s) \<and> set (futures s) = {..<sq_next s}
     \<and> stop_ok s)"

lemma gather_some:
  "gather k (map Some xs) = (take k xs, False, map Some (drop k xs))"
proof (induction k arbitrary: xs)
  case (Suc k)
  then show ?case by (cases xs) auto
qed simp

lemma gather_stop:
  "gather k (map Some xs @ [None]) =
     (take k xs, length xs < k, if length xs < k then [] else map Some (drop k xs) @ [None])"
proof (induction k arbitrary: xs)
  case (Suc k)
  then show ?case by (cases xs) auto
qed simp

lemma map_fst_outcome:
  "length b = length vs \<Longrightarrow> map fst (map2 outcome_of b vs) = map sub_future b"
  by (induction b vs rule: list_induct2) (auto simp: outcome_of_def)

lemma commit_futures:
  "map fst (sq_outcomes (commit_batch cfg env b s)) = map fst (sq_outcomes s) @ map sub_future b"
proof (cases "insert_job cfg env (sq_healthy s) (map sub_message b) (sq_db s)")
  case (Inr p)
  obtain d vs where p: "p = (d, vs)" by force
  with Inr have "insert_batch cfg (sq_healthy s) (je_free env) (je_now env) (map sub_message b)
      (sq_db s) = Inr (d, vs)"
    by (simp add: insert_job_def split: if_splits)
  then have "length b = length vs" using insert_batch_ack [THEN conjunct1] by fastforce
  then have "map fst (map2 outcome_of b vs) = map sub_future b" by (rule map_fst_outcome)
  with Inr p show ?thesis by (simp add: commit_batch_def)
qed (simp add: commit_batch_def comp_def)

lemma commit_same [simp]:
  "sq_accepting (commit_batch cfg env b s) = sq_accepting s"
  "sq_closing (commit_batch cfg env b s) = sq_closing s"
  "sq_stop_sent (commit_batch cfg env b s) = sq_stop_sent s"
  "sq_pending (commit_batch cfg env b s) = sq_pending s"
  "sq_next (commit_batch cfg env b s) = sq_next s"
  by (auto simp: commit_batch_def split: sum.splits prod.splits)

lemma commit_inv:
  assumes "store_inv (sq_db s)"
  shows "store_inv (sq_db (commit_batch cfg env b s))"
proof (cases "insert_job cfg env (sq_healthy s) (map sub_message b) (sq_db s)")
  case (Inr p)
  obtain d vs where p: "p = (d, vs)" by force
  with Inr have "insert_batch cfg (sq_healthy s) (je_free env) (je_now env) (map sub_message b)
      (sq_db s) = Inr (d, vs)"
    by (simp add: insert_job_def split: if_splits)
  from insert_batch_inv [OF assms this] show ?thesis using Inr p by (simp add: commit_batch_def)
qed (simp add: commit_batch_def assms)

lemma submit_Inr:
  assumes "submit cfg m s = Inr (t, f)"
  shows "sq_accepting s" "sq_healthy s" "\<not> pending_full cfg s" "f = sq_next s"
    "t = s\<lparr>sq_pending := sq_pending s @ [Some \<lparr>sub_future = sq_next s, sub_message = m\<rparr>],
           sq_next := Suc (sq_next s)\<rparr>"
  using assms unfolding submit_def by (auto split: if_split_asm)

lemma queue_invI:
  "store_inv (sq_db s) \<Longrightarrow> distinct (futures s) \<Longrightarrow> set (futures s) = {..<sq_next s} \<Longrightarrow>
     stop_ok s \<Longrightarrow> queue_inv s"
  by (simp add: queue_inv_def)

lemma queue_invD:
  assumes "queue_inv s"
  shows "store_inv (sq_db s)" "distinct (futures s)" "set (futures s) = {..<sq_next s}" "stop_ok s"
  using assms by (simp_all add: queue_inv_def)

lemma submit_inv:
  assumes "queue_inv s" "submit cfg m s = Inr (t, f)"
  shows "queue_inv t"
proof (rule queue_invI)
  note t = submit_Inr [OF assms(2)] and i = queue_invD [OF assms(1)]
  have f: "futures t = futures s @ [sq_next s]" by (simp add: futures_def held_def t(5))
  show "store_inv (sq_db t)" using i(1) by (simp add: t(5))
  show "distinct (futures t)" using i(2,3) by (simp add: f)
  show "set (futures t) = {..<sq_next t}" using i(3) unfolding f by (simp add: t(5) lessThan_Suc)
  have "\<not> sq_closing s" "\<not> sq_stop_sent s" using i(4) t(1) by (auto simp: stop_ok_def)
  then show "stop_ok t" using i(4) by (simp add: stop_ok_def t(5) split: if_splits)
qed

text \<open>A step of the writer only moves futures along.\<close>

lemma waiting_gather:
  "gather k p = (b, st, r) \<Longrightarrow> p = map Some xs @ (if stp then [None] else []) \<Longrightarrow>
     xs = b @ waiting_items r"
  by (cases stp) (auto simp: gather_some gather_stop)

lemma writer_futures:
  assumes "queue_inv s" "writer_step cfg env s = Some t"
  shows "futures t = futures s" "sq_next t = sq_next s"
proof -
  have so: "stop_ok s" using queue_invD(4) [OF assms(1)] .
  have "futures t = futures s \<and> sq_next t = sq_next s"
  proof (cases "sq_writer s")
    case Waiting
    then show ?thesis using assms(2)
      by (auto simp: writer_step_def futures_def held_def split: list.splits option.splits)
  next
    case (Holding x)
    obtain b st r where g:
      "gather (nat (q_batch_size (cfg_queue cfg)) - 1) (sq_pending s) = (b, st, r)"
      by (cases "gather (nat (q_batch_size (cfg_queue cfg)) - 1) (sq_pending s)") auto
    have "sq_pending s = map Some (waiting_items (sq_pending s)) @
             (if sq_stop_sent s then [None] else [])"
      using so Holding by (simp add: stop_ok_def leaving_def)
    from waiting_gather [OF g this] show ?thesis
      using assms(2) Holding g by (auto simp: writer_step_def futures_def held_def)
  next
    case (Committing b st)
    then show ?thesis using assms(2)
      by (auto simp: writer_step_def futures_def held_def commit_futures)
  next
    case Stopped
    then show ?thesis using assms(2) by (simp add: writer_step_def)
  qed
  then show "futures t = futures s" "sq_next t = sq_next s" by simp_all
qed

lemma writer_stop_ok:
  assumes "stop_ok s" "writer_step cfg env s = Some t"
  shows "stop_ok t"
proof (cases "sq_writer s")
  case Waiting
  let ?ws = "waiting_items (sq_pending s)"
  have p: "sq_pending s = map Some ?ws @ (if sq_stop_sent s then [None] else [])"
    using assms(1) Waiting by (simp add: stop_ok_def leaving_def)
  show ?thesis
  proof (cases ?ws)
    case Nil
    then have "sq_stop_sent s \<and> sq_pending s = [None]"
      using p assms(2) Waiting by (auto simp: writer_step_def split: if_splits)
    then show ?thesis using assms Waiting by (auto simp: writer_step_def stop_ok_def leaving_def)
  next
    case (Cons x xs)
    then have "sq_pending s = Some x # map Some xs @ (if sq_stop_sent s then [None] else [])"
      using p by simp
    then show ?thesis using assms Waiting by (auto simp: writer_step_def stop_ok_def leaving_def)
  qed
next
  case (Holding x)
  let ?k = "nat (q_batch_size (cfg_queue cfg)) - 1" and ?ws = "waiting_items (sq_pending s)"
  have p: "sq_pending s = map Some ?ws @ (if sq_stop_sent s then [None] else [])"
    using assms(1) Holding by (simp add: stop_ok_def leaving_def)
  show ?thesis
  proof (cases "sq_stop_sent s")
    case True
    then have g: "gather ?k (sq_pending s) = (take ?k ?ws, length ?ws < ?k,
        if length ?ws < ?k then [] else map Some (drop ?k ?ws) @ [None])"
      using p gather_stop [of ?k ?ws] by simp
    show ?thesis using assms Holding g True by (auto simp: writer_step_def stop_ok_def leaving_def)
  next
    case False
    then have g: "gather ?k (sq_pending s) = (take ?k ?ws, False, map Some (drop ?k ?ws))"
      using p gather_some [of ?k ?ws] by simp
    show ?thesis using assms Holding g False by (auto simp: writer_step_def stop_ok_def leaving_def)
  qed
next
  case (Committing b st)
  then show ?thesis using assms by (auto simp: writer_step_def stop_ok_def leaving_def split: if_splits)
next
  case Stopped
  then show ?thesis using assms(2) by (simp add: writer_step_def)
qed

lemma queue_step_inv:
  assumes "queue_inv s" "queue_step cfg e s t"
  shows "queue_inv t"
  using assms(2)
proof (cases rule: queue_stepE)
  case (qs_submit m f)
  then show ?thesis using submit_inv assms(1) by blast
next
  case (qs_writer env)
  note w = writer_futures [OF assms(1) qs_writer(2)]
  note i = queue_invD [OF assms(1)]
  have "store_inv (sq_db t)"
  proof (cases "sq_writer s")
    case (Committing b st)
    then show ?thesis using qs_writer(2) commit_inv [OF i(1)] by (auto simp: writer_step_def)
  qed (use qs_writer(2) i(1) in
      \<open>auto simp: writer_step_def split: list.splits option.splits prod.splits\<close>)
  then show ?thesis
    using i(2,3) writer_stop_ok [OF i(4) qs_writer(2)] by (intro queue_invI) (simp_all add: w)
next
  case (qs_other ev d)
  then show ?thesis using queue_invD [OF assms(1)] store_step_inv [OF _ qs_other(3)]
    by (intro queue_invI) (simp_all add: futures_def held_def stop_ok_def)
next
  case qs_unhealthy
  then show ?thesis using queue_invD [OF assms(1)]
    by (intro queue_invI) (simp_all add: futures_def held_def stop_ok_def)
next
  case qs_close
  then show ?thesis using queue_invD [OF assms(1)]
    by (intro queue_invI) (simp_all add: futures_def held_def stop_ok_def request_close_def)
next
  case qs_stop
  then have t: "t = s\<lparr>sq_pending := sq_pending s @ [None], sq_stop_sent := True\<rparr>"
    and c: "sq_closing s" "\<not> sq_stop_sent s"
    by (auto simp: send_stop_def split: if_splits)
  show ?thesis using queue_invD [OF assms(1)] c
    by (intro queue_invI) (simp_all add: futures_def held_def stop_ok_def t split: if_splits)
qed

interpretation queue_sys: inv_system "queue_init cfg" "queue_step cfg" queue_inv for cfg
proof unfold_locales
  show "queue_inv s" if "queue_init cfg s" for s
    using that by (auto simp: queue_init_def queue_inv_def queue_start_def futures_def held_def
        stop_ok_def leaving_def)
  show "queue_inv t" if "queue_inv s" "queue_step cfg e s t" for s e t
    using queue_step_inv that by blast
qed

end
