(* ===== verification/Gw_Queue_Props.thy ===== *)
theory Gw_Queue_Props
  imports Gw_Queue
begin

text \<open>
  What a client of \<open>submit\<close> can rely on: an acknowledged message is in the database and stays
  there, every submission is answered exactly once, closing answers all of them and ends, and a
  queue marked unhealthy acknowledges nothing more.
\<close>

section \<open>The outcomes of a commit\<close>

lemma map2_outcome_mem:
  assumes "length b = length vs" and "(f, Acked i) \<in> set (map2 outcome_of b vs)"
  shows "\<exists>k < length b. sub_future (b ! k) = f \<and> pm_id (sub_message (b ! k)) = i \<and> vs ! k = None"
proof -
  obtain k where "k < length b" "outcome_of (b ! k) (vs ! k) = (f, Acked i)"
    using assms by (auto simp: in_set_conv_nth)
  then show ?thesis by (auto simp: outcome_of_def split: option.splits)
qed

lemma commit_acked:
  assumes "(f, Acked i) \<in> set (sq_outcomes (commit_batch cfg env b s))"
    and "(f, Acked i) \<notin> set (sq_outcomes s)"
  shows "\<exists>x r. x \<in> set b \<and> sub_future x = f \<and> pm_id (sub_message x) = i \<and>
     find_row i (messages (sq_db (commit_batch cfg env b s))) = Some r \<and> status r = Queued \<and>
     mime r = Some (pm_mime (sub_message x)) \<and> recipients r = pm_recipients (sub_message x)"
proof (cases "insert_job cfg env (sq_healthy s) (map sub_message b) (sq_db s)")
  case (Inl e)
  then show ?thesis using assms by (auto simp: commit_batch_def)
next
  case (Inr p)
  obtain d vs where p: "p = (d, vs)" by force
  with Inr have ib: "insert_batch cfg (sq_healthy s) (je_free env) (je_now env)
      (map sub_message b) (sq_db s) = Inr (d, vs)"
    by (simp add: insert_job_def split: if_splits)
  note a = insert_batch_ack [OF ib, unfolded length_map]
  have "(f, Acked i) \<in> set (map2 outcome_of b vs)"
    using assms Inr p by (auto simp: commit_batch_def)
  from map2_outcome_mem [OF _ this] a obtain k where
    k: "k < length b" "sub_future (b ! k) = f" "pm_id (sub_message (b ! k)) = i" "vs ! k = None"
    by auto
  have "\<exists>r. find_row (pm_id (map sub_message b ! k)) (messages d) = Some r \<and> status r = Queued
      \<and> mime r = Some (pm_mime (map sub_message b ! k))
      \<and> recipients r = pm_recipients (map sub_message b ! k)"
    using a k(1,4) by blast
  then show ?thesis using k Inr p by (auto simp: commit_batch_def intro!: exI [of _ "b ! k"])
qed

lemma commit_outcomes_unhealthy:
  assumes "\<not> sq_healthy s" and "(f, Acked i) \<in> set (sq_outcomes (commit_batch cfg env b s))"
  shows "(f, Acked i) \<in> set (sq_outcomes s)"
proof (cases "insert_job cfg env (sq_healthy s) (map sub_message b) (sq_db s)")
  case (Inl e)
  then show ?thesis using assms by (auto simp: commit_batch_def)
next
  case (Inr p)
  then have "p = (sq_db s, map (\<lambda>_. Some ''Queue needs operator attention'') (map sub_message b))"
    using assms(1) by (simp add: insert_job_def insert_batch_def split: if_splits)
  then show ?thesis
    using assms(2) Inr by (auto simp: commit_batch_def outcome_of_def in_set_zip)
qed

text \<open>Only a commit of the writer adds outcomes.\<close>

lemma new_outcome:
  assumes "queue_step cfg e s t" and "x \<in> set (sq_outcomes t)" and "x \<notin> set (sq_outcomes s)"
  shows "\<exists>env b st. e = QWriter env \<and> sq_writer s = Committing b st \<and>
     sq_outcomes t = sq_outcomes (commit_batch cfg env b s) \<and> sq_db t = sq_db (commit_batch cfg env b s)"
  using assms(1)
proof (cases rule: queue_stepE)
  case (qs_submit m f)
  then show ?thesis using submit_Inr(5) [OF qs_submit(2)] assms(2,3) by simp
next
  case (qs_writer env)
  then show ?thesis using assms(2,3)
    by (auto simp: writer_step_def split: writer_state.splits list.splits option.splits prod.splits)
next
  case (qs_other ev d)
  then show ?thesis using assms(2,3) by simp
next
  case qs_unhealthy
  then show ?thesis using assms(2,3) by simp
next
  case qs_close
  then show ?thesis using assms(2,3) by (simp add: request_close_def)
next
  case qs_stop
  then show ?thesis using assms(2,3) by (auto simp: send_stop_def split: if_splits)
qed

section \<open>Durable acknowledgement\<close>

text \<open>
  C2: An acknowledged message is durable.  At the step in which the future of a submission gets
  its queue ID, the database already holds that message; and from there on, through every sequence
  of transactions and process restarts in which it is neither reported submitted nor cancelled,
  the queue keeps exactly the octets that were submitted.
\<close>

theorem acknowledged_is_durable:
  assumes "queue_inv s" and "queue_step cfg e s t"
    and "(f, Acked i) \<in> set (sq_outcomes t)" and "(f, Acked i) \<notin> set (sq_outcomes s)"
    and "run (store_step cfg) (sq_db t) xs" and "list_all (\<lambda>(e, d). \<not> drops i e) xs"
  shows "\<exists>x r. x \<in> set (held s) \<and> sub_future x = f \<and> pm_id (sub_message x) = i \<and>
     find_row i (messages (final (sq_db t) xs)) = Some r \<and> mime r = Some (pm_mime (sub_message x))"
proof -
  obtain env b st where w: "sq_writer s = Committing b st"
    "sq_outcomes t = sq_outcomes (commit_batch cfg env b s)"
    "sq_db t = sq_db (commit_batch cfg env b s)"
    using new_outcome [OF assms(2-4)] by blast
  have "(f, Acked i) \<in> set (sq_outcomes (commit_batch cfg env b s))" using assms(3) w(2) by simp
  from commit_acked [OF this assms(4)] obtain x r where
    x: "x \<in> set b" "sub_future x = f" "pm_id (sub_message x) = i"
    and r: "find_row i (messages (sq_db t)) = Some r" "mime r = Some (pm_mime (sub_message x))"
    using w(3) by auto
  have "store_inv (sq_db t)" using queue_invD(1) [OF queue_step_inv [OF assms(1,2)]] .
  then have "\<exists>r'. row_after i (final (sq_db t) xs) = Some r' \<and>
      mime r' = Some (pm_mime (sub_message x))"
    using step_keeps_body assms(5,6) r
    by (intro run_row_induct [where ok = "\<lambda>e. \<not> drops i e"]) (auto simp: row_after_def)
  then show ?thesis using x w(1) by (auto simp: row_after_def held_def)
qed

text \<open>A run: submit, take, gather, commit.\<close>

definition demo_env :: job_env where
  "demo_env = \<lparr>je_fault = False, je_free = 2 ^ 40, je_now = 0\<rparr>"

definition demo_sub :: submission where
  "demo_sub = \<lparr>sub_future = 0, sub_message = demo_pm\<rparr>"

definition demo_committing :: queue_state where
  "demo_committing = (queue_start demo_open)\<lparr>sq_writer := Committing [demo_sub] False, sq_next := 1\<rparr>"

definition demo_committed :: queue_state where
  "demo_committed = (queue_start demo_open)\<lparr>sq_db := demo_stored, sq_next := 1,
     sq_outcomes := [(0, Acked ''a'')]\<rparr>"

lemma demo_commit: "writer_step demo_cfg demo_env demo_committing = Some demo_committed"
  using demo_stored_eq
  by (simp add: writer_step_def demo_committing_def demo_committed_def commit_batch_def
      insert_job_def demo_env_def demo_sub_def queue_start_def outcome_of_def demo_pm_def)

lemma demo_open_inv: "store_inv demo_open"
  using open_inv [OF file_ok_empty demo_open_eq] .

lemma demo_committing_inv: "queue_inv demo_committing"
  using demo_open_inv
  by (auto simp: queue_inv_def demo_committing_def queue_start_def futures_def held_def
      demo_sub_def stop_ok_def leaving_def)

theorem acknowledged_is_durable_witness:
  "\<exists>x r. x \<in> set (held demo_committing) \<and> sub_future x = 0 \<and> pm_id (sub_message x) = ''a'' \<and>
     find_row ''a'' (messages (final (sq_db demo_committed) [(EvClaim 1, demo_claimed)])) = Some r
     \<and> mime r = Some (pm_mime (sub_message x))"
proof (rule acknowledged_is_durable [OF demo_committing_inv qs_writer [OF demo_commit]])
  show "run (store_step demo_cfg) (sq_db demo_committed) [(EvClaim 1, demo_claimed)]"
    using demo_claimed_eq by (auto simp: demo_committed_def intro: st_claim)
qed (simp_all add: demo_committing_def demo_committed_def queue_start_def drops_def)

section \<open>Every submission is answered\<close>

text \<open>
  C19: Closing loses no submission.  In every reachable state in which the writer has returned,
  nothing is left in the submission queue, and every future that \<open>submit\<close> ever handed out has
  exactly one result.
\<close>

theorem closed_queue_answered_all:
  assumes "reach (queue_init cfg) (queue_step cfg) s" and "sq_writer s = Stopped"
  shows "sq_pending s = [] \<and> distinct (map fst (sq_outcomes s))
     \<and> fst ` set (sq_outcomes s) = {..<sq_next s} \<and> \<not> sq_accepting s"
proof -
  note i = queue_invD [OF queue_sys.reach_inv [OF assms(1)]]
  have st: "sq_pending s = []" "sq_stop_sent s" "sq_closing s" "\<not> sq_accepting s"
    using i(4) assms(2) by (auto simp: stop_ok_def leaving_def)
  have "futures s = map fst (sq_outcomes s)" using st(1) assms(2) by (simp add: futures_def held_def)
  with i(2,3) st show ?thesis by simp
qed

definition demo_stopped :: queue_state where
  "demo_stopped = (queue_start demo_open)\<lparr>sq_accepting := False, sq_closing := True,
     sq_stop_sent := True, sq_writer := Stopped\<rparr>"

theorem closed_queue_answered_all_witness:
  "sq_pending demo_stopped = [] \<and> fst ` set (sq_outcomes demo_stopped) = {..<0}"
proof -
  let ?s = "queue_start demo_open"
  let ?c = "request_close ?s"
  let ?d = "?c\<lparr>sq_pending := [None], sq_stop_sent := True\<rparr>"
  have "reach (queue_init demo_cfg) (queue_step demo_cfg) ?s"
    by (rule reach_init) (use demo_open_inv in \<open>auto simp: queue_init_def\<close>)
  then have "reach (queue_init demo_cfg) (queue_step demo_cfg) ?c"
    by (rule reach_step) (rule qs_close)
  moreover have "send_stop demo_cfg ?c = Some ?d"
    by (simp add: send_stop_def request_close_def queue_start_def pending_full_def demo_cfg_def
        default_config_def default_queue_def)
  ultimately have "reach (queue_init demo_cfg) (queue_step demo_cfg) ?d"
    using qs_stop reach_step by metis
  moreover have "writer_step demo_cfg demo_env ?d = Some demo_stopped"
    by (simp add: writer_step_def demo_stopped_def request_close_def queue_start_def)
  ultimately have "reach (queue_init demo_cfg) (queue_step demo_cfg) demo_stopped"
    using qs_writer reach_step by metis
  from closed_queue_answered_all [OF this]
  show ?thesis by (simp add: demo_stopped_def queue_start_def)
qed

section \<open>Closing ends\<close>

text \<open>The writer run on its own, one environment per step, until it has nothing to do.\<close>

fun drain :: "config \<Rightarrow> job_env list \<Rightarrow> queue_state \<Rightarrow> queue_state" where
  "drain cfg [] s = s"
| "drain cfg (e # es) s = (case writer_step cfg e s of None \<Rightarrow> s | Some t \<Rightarrow> drain cfg es t)"

definition work_left :: "queue_state \<Rightarrow> nat" where
  "work_left s = (case sq_writer s of
      Waiting \<Rightarrow> 3 * length (sq_pending s)
    | Holding x \<Rightarrow> 3 * length (sq_pending s) + 2
    | Committing b st \<Rightarrow> 3 * length (sq_pending s) + 1
    | Stopped \<Rightarrow> 0)"

lemma gather_length: "gather k p = (b, st, r) \<Longrightarrow> length r \<le> length p"
  by (induction k p arbitrary: b st r rule: gather.induct) (fastforce split: prod.splits)+

lemma writer_progress:
  assumes "stop_ok s" "sq_stop_sent s" "sq_writer s \<noteq> Stopped"
  shows "\<exists>t. writer_step cfg env s = Some t \<and> sq_stop_sent t \<and> work_left t < work_left s"
proof (cases "sq_writer s")
  case Waiting
  then have "sq_pending s \<noteq> []" using assms(1,2) by (auto simp: stop_ok_def leaving_def)
  then obtain x p where "sq_pending s = x # p" by (cases "sq_pending s") auto
  then show ?thesis
    using Waiting assms(2) by (cases x) (auto simp: writer_step_def work_left_def)
next
  case (Holding x)
  obtain b st r where g:
    "gather (nat (q_batch_size (cfg_queue cfg)) - 1) (sq_pending s) = (b, st, r)"
    by (cases "gather (nat (q_batch_size (cfg_queue cfg)) - 1) (sq_pending s)") auto
  then show ?thesis
    using Holding assms(2) gather_length [OF g] by (simp add: writer_step_def work_left_def)
next
  case (Committing b st)
  then show ?thesis using assms(2) by (simp add: writer_step_def work_left_def)
next
  case Stopped
  then show ?thesis using assms(3) by simp
qed

lemma drain_stops:
  assumes "queue_inv s" "sq_stop_sent s" "work_left s \<le> length es"
  shows "sq_writer (drain cfg es s) = Stopped \<and> queue_inv (drain cfg es s)
     \<and> sq_next (drain cfg es s) = sq_next s"
  using assms
proof (induction es arbitrary: s)
  case Nil
  then show ?case
    using writer_progress [OF queue_invD(4) [OF Nil.prems(1)]] by fastforce
next
  case (Cons e es)
  show ?case
  proof (cases "sq_writer s = Stopped")
    case True
    then show ?thesis using Cons.prems by (simp add: writer_step_def)
  next
    case False
    obtain t where t: "writer_step cfg e s = Some t" "sq_stop_sent t" "work_left t < work_left s"
      using writer_progress [OF queue_invD(4) [OF Cons.prems(1)] Cons.prems(2) False] by blast
    have "queue_inv t" by (rule queue_step_inv [OF Cons.prems(1) qs_writer [OF t(1)]])
    moreover have "work_left t \<le> length es" using t(3) Cons.prems(3) by simp
    ultimately have "sq_writer (drain cfg es t) = Stopped \<and> queue_inv (drain cfg es t)
        \<and> sq_next (drain cfg es t) = sq_next t"
      using Cons.IH t(2) by blast
    then show ?thesis using t(1) writer_futures(2) [OF Cons.prems(1) t(1)] by simp
  qed
qed

text \<open>
  C21: Closing ends.  Once the stop mark is in the queue, the writer returns after at most
  three steps per waiting item and two more, whatever the database does in each commit (a fault, a
  full disk, a full queue), and then every future has its result.
\<close>

theorem close_drains:
  assumes "queue_inv s" and "sq_stop_sent s"
    and "3 * length (sq_pending s) + 2 \<le> length es"
  shows "sq_writer (drain cfg es s) = Stopped
     \<and> fst ` set (sq_outcomes (drain cfg es s)) = {..<sq_next s}"
proof -
  have "work_left s \<le> length es" using assms(3) by (simp add: work_left_def split: writer_state.split)
  note d = drain_stops [OF assms(1,2) this]
  then have "stop_ok (drain cfg es s)" "set (futures (drain cfg es s)) = {..<sq_next s}"
    by (simp_all add: queue_inv_def)
  then show ?thesis using d by (simp add: futures_def held_def stop_ok_def leaving_def)
qed

theorem close_drains_witness:
  "fst ` set (sq_outcomes (drain demo_cfg (replicate 5 demo_env)
      (demo_committing\<lparr>sq_accepting := False, sq_closing := True, sq_stop_sent := True,
         sq_pending := [None]\<rparr>))) = {..<1}"
proof -
  let ?s = "demo_committing\<lparr>sq_accepting := False, sq_closing := True, sq_stop_sent := True,
         sq_pending := [None]\<rparr>"
  have "queue_inv ?s" using demo_committing_inv
    by (auto simp: queue_inv_def demo_committing_def queue_start_def futures_def held_def
        stop_ok_def leaving_def)
  from close_drains [OF this, of "replicate 5 demo_env"]
  show ?thesis by (simp add: demo_committing_def)
qed

section \<open>An unhealthy queue\<close>

lemma commit_unhealthy:
  "\<not> sq_healthy s \<Longrightarrow> \<not> sq_healthy (commit_batch cfg env b s)"
  by (auto simp: commit_batch_def split: sum.splits prod.splits)

lemma step_unhealthy:
  assumes "queue_step cfg e s t" and "\<not> sq_healthy s"
  shows "\<not> sq_healthy t"
  using assms(1)
proof (cases rule: queue_stepE)
  case (qs_submit m f)
  then show ?thesis using submit_Inr(2) assms(2) by blast
next
  case (qs_writer env)
  then show ?thesis using assms(2) commit_unhealthy
    by (auto simp: writer_step_def split: writer_state.splits list.splits option.splits prod.splits)
next
  case qs_stop
  then show ?thesis using assms(2) by (auto simp: send_stop_def split: if_splits)
qed (use assms(2) in \<open>simp_all add: request_close_def\<close>)

text \<open>
   A queue that is marked unhealthy acknowledges nothing more: a failed commit (or the service
  marking it) lasts until the process ends, and from then on no submission gets a queue ID.
\<close>

theorem unhealthy_acknowledges_nothing:
  assumes "\<not> sq_healthy s" and "run (queue_step cfg) s xs"
    and "(f, Acked i) \<in> set (sq_outcomes (final s xs))"
  shows "(f, Acked i) \<in> set (sq_outcomes s)"
  using assms
proof (induction xs arbitrary: s)
  case (Cons x xs)
  obtain e t where x: "x = (e, t)" by force
  with Cons.prems have st: "queue_step cfg e s t" "run (queue_step cfg) t xs" by auto
  have "\<not> sq_healthy t" using st(1) Cons.prems(1) by (rule step_unhealthy)
  from Cons.IH [OF this st(2)] Cons.prems(3) x have "(f, Acked i) \<in> set (sq_outcomes t)" by simp
  then show ?case
    using new_outcome [OF st(1)] commit_outcomes_unhealthy [OF Cons.prems(1)] by metis
qed simp

theorem unhealthy_acknowledges_nothing_witness:
  "(0, Acked ''b'') \<notin> set (sq_outcomes (final (demo_committed\<lparr>sq_healthy := False\<rparr>)
      [(QClose, request_close (demo_committed\<lparr>sq_healthy := False\<rparr>))]))"
proof
  let ?s = "demo_committed\<lparr>sq_healthy := False\<rparr>"
  assume a: "(0, Acked ''b'') \<in> set (sq_outcomes (final ?s [(QClose, request_close ?s)]))"
  have "run (queue_step demo_cfg) ?s [(QClose, request_close ?s)]" by (simp add: qs_close)
  from unhealthy_acknowledges_nothing [OF _ this a] show False by (simp add: demo_committed_def)
qed

end
