(* ===== verification/Gw_Values.thy ===== *)
theory Gw_Values
  imports Gw_Prelude
begin

text \<open>
  Values from outside the program: decoded JSON, the text of numbers, and HTTP response bodies
  (\<open>http.py\<close>).  Decoding JSON octets belongs to Python's library and is a parameter where it is
  used; what the program does with the decoded value is spelled out.
\<close>

section \<open>JSON values\<close>

datatype json =
    JNull
  | JBool bool
  | JNum pyfloat
  | JStr string
  | JList "json list"
  | JObj "(string \<times> json) list"

text \<open>\<open>value.get(key)\<close> of a dictionary; \<open>None\<close> for a missing key.\<close>

definition obj_get :: "string \<Rightarrow> (string \<times> json) list \<Rightarrow> json option" where
  "obj_get k kvs = map_of kvs k"

text \<open>The truth value.\<close>

fun truthy :: "json \<Rightarrow> bool" where
  "truthy JNull = False"
| "truthy (JBool b) = b"
| "truthy (JNum x) = (x \<noteq> Fin 0)"
| "truthy (JStr s) = (s \<noteq> [])"
| "truthy (JList xs) = (xs \<noteq> [])"
| "truthy (JObj kvs) = (kvs \<noteq> [])"

text \<open>\<open>json.loads(content).get("error", {}).get("code", "")\<close>; \<open>None\<close> for the \<open>ValueError\<close> of text
  that is not JSON and the \<open>AttributeError\<close> of a value without \<open>get\<close>.\<close>

definition error_code :: "json option \<Rightarrow> json option" where
  "error_code j =
     (case j of
        Some (JObj kvs) \<Rightarrow>
          (case obj_get ''error'' kvs of
             None \<Rightarrow> Some (JStr [])
           | Some (JObj e) \<Rightarrow> Some (case obj_get ''code'' e of None \<Rightarrow> JStr [] | Some c \<Rightarrow> c)
           | Some _ \<Rightarrow> None)
      | _ \<Rightarrow> None)"

section \<open>Codes shown to the operator\<close>

definition is_alnum :: "char \<Rightarrow> bool" where
  "is_alnum c = (is_digit c \<or> (65 \<le> code c \<and> code c \<le> 90) \<or> (97 \<le> code c \<and> code c \<le> 122))"

lemma is_alnum_bits [code]:
  "is_alnum (Char b0 b1 b2 b3 b4 b5 b6 b7) =
     (\<not> b7 \<and> (if b6 then (b0 \<or> b1 \<or> b2 \<or> b3 \<or> b4) \<and> \<not> (b4 \<and> b3 \<and> (b2 \<or> (b1 \<and> b0)))
        else b5 \<and> b4 \<and> (b3 \<longrightarrow> \<not> b2 \<and> \<not> b1)))"
  by (cases b0; cases b1; cases b2; cases b3; cases b4; cases b5; cases b6; cases b7;
      simp add: is_alnum_def is_digit_def code_def)

text \<open>\<open>re.sub(r"[^A-Za-z0-9_.-]", "", code)[:100]\<close>, with the further characters the class has.\<close>

definition safe_text :: "string \<Rightarrow> string \<Rightarrow> string" where
  "safe_text extra s = take 100 (filter (\<lambda>c. is_alnum c \<or> c \<in> set extra) s)"

section \<open>\<open>float(text)\<close>\<close>

text \<open>Digits, with single underscores between them: the digits, and the rest of the text.\<close>

fun more_digits :: "string \<Rightarrow> string \<times> string" where
  "more_digits [] = ([], [])"
| "more_digits [c] = (if is_digit c then ([c], []) else ([], [c]))"
| "more_digits (c # d # cs) =
     (if is_digit c then (let (ds, r) = more_digits (d # cs) in (c # ds, r))
      else if c = CHR ''_'' \<and> is_digit d then (let (ds, r) = more_digits cs in (d # ds, r))
      else ([], c # d # cs))"

definition take_digits :: "string \<Rightarrow> string \<times> string" where
  "take_digits s =
     (case s of [] \<Rightarrow> ([], [])
      | c # cs \<Rightarrow> if is_digit c then (let (ds, r) = more_digits cs in (c # ds, r)) else ([], s))"

definition digits_value :: "string \<Rightarrow> nat" where
  "digits_value ds = foldl (\<lambda>n c. 10 * n + (code c - 48)) 0 ds"

definition sign_of :: "string \<Rightarrow> bool \<times> string" where
  "sign_of s = (case s of c # cs \<Rightarrow> if c = CHR ''-'' then (True, cs)
      else if c = CHR ''+'' then (False, cs) else (False, s) | [] \<Rightarrow> (False, []))"

text \<open>The exponent part: \<open>None\<close> if what follows the digits is not one.\<close>

definition exponent_of :: "string \<Rightarrow> int option" where
  "exponent_of s =
     (case s of [] \<Rightarrow> Some 0
      | c # cs \<Rightarrow> if fold_char c \<noteq> CHR ''e'' then None
          else (let (neg, u) = sign_of cs; (ds, r) = take_digits u
                in if ds = [] \<or> r \<noteq> [] then None
                   else Some (if neg then - int (digits_value ds) else int (digits_value ds))))"

definition scale10 :: "int \<Rightarrow> rat \<Rightarrow> rat" where
  "scale10 e x = (if e \<ge> 0 then x * 10 ^ nat e else x / 10 ^ nat (- e))"

text \<open>
  The number as an exact rational: the model does not round.  From the point where rounding to
  the nearest double would overflow, the value is infinite, as in Python.
\<close>

definition float_limit :: rat where
  "float_limit = 2 ^ 1024 - 2 ^ 970"

lemma float_limit_code [code]: "float_limit = of_int 179769313486231580793728971405303415079934132710037826936173778980444968292764750946649017977587207096330286416692887910946555547851940402630657488671505820681908902000708383676273854845817711531764475730270069855571366959622842914819860834936475292719074168444365510704342711559699508093042880177904174497792"
  by (simp add: float_limit_def)

definition round_float :: "rat \<Rightarrow> pyfloat" where
  "round_float x = (if x \<ge> float_limit then PInf else if x \<le> - float_limit then NInf else Fin x)"

definition unsigned_float :: "string \<Rightarrow> pyfloat option" where
  "unsigned_float s =
     (let l = casefold s in
      if l = ''inf'' \<or> l = ''infinity'' then Some PInf
      else if l = ''nan'' then Some NaN
      else
        let (ip, r) = take_digits s;
            (fp, r2) = (case r of [] \<Rightarrow> ([], [])
               | c # cs \<Rightarrow> if c = CHR ''.'' then take_digits cs else ([], r))
        in if ip = [] \<and> fp = [] then None
           else (case exponent_of r2 of None \<Rightarrow> None
                 | Some e \<Rightarrow> Some (round_float
                     (scale10 (e - int (length fp)) (of_nat (digits_value (ip @ fp)))))))"

definition parse_float :: "string \<Rightarrow> pyfloat option" where
  "parse_float s =
     (let (neg, u) = sign_of (strip s)
      in map_option (\<lambda>x. if neg then py_neg x else x) (unsigned_float u))"

section \<open>Response bodies\<close>

text \<open>\<open>read_limited\<close>: the chunks of a response, refused once they pass the limit.\<close>

fun read_chunks :: "int \<Rightarrow> bytes \<Rightarrow> bytes list \<Rightarrow> bytes option" where
  "read_chunks limit buf [] = Some buf"
| "read_chunks limit buf (p # ps) =
     (if int (length buf + length p) > limit then None else read_chunks limit (buf @ p) ps)"

definition read_limited :: "bytes list \<Rightarrow> bytes option" where
  "read_limited ps = read_chunks 1048576 [] ps"

lemma read_chunks_iff:
  "read_chunks limit buf ps = Some b \<longleftrightarrow>
     b = buf @ concat ps \<and> (ps = [] \<or> int (length b) \<le> limit)"
  by (induction limit buf ps rule: read_chunks.induct) (auto simp: not_less)

end
