(* ===== verification/Gw_Tokens.thy ===== *)
theory Gw_Tokens
  imports Gw_Values Gw_Message
begin

text \<open>
  \<open>oauth.py\<close>: the account credentials.  One \<open>TokenManager\<close> is a record of its fields together
  with the record persisted in the vault.  Its operations hold \<open>self.lock\<close> across their network
  calls, so each is one function; what the network, the file system and the environment answer is
  an argument.  Cryptography and decoding (hashes, JSON, JWT) are the record \<open>oauth_lib\<close>.
\<close>

section \<open>What the libraries provide\<close>

text \<open>
  \<open>ol_json\<close>: \<open>json.loads\<close>; \<open>ol_str\<close>: \<open>str\<close> of a decoded value that is not a string; \<open>ol_hash\<close>:
  \<open>sha256(json.dumps(values).encode()).hexdigest()\<close>; \<open>ol_digest\<close>: \<open>sha256(text.encode()).hexdigest()\<close>;
  \<open>ol_uuid\<close>: \<open>str(uuid.UUID(text))\<close>; \<open>ol_jwt_header\<close>, \<open>ol_jwt_peek\<close>: header and unverified claims
  of a JWT; \<open>ol_jwt_verify\<close>: the claims of a JWT whose RS256 signature, audience, issuer, times and
  required claims are valid for the key; \<open>ol_url\<close>: scheme, host and user of a URL; \<open>ol_env\<close>: the
  process environment; \<open>ol_email\<close>: the email library.  \<open>None\<close> stands for the errors they raise.
\<close>

record oauth_lib =
  ol_json :: "bytes \<Rightarrow> json option"
  ol_str :: "json \<Rightarrow> string"
  ol_hash :: "string list \<Rightarrow> string"
  ol_digest :: "string \<Rightarrow> string"
  ol_uuid :: "string \<Rightarrow> string option"
  ol_jwt_header :: "string \<Rightarrow> (string \<times> json) list option"
  ol_jwt_peek :: "string \<Rightarrow> (string \<times> json) list option"
  ol_jwt_verify :: "string \<Rightarrow> json \<Rightarrow> string \<Rightarrow> string \<Rightarrow> (string \<times> json) list option"
  ol_url :: "string \<Rightarrow> (string \<times> string option \<times> string option) option"
  ol_env :: "string \<Rightarrow> string option"
  ol_email :: email_lib

definition str_json :: "oauth_lib \<Rightarrow> json \<Rightarrow> string" where
  "str_json lib j = (case j of JStr s \<Rightarrow> s | _ \<Rightarrow> ol_str lib j)"

section \<open>State\<close>

text \<open>The stored record; an empty dictionary is \<open>None\<close>.  An imported record has no
  \<open>default_sender\<close> key.\<close>

record account_record =
  ar_fingerprint :: string
  ar_mode :: string
  ar_username :: string
  ar_default_sender :: "string option"
  ar_refresh :: json
  ar_last_refresh :: "rat option"

record token_state =
  tk_record :: "account_record option"
  tk_stored :: "account_record option"
  tk_access :: string
  tk_expires :: pyfloat
  tk_rejections :: nat
  tk_rejected_digest :: string
  tk_last_error :: string
  tk_needs_login :: bool
  tk_metadata :: "(string \<times> json) list option"
  tk_jwks :: "(string \<times> json) list option"

record login_flow =
  lf_state :: string
  lf_nonce :: string
  lf_verifier :: string
  lf_expires :: rat

definition fingerprint_values :: "config \<Rightarrow> string list" where
  "fingerprint_values cfg =
     (let a = cfg_account cfg in
      [casefold (acc_sender a), casefold (username a), acc_backend a, acc_tenant_id a,
       acc_client_id a, acc_redirect_uri a] @
      (if acc_send_shared a then [''Mail.Send.Shared''] else []))"

definition account_fingerprint :: "oauth_lib \<Rightarrow> config \<Rightarrow> string" where
  "account_fingerprint lib cfg = ol_hash lib (fingerprint_values cfg)"

text \<open>\<open>__init__\<close>: a stored record of another account configuration is not used.\<close>

definition token_init :: "oauth_lib \<Rightarrow> config \<Rightarrow> account_record option \<Rightarrow> token_state" where
  "token_init lib cfg stored =
     (let usable = (case stored of None \<Rightarrow> True
                    | Some r \<Rightarrow> ar_fingerprint r = account_fingerprint lib cfg)
      in \<lparr>tk_record = (if usable then stored else None), tk_stored = stored, tk_access = [],
          tk_expires = Fin 0, tk_rejections = 0, tk_rejected_digest = [],
          tk_last_error = (if usable then [] else ''Account configuration changed; sign in again''),
          tk_needs_login = False, tk_metadata = None, tk_jwks = None\<rparr>)"

definition refresh_of :: "token_state \<Rightarrow> json" where
  "refresh_of tk = (case tk_record tk of None \<Rightarrow> JNull | Some r \<Rightarrow> ar_refresh r)"

definition record_username :: "config \<Rightarrow> token_state \<Rightarrow> string" where
  "record_username cfg tk =
     (case tk_record tk of None \<Rightarrow> username (cfg_account cfg) | Some r \<Rightarrow> ar_username r)"

subsection \<open>\<open>status\<close>\<close>

record account_status =
  as_credential_present :: bool
  as_needs_login :: bool
  as_username :: string
  as_origin :: string
  as_last_refresh :: "rat option"
  as_last_error :: string
  as_access_expires :: "pyfloat option"

definition token_status :: "config \<Rightarrow> token_state \<Rightarrow> account_status" where
  "token_status cfg tk = \<lparr>
     as_credential_present = truthy (refresh_of tk),
     as_needs_login = (tk_needs_login tk \<or> refresh_of tk = JNull),
     as_username = record_username cfg tk,
     as_origin = (case tk_record tk of None \<Rightarrow> ''none'' | Some r \<Rightarrow> ar_mode r),
     as_last_refresh = (case tk_record tk of None \<Rightarrow> None | Some r \<Rightarrow> ar_last_refresh r),
     as_last_error = tk_last_error tk,
     as_access_expires = (if tk_expires tk = Fin 0 then None else Some (tk_expires tk))\<rparr>"

section \<open>Requests to the identity provider\<close>

text \<open>What a request meets: no connection, or a response with a status and its body chunks.\<close>

datatype reply = NetFail | Reply int "bytes list"

definition read_json :: "oauth_lib \<Rightarrow> reply \<Rightarrow> (string \<times> json) list res" where
  "read_json lib r =
     (case r of
        NetFail \<Rightarrow> Inl (Retryable ''Identity provider connection failed'' (Fin 30) True)
      | Reply st parts \<Rightarrow>
          (case read_limited parts of
             None \<Rightarrow> Inl (AuthenticationRequired ''Oversized identity provider response'')
           | Some content \<Rightarrow>
               if st \<in> {429, 500, 502, 503, 504}
               then Inl (Retryable ''Identity provider temporarily unavailable'' (Fin 30) True)
               else (case ol_json lib content of
                   Some (JObj kvs) \<Rightarrow>
                     if st \<ge> 300 \<or> obj_get ''error'' kvs \<noteq> None
                     then Inl (AuthenticationRequired (''Microsoft login: '' @
                            safe_text ''_.-'' (case obj_get ''error'' kvs of
                               None \<Rightarrow> ''identity_request_failed'' | Some e \<Rightarrow> str_json lib e)))
                     else Inr kvs
                 | _ \<Rightarrow> Inl (AuthenticationRequired ''Invalid identity provider response''))))"

definition client_secret :: "oauth_lib \<Rightarrow> config \<Rightarrow> (string \<times> json) list res" where
  "client_secret lib cfg =
     (let variable = acc_client_secret_env (cfg_account cfg) in
      if variable = [] then Inr []
      else case ol_env lib variable of
          Some (c # cs) \<Rightarrow> Inr [(''client_secret'', JStr (c # cs))]
        | _ \<Rightarrow> Inl (AuthenticationRequired
            ''Configured OAuth client-secret environment variable is missing''))"

definition authority :: "config \<Rightarrow> string" where
  "authority cfg = ''https://login.microsoftonline.com/'' @ acc_tenant_id (cfg_account cfg)"

text \<open>The address and the form of the refresh request.\<close>

definition refresh_request :: "config \<Rightarrow> account_record \<Rightarrow> string \<times> (string \<times> json) list" where
  "refresh_request cfg r =
     (let a = cfg_account cfg;
          form = [(''client_id'', JStr (acc_client_id a)), (''grant_type'', JStr ''refresh_token''),
                  (''refresh_token'', ar_refresh r)]
      in if ar_mode r = ''legacy_v1''
         then (authority cfg @ ''/oauth2/token'',
               form @ [(''resource'', JStr ''https://outlook.office365.com/''),
                       (''redirect_uri'', JStr (acc_redirect_uri a))])
         else (authority cfg @ ''/oauth2/v2.0/token'', form @ [(''scope'', JStr (scope a))]))"

section \<open>\<open>_save_result\<close>\<close>

text \<open>\<open>float(value)\<close> of a decoded value.\<close>

definition json_float :: "json \<Rightarrow> pyfloat res" where
  "json_float j =
     (case j of
        JNum x \<Rightarrow> Inr x
      | JBool b \<Rightarrow> Inr (Fin (if b then 1 else 0))
      | JStr s \<Rightarrow> (case parse_float s of Some x \<Rightarrow> Inr x
                   | None \<Rightarrow> Inl (ValueError ''could not convert string to float''))
      | _ \<Rightarrow> Inl (OtherExc ''TypeError''))"

definition or_else :: "string option \<Rightarrow> string \<Rightarrow> string" where
  "or_else x y = (case x of Some (c # cs) \<Rightarrow> c # cs | _ \<Rightarrow> y)"

text \<open>The bearer token of a token response.\<close>

definition bearer :: "oauth_lib \<Rightarrow> (string \<times> json) list \<Rightarrow> string option" where
  "bearer lib result =
     (case obj_get ''access_token'' result of
        Some (JStr (c # cs)) \<Rightarrow>
          if casefold (case obj_get ''token_type'' result of
               None \<Rightarrow> ''Bearer'' | Some t \<Rightarrow> str_json lib t) = ''bearer''
          then Some (c # cs) else None
      | _ \<Rightarrow> None)"

definition new_record :: "oauth_lib \<Rightarrow> config \<Rightarrow> rat \<Rightarrow> (string \<times> json) list \<Rightarrow> string
    \<Rightarrow> string option \<Rightarrow> string option \<Rightarrow> token_state \<Rightarrow> account_record" where
  "new_record lib cfg now result mode user dflt tk = \<lparr>
     ar_fingerprint = account_fingerprint lib cfg, ar_mode = mode,
     ar_username = or_else user (record_username cfg tk),
     ar_default_sender = Some (or_else dflt
        (case tk_record tk of None \<Rightarrow> sender_of cfg
         | Some r \<Rightarrow> (case ar_default_sender r of None \<Rightarrow> sender_of cfg | Some s \<Rightarrow> s))),
     ar_refresh = (case obj_get ''refresh_token'' result of None \<Rightarrow> refresh_of tk | Some t \<Rightarrow> t),
     ar_last_refresh = Some now\<rparr>"

definition token_lifetime :: "(string \<times> json) list \<Rightarrow> pyfloat res" where
  "token_lifetime result =
     bind_res (json_float (case obj_get ''expires_in'' result of None \<Rightarrow> JNum (Fin 3600) | Some x \<Rightarrow> x))
       (\<lambda>x. Inr (py_min (py_max x (Fin 1)) (Fin 86400)))"

text \<open>\<open>write_ok\<close> says whether the vault could be written; one clock reading serves the operation.\<close>

definition save_result :: "oauth_lib \<Rightarrow> config \<Rightarrow> rat \<Rightarrow> bool \<Rightarrow> (string \<times> json) list \<Rightarrow> string
    \<Rightarrow> string option \<Rightarrow> string option \<Rightarrow> token_state \<Rightarrow> token_state \<times> unit res" where
  "save_result lib cfg now write_ok result mode user dflt tk =
     (case bearer lib result of
        None \<Rightarrow> (tk, Inl (AuthenticationRequired ''Token endpoint did not return a bearer access token''))
      | Some token \<Rightarrow>
          let r = new_record lib cfg now result mode user dflt tk in
          if \<not> truthy (ar_refresh r)
          then (tk, Inl (AuthenticationRequired ''No refresh credential is available''))
          else
            let tk1 = tk\<lparr>tk_record := Some r\<rparr> in
            if \<not> write_ok
            then (tk1, Inl (Retryable ''Cannot persist renewed account credentials'' (Fin 30) True))
            else
              let tk2 = tk1\<lparr>tk_stored := Some r, tk_access := token\<rparr> in
              (case token_lifetime result of
                 Inl e \<Rightarrow> (tk2, Inl e)
               | Inr life \<Rightarrow> (tk2\<lparr>tk_expires := py_add (Fin now) life\<rparr>, Inr ())))"

section \<open>\<open>get_token\<close>, \<open>rejected_token\<close>, \<open>accepted_token\<close>, \<open>disconnect\<close>\<close>

record token_env =
  te_now :: rat
  te_reply :: reply
  te_write_ok :: bool

definition mark_login :: "exn \<Rightarrow> token_state \<Rightarrow> token_state" where
  "mark_login e tk =
     (case e of AuthenticationRequired m \<Rightarrow> tk\<lparr>tk_last_error := m, tk_needs_login := True\<rparr> | _ \<Rightarrow> tk)"

definition get_token :: "oauth_lib \<Rightarrow> config \<Rightarrow> token_env \<Rightarrow> token_state \<Rightarrow> token_state \<times> string res" where
  "get_token lib cfg env tk =
     (case tk_record tk of
        None \<Rightarrow> (tk, Inl (AuthenticationRequired
                   (or_else (Some (tk_last_error tk)) ''Sign in to the configured Microsoft account'')))
      | Some r \<Rightarrow>
          if tk_needs_login tk \<or> \<not> truthy (ar_refresh r)
          then (tk, Inl (AuthenticationRequired
                   (or_else (Some (tk_last_error tk)) ''Sign in to the configured Microsoft account'')))
          else if tk_access tk \<noteq> [] \<and> py_lt (Fin (te_now env + 60)) (tk_expires tk)
          then (tk, Inr (tk_access tk))
          else (case client_secret lib cfg of
              Inl e \<Rightarrow> (tk, Inl e)
            | Inr secret \<Rightarrow>
                (case read_json lib (te_reply env) of
                   Inl e \<Rightarrow> (mark_login e tk, Inl e)
                 | Inr result \<Rightarrow>
                     (case save_result lib cfg (te_now env) (te_write_ok env) result (ar_mode r)
                             None None tk of
                        (tk1, Inl e) \<Rightarrow> (mark_login e tk1, Inl e)
                      | (tk1, Inr u) \<Rightarrow> (tk1, Inr (tk_access tk1))))))"

text \<open>It always raises.\<close>

definition rejected_token :: "oauth_lib \<Rightarrow> string \<Rightarrow> token_state \<Rightarrow> token_state \<times> exn" where
  "rejected_token lib rejected tk =
     (if tk_access tk \<noteq> [] \<and> tk_access tk \<noteq> rejected
      then (tk, Retryable ''An older access token was rejected'' (Fin 3) True)
      else
        let digest = ol_digest lib rejected;
            tk1 = (if digest \<noteq> tk_rejected_digest tk
                   then tk\<lparr>tk_rejected_digest := digest, tk_rejections := tk_rejections tk + 1\<rparr>
                   else tk);
            tk2 = tk1\<lparr>tk_access := [], tk_expires := Fin 0\<rparr>
        in if tk_rejections tk2 > 1
           then (tk2\<lparr>tk_needs_login := True,
                     tk_last_error := ''Microsoft rejected renewed credentials; sign in again''\<rparr>,
                 AuthenticationRequired ''Microsoft rejected renewed credentials; sign in again'')
           else (tk2, Retryable ''Microsoft requested a fresh access token'' (Fin 3) True))"

definition accepted_token :: "token_state \<Rightarrow> token_state" where
  "accepted_token tk = tk\<lparr>tk_rejections := 0, tk_rejected_digest := []\<rparr>"

definition token_disconnect :: "bool \<Rightarrow> token_state \<Rightarrow> token_state \<times> unit res" where
  "token_disconnect write_ok tk =
     (if \<not> write_ok then (tk, Inl OSError)
      else (tk\<lparr>tk_stored := None, tk_record := None, tk_access := [], tk_expires := Fin 0,
               tk_needs_login := True, tk_last_error := ''Account disconnected locally''\<rparr>, Inr ()))"

end
