(* ===== verification/Gw_Login.thy ===== *)
theory Gw_Login
  imports Gw_Tokens
begin

text \<open>
  \<open>oauth.py\<close>, the interactive login: \<open>begin_login\<close>, the ID token check, the profile read and
  \<open>complete_login\<close>.
\<close>

section \<open>\<open>begin_login\<close>\<close>

text \<open>The random values, and the PKCE challenge of the verifier, come from the libraries.\<close>

record login_random =
  lr_state :: string
  lr_nonce :: string
  lr_verifier :: string
  lr_challenge :: string

definition begin_login ::
  "config \<Rightarrow> bool \<Rightarrow> login_random \<Rightarrow> rat \<Rightarrow> (string \<times> (string \<times> string) list) \<times> login_flow" where
  "begin_login cfg allow_any rnd now =
     (let a = cfg_account cfg;
          params = [(''client_id'', acc_client_id a), (''response_type'', ''code''),
            (''redirect_uri'', acc_redirect_uri a), (''response_mode'', ''query''),
            (''scope'', scope a), (''state'', lr_state rnd), (''nonce'', lr_nonce rnd),
            (''code_challenge'', lr_challenge rnd), (''code_challenge_method'', ''S256''),
            (''prompt'', ''select_account'')] @
            (if allow_any then [] else [(''login_hint'', username a)])
      in ((authority cfg @ ''/oauth2/v2.0/authorize?'', params),
          \<lparr>lf_state = lr_state rnd, lf_nonce = lr_nonce rnd, lf_verifier = lr_verifier rnd,
           lf_expires = now + 600\<rparr>))"

section \<open>The ID token\<close>

record login_env =
  le_now :: rat
  le_token :: reply
  le_metadata :: reply
  le_jwks1 :: reply
  le_jwks2 :: reply
  le_profile :: reply
  le_write_ok :: bool

definition invalid_id :: exn where
  "invalid_id = AuthenticationRequired
     ''ID token validation failed, or the signed-in account does not match the configured login username''"

text \<open>The signing keys with the token's key ID.  A key that is not a dictionary is an
  \<open>AttributeError\<close>, which the caller does not catch.\<close>

definition key_field :: "json \<Rightarrow> string \<Rightarrow> json \<Rightarrow> json" where
  "key_field key f dflt = (case key of
      JObj kvs \<Rightarrow> (case obj_get f kvs of None \<Rightarrow> dflt | Some v \<Rightarrow> v) | _ \<Rightarrow> dflt)"

definition is_obj :: "json \<Rightarrow> bool" where
  "is_obj j = (case j of JObj kvs \<Rightarrow> True | _ \<Rightarrow> False)"

definition matching_keys :: "(string \<times> json) list \<Rightarrow> (string \<times> json) list \<Rightarrow> json list res" where
  "matching_keys jwks header =
     (case obj_get ''keys'' jwks of
        None \<Rightarrow> Inr []
      | Some (JList keys) \<Rightarrow>
          if \<not> list_all is_obj keys then Inl (OtherExc ''AttributeError'')
          else Inr (filter (\<lambda>k. key_field k ''kid'' JNull = key_field (JObj header) ''kid'' JNull \<and>
                 key_field k ''use'' (JStr ''sig'') = JStr ''sig'' \<and>
                 key_field k ''kty'' JNull = JStr ''RSA'') keys)
      | Some (JStr s) \<Rightarrow> if s = [] then Inr [] else Inl (OtherExc ''AttributeError'')
      | Some (JObj kvs) \<Rightarrow> if kvs = [] then Inr [] else Inl (OtherExc ''AttributeError'')
      | Some _ \<Rightarrow> Inl invalid_id)"

text \<open>At most two looks at the key set: the cached one first, then a fresh one.\<close>

definition find_keys :: "oauth_lib \<Rightarrow> login_env \<Rightarrow> (string \<times> json) list \<Rightarrow> token_state
    \<Rightarrow> token_state \<times> json list res" where
  "find_keys lib env header tk =
     (let first = (case tk_jwks tk of Some j \<Rightarrow> Inr j | None \<Rightarrow> read_json lib (le_jwks1 env)) in
      case first of
        Inl e \<Rightarrow> (tk, Inl e)
      | Inr j1 \<Rightarrow>
          let tk1 = tk\<lparr>tk_jwks := Some j1\<rparr> in
          (case matching_keys j1 header of
             Inl e \<Rightarrow> (tk1, Inl e)
           | Inr (k # ks) \<Rightarrow> (tk1, Inr (k # ks))
           | Inr [] \<Rightarrow>
               (case read_json lib (le_jwks2 env) of
                  Inl e \<Rightarrow> (tk1, Inl e)
                | Inr j2 \<Rightarrow> (tk1\<lparr>tk_jwks := Some j2\<rparr>, matching_keys j2 header))))"

text \<open>\<open>claims.get("preferred_username") or claims.get("upn") or claims.get("unique_name")\<close>\<close>

definition claimed_name :: "(string \<times> json) list \<Rightarrow> json" where
  "claimed_name claims =
     (let get = (\<lambda>k. case obj_get k claims of None \<Rightarrow> JNull | Some v \<Rightarrow> v) in
      if truthy (get ''preferred_username'') then get ''preferred_username''
      else if truthy (get ''upn'') then get ''upn'' else get ''unique_name'')"

definition name_accepted :: "config \<Rightarrow> bool \<Rightarrow> json \<Rightarrow> bool" where
  "name_accepted cfg allow_any name =
     (case name of
        JStr s \<Rightarrow> allow_any \<or> casefold s = casefold (username (cfg_account cfg))
      | _ \<Rightarrow> False)"

text \<open>\<open>metadata["issuer"].replace("{tenantid}", tenant)\<close>\<close>

fun subst_all :: "string \<Rightarrow> string \<Rightarrow> nat \<Rightarrow> string \<Rightarrow> string" where
  "subst_all m new (Suc n) (c # cs) = subst_all m new n cs"
| "subst_all m new k [] = []"
| "subst_all m new 0 (c # cs) =
     (if m \<noteq> [] \<and> is_prefix m (c # cs) then new @ subst_all m new (length m - 1) cs
      else c # subst_all m new 0 cs)"

definition tenant_issuer :: "string \<Rightarrow> string \<Rightarrow> string" where
  "tenant_issuer issuer tenant = subst_all ''{tenantid}'' tenant 0 issuer"

text \<open>The checks on the decoded token, from the unverified claims to the verified ones.\<close>

definition token_tenant :: "oauth_lib \<Rightarrow> string \<Rightarrow> string res" where
  "token_tenant lib token =
     (case ol_jwt_peek lib token of
        None \<Rightarrow> Inl invalid_id
      | Some peek \<Rightarrow>
          (case obj_get ''tid'' peek of
             None \<Rightarrow> Inl invalid_id
           | Some (JStr t) \<Rightarrow> (case ol_uuid lib t of None \<Rightarrow> Inl invalid_id | Some u \<Rightarrow> Inr u)
           | Some _ \<Rightarrow> Inl (OtherExc ''AttributeError'')))"

definition metadata_issuer :: "(string \<times> json) list \<Rightarrow> string \<Rightarrow> string res" where
  "metadata_issuer meta tenant =
     (case obj_get ''issuer'' meta of
        None \<Rightarrow> Inl invalid_id
      | Some (JStr i) \<Rightarrow> Inr (tenant_issuer i tenant)
      | Some _ \<Rightarrow> Inl (OtherExc ''AttributeError''))"

definition check_claims :: "oauth_lib \<Rightarrow> config \<Rightarrow> bool \<Rightarrow> string \<Rightarrow> json \<Rightarrow> string \<Rightarrow> string
    \<Rightarrow> (string \<times> json) list res" where
  "check_claims lib cfg allow_any token key issuer nonce =
     (case ol_jwt_verify lib token key (acc_client_id (cfg_account cfg)) issuer of
        None \<Rightarrow> Inl invalid_id
      | Some claims \<Rightarrow>
          (case obj_get ''nonce'' claims of
             None \<Rightarrow> Inl invalid_id
           | Some n \<Rightarrow>
               if str_json lib n \<noteq> nonce \<or> \<not> name_accepted cfg allow_any (claimed_name claims)
               then Inl invalid_id else Inr claims))"

definition signing_key :: "json list res \<Rightarrow> json res" where
  "signing_key ks = bind_res ks (\<lambda>m. case m of [k] \<Rightarrow> Inr k | _ \<Rightarrow> Inl invalid_id)"

definition trusted_keys_url :: "oauth_lib \<Rightarrow> (string \<times> json) list \<Rightarrow> bool res" where
  "trusted_keys_url lib meta =
     (let check = (\<lambda>u. case ol_url lib u of None \<Rightarrow> Inl (ValueError ''Invalid URL'')
         | Some parts \<Rightarrow> Inr (parts = (''https'', Some ''login.microsoftonline.com'', None)))
      in case obj_get ''jwks_uri'' meta of
           Some (JStr u) \<Rightarrow> check u
         | None \<Rightarrow> check []
         | Some JNull \<Rightarrow> Inr False
         | Some _ \<Rightarrow> Inl (OtherExc ''AttributeError''))"

definition verify_id_token :: "oauth_lib \<Rightarrow> config \<Rightarrow> bool \<Rightarrow> login_env \<Rightarrow> json \<Rightarrow> string
    \<Rightarrow> token_state \<Rightarrow> token_state \<times> (string \<times> json) list res" where
  "verify_id_token lib cfg allow_any env token nonce tk =
     (case (case tk_metadata tk of Some m \<Rightarrow> Inr m | None \<Rightarrow> read_json lib (le_metadata env)) of
        Inl e \<Rightarrow> (tk, Inl e)
      | Inr meta \<Rightarrow>
          let tk1 = tk\<lparr>tk_metadata := Some meta\<rparr> in
          (case trusted_keys_url lib meta of
             Inl e \<Rightarrow> (tk1, Inl e)
           | Inr False \<Rightarrow>
               (tk1, Inl (AuthenticationRequired ''Unexpected identity provider key endpoint''))
           | Inr True \<Rightarrow>
               (case token of
                  JStr jwt \<Rightarrow>
                    (case ol_jwt_header lib jwt of
                       None \<Rightarrow> (tk1, Inl invalid_id)
                     | Some header \<Rightarrow>
                         (case token_tenant lib jwt of
                            Inl e \<Rightarrow> (tk1, Inl e)
                          | Inr tenant \<Rightarrow>
                              if obj_get ''alg'' header \<noteq> Some (JStr ''RS256'')
                              then (tk1, Inl invalid_id)
                              else (case metadata_issuer meta tenant of
                                  Inl e \<Rightarrow> (tk1, Inl e)
                                | Inr issuer \<Rightarrow>
                                    let (tk2, ks) = find_keys lib env header tk1
                                    in (tk2, bind_res (signing_key ks)
                                         (\<lambda>k. check_claims lib cfg allow_any jwt k issuer nonce)))))
                | _ \<Rightarrow> (tk1, Inl invalid_id))))"

section \<open>\<open>_profile_address\<close>\<close>

definition profile_error :: exn where
  "profile_error = AuthenticationRequired
     ''Could not read a valid address from the signed-in Microsoft account''"

definition profile_address :: "oauth_lib \<Rightarrow> json \<Rightarrow> reply \<Rightarrow> string res" where
  "profile_address lib access r =
     (case access of
        JStr token \<Rightarrow>
          (case r of
             NetFail \<Rightarrow> Inl profile_error
           | Reply st parts \<Rightarrow>
               (case read_limited parts of
                  None \<Rightarrow> Inl profile_error
                | Some content \<Rightarrow>
                    if st \<noteq> 200
                    then Inl (AuthenticationRequired ''Could not read the signed-in Microsoft address'')
                    else (case ol_json lib content of
                        Some (JObj p) \<Rightarrow>
                          (let get = (\<lambda>k. case obj_get k p of None \<Rightarrow> JNull | Some v \<Rightarrow> v);
                               address = (if truthy (get ''mail'') then get ''mail''
                                          else get ''userPrincipalName'')
                           in (case address of
                                 JStr a \<Rightarrow> (case mailbox (ol_email lib) a False of
                                     Inr m \<Rightarrow> Inr m | Inl e \<Rightarrow> Inl profile_error)
                               | _ \<Rightarrow> Inl profile_error))
                      | _ \<Rightarrow> Inl profile_error)))
      | _ \<Rightarrow> Inl profile_error)"

section \<open>\<open>complete_login\<close>\<close>

definition callback_value :: "string \<Rightarrow> (string \<times> string) list \<Rightarrow> string" where
  "callback_value k resp = (case map_of resp k of None \<Rightarrow> [] | Some v \<Rightarrow> v)"

text \<open>The checks of the callback; \<open>hmac.compare_digest\<close> raises on text that is not ASCII.\<close>

definition check_callback :: "login_flow \<Rightarrow> rat \<Rightarrow> (string \<times> string) list \<Rightarrow> unit res" where
  "check_callback flow now resp =
     (if lf_expires flow < now
      then Inl (AuthenticationRequired ''Expired login or OAuth state mismatch'')
      else if list_ex non_ascii (callback_value ''state'' resp) then Inl (OtherExc ''TypeError'')
      else if callback_value ''state'' resp \<noteq> lf_state flow
      then Inl (AuthenticationRequired ''Expired login or OAuth state mismatch'')
      else if map_of resp ''error'' \<noteq> None \<or> callback_value ''code'' resp = []
      then Inl (AuthenticationRequired ''Microsoft login was not completed'')
      else Inr ())"

definition code_request ::
  "config \<Rightarrow> login_flow \<Rightarrow> (string \<times> string) list \<Rightarrow> string \<times> (string \<times> json) list" where
  "code_request cfg flow resp =
     (let a = cfg_account cfg in
      (authority cfg @ ''/oauth2/v2.0/token'',
       [(''client_id'', JStr (acc_client_id a)), (''grant_type'', JStr ''authorization_code''),
        (''code'', JStr (callback_value ''code'' resp)),
        (''redirect_uri'', JStr (acc_redirect_uri a)), (''scope'', JStr (scope a)),
        (''code_verifier'', JStr (lf_verifier flow))]))"

definition login_address :: "oauth_lib \<Rightarrow> config \<Rightarrow> bool \<Rightarrow> login_env \<Rightarrow> (string \<times> json) list
    \<Rightarrow> string res" where
  "login_address lib cfg allow_any env result =
     (if \<not> allow_any then Inr (username (cfg_account cfg))
      else case obj_get ''access_token'' result of
          None \<Rightarrow> Inl (OtherExc ''KeyError'')
        | Some t \<Rightarrow> profile_address lib t (le_profile env))"

definition name_text :: "json \<Rightarrow> string option" where
  "name_text j = (case j of JStr s \<Rightarrow> Some s | _ \<Rightarrow> None)"

definition complete_login :: "oauth_lib \<Rightarrow> config \<Rightarrow> bool \<Rightarrow> login_env \<Rightarrow> login_flow
    \<Rightarrow> (string \<times> string) list \<Rightarrow> token_state \<Rightarrow> token_state \<times> string res" where
  "complete_login lib cfg allow_any env flow resp tk =
     (case check_callback flow (le_now env) resp of
        Inl e \<Rightarrow> (tk, Inl e)
      | Inr u \<Rightarrow>
          (case bind_res (client_secret lib cfg) (\<lambda>secret. read_json lib (le_token env)) of
             Inl e \<Rightarrow> (tk, Inl e)
           | Inr result \<Rightarrow>
               let (tk1, verified) = verify_id_token lib cfg allow_any env
                     (case obj_get ''id_token'' result of None \<Rightarrow> JStr [] | Some t \<Rightarrow> t)
                     (lf_nonce flow) tk in
               (case verified of
                  Inl e \<Rightarrow> (tk1, Inl e)
                | Inr claims \<Rightarrow>
                    if \<not> truthy (case obj_get ''refresh_token'' result of None \<Rightarrow> JNull | Some t \<Rightarrow> t)
                    then (tk1, Inl (AuthenticationRequired
                            ''No refresh token returned; offline_access consent is required''))
                    else (case login_address lib cfg allow_any env result of
                        Inl e \<Rightarrow> (tk1, Inl e)
                      | Inr address \<Rightarrow>
                          (case save_result lib cfg (le_now env) (le_write_ok env) result ''v2''
                                  (name_text (claimed_name claims)) (Some address) tk1 of
                             (tk2, Inl e) \<Rightarrow> (tk2, Inl e)
                           | (tk2, Inr v) \<Rightarrow>
                               (tk2\<lparr>tk_needs_login := False, tk_last_error := [],
                                    tk_rejections := 0, tk_rejected_digest := []\<rparr>, Inr address))))))"

end
