(* ===== verification/Gw_Tokens_Props.thy ===== *)
theory Gw_Tokens_Props
  imports Gw_Login
begin

text \<open>
  What the credentials guarantee: a refreshed token is used only after the rotated credential is
  stored, rejections are counted per token, and a login completes only for the flow's own state,
  nonce and account.
\<close>

section \<open>Saving\<close>

lemma save_result_cases:
  assumes "save_result lib cfg now w result mode user dflt tk = (tk', res)"
  obtains (refused) e where "tk' = tk" "res = Inl (AuthenticationRequired e)"
  | (unsaved) r token where "bearer lib result = Some token" "\<not> w"
      "r = new_record lib cfg now result mode user dflt tk" "truthy (ar_refresh r)"
      "tk' = tk\<lparr>tk_record := Some r\<rparr>"
      "res = Inl (Retryable ''Cannot persist renewed account credentials'' (Fin 30) True)"
  | (odd) r token e where "bearer lib result = Some token" "w"
      "r = new_record lib cfg now result mode user dflt tk" "truthy (ar_refresh r)"
      "token_lifetime result = Inl e" "res = Inl e"
      "tk' = tk\<lparr>tk_record := Some r, tk_stored := Some r, tk_access := token\<rparr>"
  | (saved) r token life where "bearer lib result = Some token" "w"
      "r = new_record lib cfg now result mode user dflt tk" "truthy (ar_refresh r)"
      "token_lifetime result = Inr life" "res = Inr ()"
      "tk' = tk\<lparr>tk_record := Some r, tk_stored := Some r, tk_access := token,
                 tk_expires := py_add (Fin now) life\<rparr>"
proof (cases "bearer lib result")
  case None
  then show ?thesis using assms by (auto simp: save_result_def intro: refused)
next
  case (Some token)
  let ?r = "new_record lib cfg now result mode user dflt tk"
  show ?thesis
  proof (cases "truthy (ar_refresh ?r)")
    case False
    then show ?thesis using assms Some by (auto simp: save_result_def Let_def intro: refused)
  next
    case tr: True
    show ?thesis
    proof (cases w)
      case False
      then show ?thesis using assms Some tr by (auto simp: save_result_def Let_def intro: unsaved)
    next
      case True
      then show ?thesis using assms Some tr
        by (cases "token_lifetime result") (auto simp: save_result_def Let_def intro: odd saved)
    qed
  qed
qed

lemma bearer_ne: "bearer lib result = Some t \<Longrightarrow> t \<noteq> []"
  by (auto simp: bearer_def split: option.splits json.splits list.splits if_splits)

lemma mark_login_fields [simp]:
  "tk_record (mark_login e tk) = tk_record tk" "tk_access (mark_login e tk) = tk_access tk"
  "tk_stored (mark_login e tk) = tk_stored tk"
  by (cases e; simp add: mark_login_def)+

section \<open>Refreshing\<close>

text \<open>
  C30: An access token is handed out only in one of two ways: it is the cached one, still valid
  for more than a minute, and nothing changes; or it was just issued, and then the rotated
  credential was written to the vault before the token is used.  In both cases a login is not
  pending, and the token is not empty.
\<close>

theorem token_is_valid_or_persisted:
  assumes "get_token lib cfg env tk = (tk', Inr t)"
  shows "\<not> tk_needs_login tk \<and> t \<noteq> [] \<and> t = tk_access tk' \<and>
     ((tk' = tk \<and> py_lt (Fin (te_now env + 60)) (tk_expires tk)) \<or>
      (te_write_ok env \<and> tk_stored tk' = tk_record tk' \<and>
       (\<exists>r. tk_record tk' = Some r \<and> truthy (ar_refresh r)
          \<and> ar_fingerprint r = account_fingerprint lib cfg)))"
proof -
  obtain r where r: "tk_record tk = Some r" using assms
    by (auto simp: get_token_def split: option.splits)
  have ok: "\<not> tk_needs_login tk" "truthy (ar_refresh r)"
    using assms r by (auto simp: get_token_def split: if_splits)
  show ?thesis
  proof (cases "tk_access tk \<noteq> [] \<and> py_lt (Fin (te_now env + 60)) (tk_expires tk)")
    case True
    then show ?thesis using assms r ok by (auto simp: get_token_def)
  next
    case False
    note g = assms [unfolded get_token_def r option.case]
    obtain secret where s: "client_secret lib cfg = Inr secret"
      using g ok False by (auto split: if_splits sum.splits)
    obtain result where j: "read_json lib (te_reply env) = Inr result"
      using g ok False s by (auto split: if_splits sum.splits)
    obtain tk1 u where "save_result lib cfg (te_now env) (te_write_ok env) result (ar_mode r)
        None None tk = (tk1, u)" by force
    note sv = this
    from sv have "te_write_ok env \<and> tk_stored tk' = tk_record tk' \<and> t \<noteq> [] \<and> t = tk_access tk' \<and>
       (\<exists>r. tk_record tk' = Some r \<and> truthy (ar_refresh r)
          \<and> ar_fingerprint r = account_fingerprint lib cfg)"
      by (cases rule: save_result_cases)
        (use g ok False s j sv in \<open>auto simp: new_record_def dest: bearer_ne split: if_splits\<close>)
    then show ?thesis using ok by blast
  qed
qed

text \<open>A small identity provider: response bodies by name, hashes by tagging, one signed token.\<close>

definition demo_token_body :: "(string \<times> json) list" where
  "demo_token_body = [(''access_token'', JStr ''tok2''), (''refresh_token'', JStr ''r2''),
     (''expires_in'', JNum (Fin 3600)), (''id_token'', JStr ''jwt'')]"

definition demo_claims :: "(string \<times> json) list" where
  "demo_claims = [(''tid'', JStr ''t''), (''nonce'', JStr ''n''), (''upn'', JStr ''GW@x.y'')]"

definition demo_oauth :: oauth_lib where
  "demo_oauth = \<lparr>
     ol_json = (\<lambda>b. if b = ''T'' then Some (JObj demo_token_body)
        else if b = ''M'' then Some (JObj [(''jwks_uri'', JStr ''K''), (''issuer'', JStr ''i'')])
        else if b = ''K'' then Some (JObj [(''keys'', JList [JObj [(''kty'', JStr ''RSA'')]])])
        else None),
     ol_str = (\<lambda>_. []), ol_hash = concat, ol_digest = (\<lambda>s. CHR ''#'' # s), ol_uuid = Some,
     ol_jwt_header = (\<lambda>_. Some [(''alg'', JStr ''RS256'')]), ol_jwt_peek = (\<lambda>_. Some demo_claims),
     ol_jwt_verify = (\<lambda>t k a i. Some demo_claims),
     ol_url = (\<lambda>_. Some (''https'', Some ''login.microsoftonline.com'', None)),
     ol_env = (\<lambda>_. None),
     ol_email = \<lparr>el_parse = (\<lambda>_. ([], False)), el_store = (\<lambda>_ _. None), el_serialize = (\<lambda>_. []),
       el_addr_spec = (\<lambda>_. None), el_formatdate = []\<rparr>\<rparr>"

definition oauth_cfg :: config where
  "oauth_cfg = default_config\<lparr>cfg_account := default_account\<lparr>acc_sender := ''gw@x.y''\<rparr>\<rparr>"

definition demo_record :: account_record where
  "demo_record = \<lparr>ar_fingerprint = account_fingerprint demo_oauth oauth_cfg, ar_mode = ''v2'',
     ar_username = ''gw@x.y'', ar_default_sender = None, ar_refresh = JStr ''r1'',
     ar_last_refresh = None\<rparr>"

definition demo_tokens :: token_state where
  "demo_tokens = token_init demo_oauth oauth_cfg (Some demo_record)"

definition demo_tenv :: token_env where
  "demo_tenv = \<lparr>te_now = 100, te_reply = Reply 200 [''T''], te_write_ok = True\<rparr>"

definition demo_fresh :: token_state where
  "demo_fresh = fst (get_token demo_oauth oauth_cfg demo_tenv demo_tokens)"

lemma demo_fresh_eq: "get_token demo_oauth oauth_cfg demo_tenv demo_tokens = (demo_fresh, Inr ''tok2'')"
proof -
  have "snd (get_token demo_oauth oauth_cfg demo_tenv demo_tokens) = Inr ''tok2''" by code_simp
  then show ?thesis by (simp add: demo_fresh_def prod_eq_iff)
qed

theorem token_is_valid_or_persisted_witness:
  "tk_access demo_fresh = ''tok2'' \<and> tk_stored demo_fresh = tk_record demo_fresh"
proof -
  have "demo_fresh \<noteq> demo_tokens" by code_simp
  then show ?thesis using token_is_valid_or_persisted [OF demo_fresh_eq] by auto
qed

section \<open>Rejections\<close>

lemma rejected_same:
  assumes "rejected_token lib t tk = (tk', e)" and "tk_rejections tk \<le> 1"
    and "tk_rejections tk = 1 \<longrightarrow> tk_rejected_digest tk = ol_digest lib t"
  shows "tk_needs_login tk' = tk_needs_login tk \<and> tk_rejections tk' \<le> 1
    \<and> (tk_rejections tk' = 1 \<longrightarrow> tk_rejected_digest tk' = ol_digest lib t)
    \<and> (\<exists>m. e = Retryable m (Fin 3) True)"
  using assms by (auto simp: rejected_token_def Let_def split: if_splits)

text \<open>Several workers report the same token, one after the other.\<close>

fun rejected_times :: "oauth_lib \<Rightarrow> string \<Rightarrow> nat \<Rightarrow> token_state \<Rightarrow> token_state \<times> exn list" where
  "rejected_times lib t 0 tk = (tk, [])"
| "rejected_times lib t (Suc n) tk =
     (let (tk1, e) = rejected_token lib t tk; (tk2, es) = rejected_times lib t n tk1
      in (tk2, e # es))"

lemma rejected_times_same:
  assumes "tk_rejections tk \<le> 1"
    and "tk_rejections tk = 1 \<longrightarrow> tk_rejected_digest tk = ol_digest lib t"
    and "rejected_times lib t n tk = (tk', es)"
  shows "tk_needs_login tk' = tk_needs_login tk \<and> tk_rejections tk' \<le> 1
    \<and> list_all (\<lambda>e. \<exists>m. e = Retryable m (Fin 3) True) es"
  using assms
proof (induction n arbitrary: tk es)
  case (Suc n)
  obtain tk1 e where 1: "rejected_token lib t tk = (tk1, e)" by force
  obtain es1 where 2: "rejected_times lib t n tk1 = (tk', es1)" "es = e # es1"
    using Suc.prems(3) 1 by (auto split: prod.splits)
  from rejected_same [OF 1 Suc.prems(1,2)] Suc.IH [OF _ _ 2(1)] 2(2) show ?case by auto
qed simp

text \<open>
   Rejections are counted per token, not per response.  However many workers report that the
  upstream rejected one and the same token, after no rejection or only rejections of that token,
  each is told to retry and the account is not forced to sign in again.  But when a different
  token, the renewed one, is rejected after that, the account must sign in, and no token is handed
  out until it does.
\<close>

theorem rejections_count_tokens:
  assumes "tk_rejections tk = 0" and "rejected_times lib t (Suc n) tk = (tk1, es)"
    and "tk_access tk = t" and "t \<noteq> []" and "tk_record tk \<noteq> None"
  shows "tk_needs_login tk1 = tk_needs_login tk
    \<and> list_all (\<lambda>e. \<exists>m. e = Retryable m (Fin 3) True) es
    \<and> (ol_digest lib t2 \<noteq> ol_digest lib t \<and> ol_digest lib t \<noteq> tk_rejected_digest tk \<longrightarrow>
        (let (tk2, e) = rejected_token lib t2 (tk1\<lparr>tk_access := t2\<rparr>)
         in tk_needs_login tk2 \<and> (\<exists>m. e = AuthenticationRequired m) \<and>
            (\<exists>m. get_token lib cfg env tk2 = (tk2, Inl (AuthenticationRequired m)))))"
proof -
  obtain tk0 e0 es0 where 1: "rejected_token lib t tk = (tk0, e0)"
    and 2: "rejected_times lib t n tk0 = (tk1, es0)"
    using assms(2) by (auto split: prod.splits)
  note same = rejected_times_same [OF _ _ assms(2)]
  have first: "tk_needs_login tk1 = tk_needs_login tk \<and>
      list_all (\<lambda>e. \<exists>m. e = Retryable m (Fin 3) True) es"
    using same assms(1) by simp
  show ?thesis
  proof (cases "ol_digest lib t2 \<noteq> ol_digest lib t \<and> ol_digest lib t \<noteq> tk_rejected_digest tk")
    case True
    have 0: "tk_rejections tk0 = 1 \<and> tk_rejected_digest tk0 = ol_digest lib t
        \<and> tk_record tk0 = tk_record tk"
      using 1 True assms(1,3,4) by (auto simp: rejected_token_def Let_def)
    have "tk_rejections tk1 = 1 \<and> tk_rejected_digest tk1 = ol_digest lib t
        \<and> tk_record tk1 = tk_record tk"
      using 2 0
    proof (induction n arbitrary: tk0 es0)
      case (Suc n)
      obtain a b where ab: "rejected_token lib t tk0 = (a, b)" by force
      then have "tk_rejections a = 1 \<and> tk_rejected_digest a = ol_digest lib t
          \<and> tk_record a = tk_record tk"
        using Suc.prems(2) by (auto simp: rejected_token_def Let_def split: if_splits)
      moreover obtain es1 where "rejected_times lib t n a = (tk1, es1)"
        using Suc.prems(1) ab by (auto split: prod.splits)
      ultimately show ?case using Suc.IH by blast
    qed simp
    then show ?thesis
      using first True assms(5) by (auto simp: rejected_token_def Let_def get_token_def)
  qed (use first in auto)
qed

theorem rejections_count_tokens_witness:
  "tk_needs_login (fst (rejected_times demo_oauth ''tok2'' 3 demo_fresh)) = False
   \<and> tk_needs_login (fst (rejected_token demo_oauth ''tok3''
       ((fst (rejected_times demo_oauth ''tok2'' 3 demo_fresh))\<lparr>tk_access := ''tok3''\<rparr>)))"
proof -
  let ?p = "rejected_times demo_oauth ''tok2'' (Suc 2) demo_fresh"
  have h: "tk_rejections demo_fresh = 0" "?p = (fst ?p, snd ?p)"
    "tk_access demo_fresh = ''tok2''" "''tok2'' \<noteq> []" "tk_record demo_fresh \<noteq> None"
    "tk_needs_login demo_fresh = False" "tk_rejected_digest demo_fresh = []"
    by (code_simp | simp only: prod.collapse)+
  from rejections_count_tokens [OF h(1-5), where ?t2.0 = "''tok3''" and cfg = oauth_cfg and env = demo_tenv]
  show ?thesis using h(6,7) by (auto simp: demo_oauth_def numeral_3_eq_3 Let_def split: prod.splits)
qed

section \<open>Logging in\<close>

lemma verify_id_token_Inr:
  assumes "verify_id_token lib cfg any env token nonce tk = (tk', Inr claims)"
  shows "\<exists>jwt key issuer n. token = JStr jwt \<and>
      ol_jwt_verify lib jwt key (acc_client_id (cfg_account cfg)) issuer = Some claims \<and>
      obj_get ''nonce'' claims = Some n \<and> str_json lib n = nonce \<and>
      name_accepted cfg any (claimed_name claims)"
  using assms unfolding verify_id_token_def check_claims_def
  by (auto simp: Let_def bind_res_Inr split: sum.splits bool.splits json.splits option.splits
      if_splits prod.splits)

lemma find_keys_fields:
  "find_keys lib env header tk = (tk', ks) \<Longrightarrow>
     tk_record tk' = tk_record tk \<and> tk_access tk' = tk_access tk \<and> tk_expires tk' = tk_expires tk
     \<and> tk_needs_login tk' = tk_needs_login tk \<and> tk_stored tk' = tk_stored tk"
  by (auto simp: find_keys_def Let_def split: sum.splits list.splits option.splits)

lemma verify_id_token_fields:
  assumes "verify_id_token lib cfg any env token nonce tk = (tk', x)"
  shows "tk_record tk' = tk_record tk \<and> tk_access tk' = tk_access tk \<and> tk_expires tk' = tk_expires tk
     \<and> tk_needs_login tk' = tk_needs_login tk \<and> tk_stored tk' = tk_stored tk"
  using assms unfolding verify_id_token_def
  by (auto simp: Let_def split: sum.splits bool.splits json.splits option.splits if_splits prod.splits
      dest: find_keys_fields)

definition same_credentials :: "token_state \<Rightarrow> token_state \<Rightarrow> bool" where
  "same_credentials a b = (tk_record a = tk_record b \<and> tk_access a = tk_access b \<and>
     tk_expires a = tk_expires b \<and> tk_needs_login a = tk_needs_login b \<and> tk_stored a = tk_stored b)"

text \<open>A login either ends early, with the credentials as they were, or gets as far as saving.\<close>

lemma complete_login_cases:
  assumes "complete_login lib cfg any env flow resp tk = (tk', res)"
  obtains (early) e where "res = Inl e" "same_credentials tk' tk"
  | (saving) result claims tk1 address tk2 sv where
      "check_callback flow (le_now env) resp = Inr ()"
      "verify_id_token lib cfg any env
        (case obj_get ''id_token'' result of None \<Rightarrow> JStr [] | Some t \<Rightarrow> t) (lf_nonce flow) tk
        = (tk1, Inr claims)" "same_credentials tk1 tk"
      "save_result lib cfg (le_now env) (le_write_ok env) result ''v2''
        (name_text (claimed_name claims)) (Some address) tk1 = (tk2, sv)"
      "case sv of Inl e \<Rightarrow> tk' = tk2 \<and> res = Inl e
       | Inr u \<Rightarrow> res = Inr address \<and> tk' = tk2\<lparr>tk_needs_login := False, tk_last_error := [],
            tk_rejections := 0, tk_rejected_digest := []\<rparr>"
proof (cases "check_callback flow (le_now env) resp")
  case (Inl e)
  then show ?thesis using assms early by (auto simp: complete_login_def same_credentials_def)
next
  case cb: (Inr u)
  show ?thesis
  proof (cases "bind_res (client_secret lib cfg) (\<lambda>secret. read_json lib (le_token env))")
    case (Inl e)
    then show ?thesis using assms cb early by (auto simp: complete_login_def same_credentials_def)
  next
    case j: (Inr result)
    let ?token = "case obj_get ''id_token'' result of None \<Rightarrow> JStr [] | Some t \<Rightarrow> t"
    obtain tk1 v where v: "verify_id_token lib cfg any env ?token (lf_nonce flow) tk = (tk1, v)"
      by force
    have same: "same_credentials tk1 tk"
      using verify_id_token_fields [OF v] by (simp add: same_credentials_def)
    note a = assms [unfolded complete_login_def cb sum.case j Let_def v prod.case]
    show ?thesis
    proof (cases v)
      case (Inl e)
      then show ?thesis using a same early by auto
    next
      case vr: (Inr claims)
      note b = a [unfolded vr sum.case]
      show ?thesis
      proof (cases "truthy (case obj_get ''refresh_token'' result of None \<Rightarrow> JNull | Some t \<Rightarrow> t)")
        case False
        then show ?thesis using b same early by auto
      next
        case True
        note c = b [simplified True simp_thms if_False]
        show ?thesis
        proof (cases "login_address lib cfg any env result")
          case (Inl e)
          show ?thesis by (rule early [of e]) (use c Inl same in auto)
        next
          case (Inr address)
          obtain tk2 sv where sv: "save_result lib cfg (le_now env) (le_write_ok env) result ''v2''
              (name_text (claimed_name claims)) (Some address) tk1 = (tk2, sv)" by force
          have "case sv of Inl e \<Rightarrow> tk' = tk2 \<and> res = Inl e
            | Inr u \<Rightarrow> res = Inr address \<and> tk' = tk2\<lparr>tk_needs_login := False, tk_last_error := [],
                 tk_rejections := 0, tk_rejected_digest := []\<rparr>"
            using c Inr sv by (auto split: sum.splits)
          with saving [OF _ v [unfolded vr] same sv] cb show ?thesis by simp
        qed
      qed
    qed
  qed
qed

text \<open>
  C31: A login completes only when it is genuine: the flow has not expired, the callback carries
  the flow's own state and a code, the ID token was verified for this client with the flow's nonce
  and, unless any account is allowed, the configured user name.  Afterwards the new credential of
  this configuration is both in use and in the vault, and no sign-in is pending.
\<close>

theorem login_is_genuine:
  assumes "complete_login lib cfg any env flow resp tk = (tk', Inr address)"
  shows "le_now env \<le> lf_expires flow \<and> callback_value ''state'' resp = lf_state flow
    \<and> callback_value ''code'' resp \<noteq> []
    \<and> (\<exists>jwt key issuer claims n.
         ol_jwt_verify lib jwt key (acc_client_id (cfg_account cfg)) issuer = Some claims
         \<and> obj_get ''nonce'' claims = Some n \<and> str_json lib n = lf_nonce flow
         \<and> name_accepted cfg any (claimed_name claims))
    \<and> tk_stored tk' = tk_record tk' \<and> tk_access tk' \<noteq> [] \<and> \<not> tk_needs_login tk'
    \<and> (\<exists>r. tk_record tk' = Some r \<and> truthy (ar_refresh r)
         \<and> ar_fingerprint r = account_fingerprint lib cfg)"
  using assms
proof (cases rule: complete_login_cases)
  case (saving result claims tk1 addr tk2 sv)
  then obtain u where u: "sv = Inr u" by (cases sv) auto
  from saving(4) have "tk_stored tk2 = tk_record tk2 \<and> tk_access tk2 \<noteq> []
      \<and> (\<exists>r. tk_record tk2 = Some r \<and> truthy (ar_refresh r)
         \<and> ar_fingerprint r = account_fingerprint lib cfg)"
    by (cases rule: save_result_cases) (use u in \<open>auto simp: new_record_def dest: bearer_ne\<close>)
  moreover have "le_now env \<le> lf_expires flow \<and> callback_value ''state'' resp = lf_state flow
      \<and> callback_value ''code'' resp \<noteq> []"
    using saving(1) by (auto simp: check_callback_def split: if_splits)
  moreover have "\<exists>jwt key issuer claims n.
         ol_jwt_verify lib jwt key (acc_client_id (cfg_account cfg)) issuer = Some claims
         \<and> obj_get ''nonce'' claims = Some n \<and> str_json lib n = lf_nonce flow
         \<and> name_accepted cfg any (claimed_name claims)"
    using verify_id_token_Inr [OF saving(2)] by blast
  ultimately show ?thesis using saving(5) u by simp
qed simp

definition demo_flow :: login_flow where
  "demo_flow = \<lparr>lf_state = ''s'', lf_nonce = ''n'', lf_verifier = ''v'', lf_expires = 600\<rparr>"

definition demo_lenv :: "bool \<Rightarrow> login_env" where
  "demo_lenv w = \<lparr>le_now = 200, le_token = Reply 200 [''T''], le_metadata = Reply 200 [''M''],
     le_jwks1 = Reply 200 [''K''], le_jwks2 = NetFail, le_profile = NetFail, le_write_ok = w\<rparr>"

definition demo_resp :: "(string \<times> string) list" where
  "demo_resp = [(''state'', ''s''), (''code'', ''c'')]"

definition demo_login :: "bool \<Rightarrow> token_state \<Rightarrow> token_state" where
  "demo_login w tk = fst (complete_login demo_oauth oauth_cfg False (demo_lenv w) demo_flow demo_resp tk)"

theorem login_is_genuine_witness:
  "tk_stored (demo_login True demo_tokens) = tk_record (demo_login True demo_tokens)
     \<and> \<not> tk_needs_login (demo_login True demo_tokens)"
proof -
  have "complete_login demo_oauth oauth_cfg False (demo_lenv True) demo_flow demo_resp demo_tokens
      = (demo_login True demo_tokens, Inr ''gw@x.y'')"
    unfolding demo_login_def by (subst prod_eq_iff) code_simp
  from login_is_genuine [OF this] show ?thesis by simp
qed

section \<open>A login whose credential cannot be stored\<close>

text \<open>
   When a login changes the account record but the vault cannot be written, the access token of
  the account that was signed in before stays cached: as long as it is valid, it is still handed
  out for sending, although the record in use is not the persisted one.
\<close>

theorem unsaved_login_keeps_old_token:
  assumes "complete_login lib cfg any env flow resp tk = (tk', Inl e)"
    and "tk_record tk = tk_stored tk" and "tk_record tk' \<noteq> tk_stored tk'"
    and "\<not> tk_needs_login tk" and "tk_access tk \<noteq> []"
    and "py_lt (Fin (te_now tenv + 60)) (tk_expires tk)"
  shows "get_token lib cfg tenv tk' = (tk', Inr (tk_access tk)) \<and> tk_stored tk' = tk_stored tk"
  using assms(1)
proof (cases rule: complete_login_cases)
  case (early e)
  then show ?thesis using assms(2,3) by (simp add: same_credentials_def)
next
  case (saving result claims tk1 addr tk2 sv)
  then have sv: "sv = Inl e" "tk' = tk2" by (auto split: sum.splits)
  from saving(4) show ?thesis
    by (cases rule: save_result_cases)
      (use sv saving(3) assms(2-6) in \<open>auto simp: same_credentials_def get_token_def\<close>)
qed

theorem unsaved_login_keeps_old_token_witness:
  "get_token demo_oauth oauth_cfg (demo_tenv\<lparr>te_now := 300\<rparr>) (demo_login False demo_fresh)
     = (demo_login False demo_fresh, Inr ''tok2'')"
proof -
  have l: "complete_login demo_oauth oauth_cfg False (demo_lenv False) demo_flow demo_resp demo_fresh
      = (demo_login False demo_fresh,
         Inl (Retryable ''Cannot persist renewed account credentials'' (Fin 30) True))"
    unfolding demo_login_def by (subst prod_eq_iff) code_simp
  have s: "tk_record demo_fresh = tk_stored demo_fresh" "\<not> tk_needs_login demo_fresh"
    "tk_access demo_fresh = ''tok2''"
    "tk_record (demo_login False demo_fresh) \<noteq> tk_stored (demo_login False demo_fresh)"
    "py_lt (Fin (te_now (demo_tenv\<lparr>te_now := 300\<rparr>) + 60)) (tk_expires demo_fresh)"
    by code_simp+
  show ?thesis
    using unsaved_login_keeps_old_token [OF l s(1) s(4) s(2) _ s(5)] s(3) by simp
qed

end
