(* ===== verification/Gw_Backend.thy ===== *)
theory Gw_Backend
  imports Gw_Tokens
begin

text \<open>
  \<open>backend.py\<close>: one upstream submission over EWS or Graph.  A response is turned into a value of
  \<open>unit res\<close>: \<open>Inr ()\<close> for accepted, otherwise one of the four delivery errors of \<open>errors.py\<close>.
  XML and JSON decoding, header parsing and dates are the record \<open>upstream_lib\<close>.
\<close>

section \<open>What the libraries provide\<close>

text \<open>An XML element: its qualified tag, attributes, text and children.\<close>

datatype xml = Elem (x_tag: string) (x_attrs: "(string \<times> string) list")
  (x_text: "string option") (x_children: "xml list")

text \<open>
  \<open>ul_xml\<close>: \<open>ElementTree.fromstring\<close>; \<open>ul_json\<close>: \<open>json.loads\<close>; \<open>ul_str\<close>: \<open>str\<close> of a decoded value that
  is not a string; \<open>ul_content_type\<close>: the content type of a header block; \<open>ul_date\<close>: the time stamp
  of \<open>parsedate_to_datetime\<close>.  \<open>None\<close> stands for the errors they raise.
\<close>

record upstream_lib =
  ul_xml :: "bytes \<Rightarrow> xml option"
  ul_json :: "bytes \<Rightarrow> json option"
  ul_str :: "json \<Rightarrow> string"
  ul_content_type :: "bytes \<Rightarrow> string"
  ul_date :: "string \<Rightarrow> rat option"

section \<open>\<open>retry_after\<close>\<close>

definition retry_after :: "upstream_lib \<Rightarrow> rat \<Rightarrow> string option \<Rightarrow> pyfloat" where
  "retry_after lib now value =
     (case value of
        None \<Rightarrow> Fin 0
      | Some v \<Rightarrow>
          (case parse_float v of
             Some delay \<Rightarrow> if py_le (Fin 0) delay \<and> py_lt delay PInf then delay else Fin 0
           | None \<Rightarrow> (case ul_date lib v of None \<Rightarrow> Fin 0 | Some t \<Rightarrow> py_max (Fin 0) (Fin (t - now)))))"

section \<open>Base64\<close>

definition b64_alphabet :: string where
  "b64_alphabet = ''ABCDEFGHIJKLMNOPQRSTUVWXYZabcdefghijklmnopqrstuvwxyz0123456789+/''"

text \<open>Six bits, the highest first, as a place in the alphabet.\<close>

definition b64_char :: "bool \<Rightarrow> bool \<Rightarrow> bool \<Rightarrow> bool \<Rightarrow> bool \<Rightarrow> bool \<Rightarrow> char" where
  "b64_char a b c d e f = b64_alphabet !
     (of_bool a * 32 + of_bool b * 16 + of_bool c * 8 + of_bool d * 4 + of_bool e * 2 + of_bool f)"

fun b64encode :: "bytes \<Rightarrow> string" where
  "b64encode [] = []"
| "b64encode [Char a0 a1 a2 a3 a4 a5 a6 a7] =
     [b64_char a7 a6 a5 a4 a3 a2, b64_char a1 a0 False False False False, CHR ''='', CHR ''='']"
| "b64encode [Char a0 a1 a2 a3 a4 a5 a6 a7, Char b0 b1 b2 b3 b4 b5 b6 b7] =
     [b64_char a7 a6 a5 a4 a3 a2, b64_char a1 a0 b7 b6 b5 b4,
      b64_char b3 b2 b1 b0 False False, CHR ''='']"
| "b64encode (Char a0 a1 a2 a3 a4 a5 a6 a7 # Char b0 b1 b2 b3 b4 b5 b6 b7
      # Char c0 c1 c2 c3 c4 c5 c6 c7 # rest) =
     b64_char a7 a6 a5 a4 a3 a2 # b64_char a1 a0 b7 b6 b5 b4
     # b64_char b3 b2 b1 b0 c7 c6 # b64_char c5 c4 c3 c2 c1 c0 # b64encode rest"

section \<open>\<open>ews_request\<close>\<close>

definition dq :: string where "dq = [CHR 0x22]"

definition ews_head :: "bool \<Rightarrow> string" where
  "ews_head save =
     ''<?xml version='' @ dq @ ''1.0'' @ dq @ '' encoding='' @ dq @ ''utf-8'' @ dq @ ''?>'' @
     ''<s:Envelope xmlns:s='' @ dq @ ''http://schemas.xmlsoap.org/soap/envelope/'' @ dq @ '' '' @
     ''xmlns:m='' @ dq @ ''http://schemas.microsoft.com/exchange/services/2006/messages'' @ dq @ '' '' @
     ''xmlns:t='' @ dq @ ''http://schemas.microsoft.com/exchange/services/2006/types'' @ dq @ ''>'' @
     ''<s:Header><t:RequestServerVersion Version='' @ dq @ ''Exchange2013_SP1'' @ dq @ ''/></s:Header>'' @
     ''<s:Body><m:CreateItem MessageDisposition='' @ dq @
     (if save then ''SendAndSaveCopy'' else ''SendOnly'') @ dq @ ''>'' @
     (if save then ''<m:SavedItemFolderId><t:DistinguishedFolderId Id='' @ dq @ ''sentitems'' @ dq @
        ''/></m:SavedItemFolderId>'' else []) @
     ''<m:Items><t:Message><t:MimeContent CharacterSet='' @ dq @ ''UTF-8'' @ dq @ ''>''"

definition ews_tail :: "bool \<Rightarrow> string" where
  "ews_tail report = ''</t:MimeContent>'' @
     (if report then ''<t:ItemClass>REPORT.IPM.Note.IPNRN</t:ItemClass>'' else []) @
     ''</t:Message></m:Items></m:CreateItem></s:Body></s:Envelope>''"

definition is_report :: "upstream_lib \<Rightarrow> bytes \<Rightarrow> bool" where
  "is_report lib mime = (ul_content_type lib (head_of mime @ crlf2) = ''multipart/report'')"

definition ews_request :: "upstream_lib \<Rightarrow> bytes \<Rightarrow> bool \<Rightarrow> bytes" where
  "ews_request lib mime save = ews_head save @ b64encode mime @ ews_tail (is_report lib mime)"

section \<open>The request\<close>

record request =
  rq_url :: string
  rq_payload :: bytes
  rq_headers :: "(string \<times> string) list"

definition is_graph :: "config \<Rightarrow> bool" where
  "is_graph cfg = (acc_backend (cfg_account cfg) = ''graph'')"

definition send_request ::
  "upstream_lib \<Rightarrow> config \<Rightarrow> token_state \<Rightarrow> string \<Rightarrow> string \<Rightarrow> bytes \<Rightarrow> request" where
  "send_request lib cfg tk token identifier body =
     (let g = is_graph cfg in
      \<lparr>rq_url = (if g then ''https://graph.microsoft.com/v1.0/me/sendMail''
                 else acc_ews_url (cfg_account cfg)),
       rq_payload = (if g then b64encode body
                     else ews_request lib body (acc_save_in_sent (cfg_account cfg))),
       rq_headers = [(''Authorization'', ''Bearer '' @ token),
          (''Content-Type'', if g then ''text/plain'' else ''text/xml; charset=utf-8''),
          (''X-AnchorMailbox'', if g then record_username cfg tk else sender_of cfg),
          (''User-Agent'', ''noreply-mcs-gateway/0.2.0''), (''client-request-id'', identifier),
          (''return-client-request-id'', ''true'')] @
          (if g then [] else [(''SOAPAction'', dq @
             ''http://schemas.microsoft.com/exchange/services/2006/messages/CreateItem'' @ dq)])\<rparr>)"

section \<open>\<open>_interpret_ews\<close>\<close>

fun iter_xml :: "xml \<Rightarrow> xml list" where
  "iter_xml (Elem t a x cs) = Elem t a x cs # concat (map iter_xml cs)"

definition msg_ns :: string where
  "msg_ns = ''{http://schemas.microsoft.com/exchange/services/2006/messages}''"

text \<open>\<open>root.findall(".//tag")\<close> and \<open>item.findtext(tag, "")\<close>.\<close>

definition find_below :: "string \<Rightarrow> xml \<Rightarrow> xml list" where
  "find_below tag doc = filter (\<lambda>e. x_tag e = tag) (concat (map iter_xml (x_children doc)))"

definition find_text :: "string \<Rightarrow> xml \<Rightarrow> string" where
  "find_text tag e =
     (case filter (\<lambda>c. x_tag c = tag) (x_children e) of
        [] \<Rightarrow> [] | c # _ \<Rightarrow> (case x_text c of None \<Rightarrow> [] | Some t \<Rightarrow> t))"

text \<open>\<open>float(value.text or "0") / 1000\<close>; text that is not a number changes nothing.\<close>

definition thousandth :: "pyfloat \<Rightarrow> pyfloat" where
  "thousandth x = (case x of Fin r \<Rightarrow> Fin (r / 1000) | y \<Rightarrow> y)"

definition back_off :: "xml \<Rightarrow> pyfloat \<Rightarrow> pyfloat" where
  "back_off e delay =
     (if map_of (x_attrs e) ''Name'' = Some ''BackOffMilliseconds''
      then (case parse_float (case x_text e of Some (c # cs) \<Rightarrow> c # cs | _ \<Rightarrow> ''0'') of
              None \<Rightarrow> delay | Some x \<Rightarrow> py_max delay (thousandth x))
      else delay)"

definition busy_codes :: "string list" where
  "busy_codes = [''ErrorServerBusy'', ''ErrorExceededConnectionCount'',
     ''ErrorMailboxStoreUnavailable'', ''ErrorInsufficientResources'',
     ''ErrorInternalServerTransientError'']"

definition access_codes :: "string list" where
  "access_codes = [''ErrorAccessDenied'', ''ErrorInvalidClientSecurityContext'', ''ErrorInvalidUserSid'']"

definition quota_codes :: "string list" where
  "quota_codes = [''ErrorQuotaExceeded'', ''ErrorMessageSubmissionBlocked'', ''ErrorSendQuotaExceeded'']"

definition doubtful_codes :: "string list" where
  "doubtful_codes = [''ErrorTimeoutExpired'', ''ErrorInternalServerError'', '''']"

definition ews_failure :: "string \<Rightarrow> pyfloat \<Rightarrow> exn" where
  "ews_failure c delay =
     (let safe = safe_text ''_'' c in
      if c \<in> set busy_codes then Retryable (''EWS '' @ safe) delay True
      else if c \<in> set access_codes then AuthenticationRequired (''EWS '' @ safe)
      else if c \<in> set quota_codes then Retryable (''EWS '' @ safe) (py_max delay (Fin 3600)) True
      else if c \<in> set doubtful_codes
      then Uncertain (''EWS '' @ (if safe \<noteq> [] then safe else ''unknown error'') @ ''; review before retry'')
      else Permanent (''EWS '' @ safe))"

definition interpret_ews :: "upstream_lib \<Rightarrow> int \<Rightarrow> bytes \<Rightarrow> pyfloat \<Rightarrow> unit res" where
  "interpret_ews lib status content delay =
     (case ul_xml lib content of
        None \<Rightarrow> Inl (Uncertain ''Unparseable EWS response; submission outcome unknown'')
      | Some doc \<Rightarrow>
          (case find_below (msg_ns @ ''CreateItemResponseMessage'') doc of
             [item] \<Rightarrow>
               let c = find_text (msg_ns @ ''ResponseCode'') item in
               if status = 200 \<and> map_of (x_attrs item) ''ResponseClass'' = Some ''Success''
                  \<and> c = ''NoError''
               then Inr ()
               else Inl (ews_failure c (fold back_off (iter_xml doc) delay))
           | _ \<Rightarrow> Inl (Uncertain ''Unexpected EWS response structure; submission outcome unknown'')))"

section \<open>\<open>MicrosoftBackend.send\<close>\<close>

text \<open>What the POST meets: no connection, a connection lost before the response was read, or a
  response.\<close>

record response =
  rs_status :: int
  rs_parts :: "bytes list"
  rs_retry_after :: "string option"

datatype post_result = NoConnection | Broken | Answered response

text \<open>\<open>f"...{status}..."\<close>: the decimal text of a status.\<close>

fun dec_digits :: "nat \<Rightarrow> nat \<Rightarrow> string" where
  "dec_digits 0 n = []"
| "dec_digits (Suc k) n = dec_digits k (n div 10) @ [char_of (48 + n mod 10)]"

definition status_text :: "int \<Rightarrow> string" where
  "status_text n = dec_digits 3 (nat n)"

definition code_text :: "upstream_lib \<Rightarrow> bytes \<Rightarrow> string" where
  "code_text lib content =
     (case error_code (ul_json lib content) of
        None \<Rightarrow> [] | Some (JStr s) \<Rightarrow> s | Some j \<Rightarrow> ul_str lib j)"

text \<open>The response, once the status 401 is dealt with: what is decided about the message, and
  whether the token counts as accepted.\<close>

definition judge :: "upstream_lib \<Rightarrow> bool \<Rightarrow> int \<Rightarrow> bytes \<Rightarrow> pyfloat \<Rightarrow> unit res" where
  "judge lib graph st content delay =
     (if st = 403
      then (if graph \<and> error_code (ul_json lib content) = Some (JStr ''ErrorSendAsDenied'')
            then Inl (Permanent ''Microsoft denied Send As for the selected From address'')
            else Inl (AuthenticationRequired
              ''Upstream access denied; verify consent, account permissions, and service availability''))
      else if st = 429 then Inl (Retryable ''Upstream HTTP 429 throttling'' delay True)
      else if graph \<and> st = 202 then Inr ()
      else if \<not> graph \<and> is_prefix ''<'' (lstrip content) then interpret_ews lib st content delay
      else if st \<ge> 500
      then Inl (Uncertain (''Upstream HTTP '' @ status_text st @ ''; submission outcome unknown''))
      else if 300 \<le> st \<and> st < 500
      then Inl (Permanent (strip (''Upstream HTTP '' @ status_text st @ '' '' @
              safe_text ''_.-'' (if graph then code_text lib content else []))))
      else Inl (Uncertain ''Unexpected upstream response; submission outcome unknown''))"

definition handle_response :: "upstream_lib \<Rightarrow> oauth_lib \<Rightarrow> config \<Rightarrow> rat \<Rightarrow> string \<Rightarrow> response
    \<Rightarrow> token_state \<Rightarrow> token_state \<times> unit res" where
  "handle_response lib ol cfg now token resp tk =
     (case read_limited (rs_parts resp) of
        None \<Rightarrow> (tk, Inl (Uncertain ''Oversized upstream response; submission outcome unknown''))
      | Some content \<Rightarrow>
          if rs_status resp = 401
          then (let (tk', e) = rejected_token ol token tk in (tk', Inl e))
          else (case judge lib (is_graph cfg) (rs_status resp) content
                       (retry_after lib now (rs_retry_after resp)) of
                  Inl e \<Rightarrow> (tk, Inl e)
                | Inr u \<Rightarrow> (accepted_token tk, Inr ())))"

definition after_post :: "upstream_lib \<Rightarrow> oauth_lib \<Rightarrow> config \<Rightarrow> rat \<Rightarrow> string \<Rightarrow> post_result
    \<Rightarrow> token_state \<Rightarrow> token_state \<times> unit res" where
  "after_post lib ol cfg now token p tk =
     (case p of
        NoConnection \<Rightarrow> (tk, Inl (Retryable ''Upstream connection could not be established'' (Fin 0) False))
      | Broken \<Rightarrow> (tk, Inl (Uncertain ''Connection interrupted during submission; review before retry''))
      | Answered resp \<Rightarrow> handle_response lib ol cfg now token resp tk)"

text \<open>The whole \<open>send\<close>: the token, the request, the outcome.  \<open>post\<close> answers a request.\<close>

record send_env =
  se_token :: token_env
  se_post :: "request \<Rightarrow> post_result"
  se_now :: rat

definition backend_send :: "upstream_lib \<Rightarrow> oauth_lib \<Rightarrow> config \<Rightarrow> send_env \<Rightarrow> string \<Rightarrow> bytes
    \<Rightarrow> token_state \<Rightarrow> token_state \<times> unit res" where
  "backend_send lib ol cfg env identifier body tk =
     (case get_token ol cfg (se_token env) tk of
        (tk1, Inl e) \<Rightarrow> (tk1, Inl e)
      | (tk1, Inr token) \<Rightarrow>
          after_post lib ol cfg (se_now env) token
            (se_post env (send_request lib cfg tk1 token identifier body)) tk1)"

end
