(* ===== verification/Gw_Jobs.thy ===== *)
theory Gw_Jobs
  imports Gw_Store_Props
begin

text \<open>
  The interface between the store and its workers: a store of jobs, of which some are in flight,
  each with its content.  A worker takes a job, which was not in flight, and gives it back with a
  result; nobody else changes what is in flight.  From these laws alone a pool of workers never
  shares a job, and every job a worker holds is in flight with the content the worker was given.
\<close>

section \<open>The contract\<close>

locale job_store =
  fixes ok :: "'s \<Rightarrow> bool"
    and cell :: "'s \<Rightarrow> string \<Rightarrow> 'c option"
    and take_op :: "rat \<Rightarrow> 's \<Rightarrow> ('s \<times> 'j option) res"
    and ident :: "'j \<Rightarrow> string"
    and content :: "'j \<Rightarrow> 'c"
    and give_op :: "rat \<Rightarrow> string \<Rightarrow> mstatus \<Rightarrow> string \<Rightarrow> pyfloat \<Rightarrow> bool \<Rightarrow> 's \<Rightarrow> 's res"
    and other :: "'s \<Rightarrow> 's \<Rightarrow> bool"
  assumes take_ok: "ok s \<Longrightarrow> take_op now s = Inr (s', x) \<Longrightarrow> ok s'"
    and take_some: "ok s \<Longrightarrow> take_op now s = Inr (s', Some j) \<Longrightarrow>
      cell s (ident j) = None \<and> cell s' = (cell s)(ident j \<mapsto> content j)"
    and take_none: "ok s \<Longrightarrow> take_op now s = Inr (s', None) \<Longrightarrow> cell s' = cell s"
    and give_ok: "ok s \<Longrightarrow> give_op now i st er del cd s = Inr s' \<Longrightarrow> ok s'"
    and give_cell: "ok s \<Longrightarrow> give_op now i st er del cd s = Inr s' \<Longrightarrow>
      cell s i \<noteq> None \<and> cell s' = (cell s)(i := None)"
    and other_ok: "ok s \<Longrightarrow> other s s' \<Longrightarrow> ok s'"
    and other_cell: "ok s \<Longrightarrow> other s s' \<Longrightarrow> cell s' = cell s"
begin

text \<open>A list of jobs held by different workers.\<close>

lemma take_held:
  assumes "ok s" and "distinct (map ident (h1 @ h2))"
    and "list_all (\<lambda>j. cell s (ident j) = Some (content j)) (h1 @ h2)"
    and "take_op now s = Inr (s', Some j)"
  shows "distinct (map ident (h1 @ j # h2)) \<and>
    list_all (\<lambda>j. cell s' (ident j) = Some (content j)) (h1 @ j # h2)"
proof -
  note t = take_some [OF assms(1,4)]
  have n: "ident x \<noteq> ident j" if "x \<in> set (h1 @ h2)" for x
    using t assms(3) that by (auto simp: list_all_iff simp del: set_append)
  then have "list_all (\<lambda>j. cell s' (ident j) = Some (content j)) (h1 @ h2)"
    using t assms(3) by (auto simp: list_all_iff)
  moreover have "ident j \<notin> ident ` set (h1 @ h2)" using n by force
  ultimately show ?thesis using t assms(2) by auto
qed

lemma give_held:
  assumes "ok s" and "distinct (map ident (h1 @ j # h2))"
    and "list_all (\<lambda>j. cell s (ident j) = Some (content j)) (h1 @ j # h2)"
    and "give_op now (ident j) st er del cd s = Inr s'"
  shows "distinct (map ident (h1 @ h2)) \<and>
    list_all (\<lambda>j. cell s' (ident j) = Some (content j)) (h1 @ h2)"
proof -
  have "ident j \<notin> ident ` set (h1 @ h2)" using assms(2) by auto
  then have n: "ident x \<noteq> ident j" if "x \<in> set (h1 @ h2)" for x
    using that by (metis imageI)
  have g: "cell s' = (cell s)(ident j := None)" using give_cell [OF assms(1,4)] by blast
  have "list_all (\<lambda>j. cell s' (ident j) = Some (content j)) (h1 @ h2)"
    using n assms(3) by (auto simp: list_all_iff g)
  moreover have "distinct (map ident (h1 @ h2))" using assms(2) by simp
  ultimately show ?thesis by blast
qed

text \<open>A job that is not held and taken without a holder leaves the held ones alone.\<close>

lemma lost_take_held:
  assumes "ok s" and "list_all (\<lambda>j. cell s (ident j) = Some (content j)) h"
    and "take_op now s = Inr (s', x)"
  shows "list_all (\<lambda>j. cell s' (ident j) = Some (content j)) h"
proof (cases x)
  case None
  then show ?thesis using take_none assms by simp
next
  case (Some j)
  then show ?thesis using take_some [of s now s' j] assms by (auto simp: list_all_iff)
qed

end

section \<open>The queue database as a job store\<close>

text \<open>What is in flight: the octets, the recipients and the sender of every row in \<open>sending\<close>.\<close>

definition flight_content :: "row \<Rightarrow> bytes option \<times> string list \<times> string" where
  "flight_content r = (mime r, recipients r, envelope_sender r)"

definition in_flight :: "db \<Rightarrow> string \<Rightarrow> (bytes option \<times> string list \<times> string) option" where
  "in_flight d i = (case row_after i d of None \<Rightarrow> None
     | Some r \<Rightarrow> if status r = Sending then Some (flight_content r) else None)"

text \<open>The database jobs of the other components: everything but opening, claims and results.\<close>

definition calm :: "store_event \<Rightarrow> bool" where
  "calm e = (case e of EvOpen v t \<Rightarrow> False | EvClaim t \<Rightarrow> False | EvFinish t i st er del c \<Rightarrow> False
     | _ \<Rightarrow> True)"

definition other_job_step :: "config \<Rightarrow> db \<Rightarrow> db \<Rightarrow> bool" where
  "other_job_step cfg d d' = (\<exists>e. calm e \<and> store_step cfg e d d')"

lemma in_flight_claim_none:
  assumes "store_inv d" "claim cfg now d = Inr (d', None)"
  shows "in_flight d' = in_flight d"
proof
  fix i
  show "in_flight d' i = in_flight d i"
    using row_after_claim [OF assms, of i] by (auto simp: in_flight_def expire_row_def)
qed

lemma in_flight_claim_some:
  assumes "store_inv d" "claim cfg now d = Inr (d', Some j)"
  shows "in_flight d (m_id j) = None \<and> in_flight d' = (in_flight d)(m_id j \<mapsto> flight_content j)"
proof -
  obtain r where r: "next_row now d = Some r" "j = r\<lparr>attempts := attempts r + 1\<rparr>"
    "r \<in> set (messages d)" "status r \<in> {Queued, Retry}"
    "d' = d\<lparr>messages := upd_row (m_id r) (start_row now) (messages d),
            quota := quota d @ [reservation cfg now r]\<rparr>"
    using assms(2) by (rule claim_gives) blast
  have f: "row_after (m_id r) d = Some r"
    unfolding row_after_def using store_inv_find [OF assms(1) r(3)] .
  have "row_after i d' = map_option (\<lambda>x. if i = m_id r then start_row now x else x) (row_after i d)" for i
    using row_after_upd [OF assms(1), of d' "m_id r" "start_row now" i] r(5) by simp
  then show ?thesis
    using f r(2,4) by (auto simp: in_flight_def flight_content_def start_row_def fun_eq_iff
        split: option.splits)
qed

lemma in_flight_finish:
  assumes "store_inv d" "finish now i st er del cd d = Inr d'"
  shows "in_flight d i \<noteq> None \<and> in_flight d' = (in_flight d)(i := None)"
proof -
  obtain r where r: "row_after i d = Some r" "status r = Sending"
    "st \<in> {Submitted, Retry, Failed, UncertainSt}"
    "messages d' = upd_row i (finish_row now st er del) (messages d)"
    using assms(2) by (rule finish_Inr) (auto simp: row_after_def)
  have "row_after j d' = map_option (\<lambda>x. if j = i then finish_row now st er del x else x) (row_after j d)" for j
    using row_after_upd [OF assms(1) r(4)] by simp
  moreover have "st \<noteq> Sending" using r(3) by auto
  ultimately show ?thesis
    using r(1,2) by (auto simp: in_flight_def fun_eq_iff split: option.splits)
qed

lemma in_flight_other:
  assumes "store_inv d" "other_job_step cfg d d'"
  shows "in_flight d' = in_flight d"
proof -
  obtain e where e: "calm e" "store_step cfg e d d'" using assms(2) by (auto simp: other_job_step_def)
  show ?thesis
  proof
    fix i
    show "in_flight d' i = in_flight d i"
      using e(2)
    proof (cases rule: store_stepE)
      case (st_insert healthy free now batch vs)
      show ?thesis
      proof (cases "row_after i d")
        case (Some r)
        then show ?thesis using row_after_insert [OF st_insert(2)] by (simp add: in_flight_def)
      next
        case None
        have "\<forall>r. row_after i d' = Some r \<longrightarrow> status r = Queued"
          using st_insert(2)
        proof (cases rule: insert_batch_cases)
          case refused
          then show ?thesis using None by simp
        next
          case (stored oks as)
          then have "row_after i d' = find_row i (map (new_row now) as)"
            using None by (simp add: row_after_def find_row_append)
          then show ?thesis by (auto dest!: find_row_Some_mem simp: new_row_def)
        qed
        then show ?thesis using None by (auto simp: in_flight_def split: option.splits)
      qed
    next
      case (st_act now j action ack)
      show ?thesis
      proof (cases "row_after i d")
        case (Some r)
        then show ?thesis using row_after_act [OF assms(1) st_act(2) Some]
          by (auto simp: in_flight_def retry_row_def cancel_row_def)
      next
        case None
        from st_act(2) have "row_after i d' = None"
          by (cases rule: act_Inr)
            (use None in \<open>auto simp: row_after_def find_upd_row\<close>)
        then show ?thesis using None by (simp add: in_flight_def)
      qed
    next
      case (st_set key v)
      then show ?thesis by (simp add: in_flight_def row_after_def set_setting_def)
    next
      case (st_house now ids)
      show ?thesis
      proof (cases "row_after i d")
        case (Some r)
        then show ?thesis using row_after_house [OF assms(1) st_house(2) Some] st_house(3)
          by (auto simp: in_flight_def)
      next
        case None
        then have "row_after i d' = None"
          by (auto simp: row_after_def st_house(3) housekeeping_def find_row_None)
        then show ?thesis using None by (simp add: in_flight_def)
      qed
    qed (use e(1) in \<open>simp_all add: calm_def\<close>)
  qed
qed

interpretation jobs: job_store store_inv in_flight "claim cfg" m_id flight_content finish
  "other_job_step cfg" for cfg
proof unfold_locales
  show "store_inv d'" if "store_inv d" "claim cfg now d = Inr (d', x)" for d d' now x
    using store_step_inv [OF that(1) st_claim [OF that(2)]] .
  show "store_inv d'" if "store_inv d" "finish now i st er del cd d = Inr d'" for d d' now i st er del cd
    using store_step_inv [OF that(1) st_finish [OF that(2)]] .
  show "store_inv d'" if "store_inv d" "other_job_step cfg d d'" for d d'
    using that store_step_inv by (auto simp: other_job_step_def)
qed (use in_flight_claim_some in_flight_claim_none in_flight_finish in_flight_other in blast)+

end
