(* ===== verification/Gw_Delivery.thy ===== *)
theory Gw_Delivery
  imports Gw_Jobs
begin

text \<open>
  \<open>delivery.py\<close>: the workers that claim messages, hand them to the back end and record the result,
  the pacing of attempts, the cooldown, and the operator's pause and rate.  A worker's position in
  its loop is part of the state, so that workers, the operator and other database jobs interleave
  at the \<open>await\<close>s.  The back end is what it returns: \<open>Inr ()\<close>, or the exception it raises.
\<close>

section \<open>State\<close>

text \<open>
  A worker is at the top of its loop; waiting in \<open>_permit\<close>; past it, about to claim; in
  \<open>backend.send\<close> with its message; about to report a result; or gone.
\<close>

record attempt_result =
  at_status :: mstatus
  at_error :: string
  at_delay :: pyfloat
  at_cooldown :: bool

datatype worker = Idle | AwaitPermit | Permitted | Attempting row | Reporting row attempt_result | Gone

text \<open>The housekeeping task sleeps, is about to tidy the queue, or is gone.\<close>

datatype keeper = KeeperSleeping | KeeperTidying | KeeperGone

record dispatcher =
  dp_paused :: bool
  dp_rate :: pyfloat
  dp_cooldown :: pyfloat
  dp_next_permit :: pyfloat
  dp_stopping :: bool
  dp_healthy :: bool
  dp_workers :: "worker list"
  dp_keeper :: keeper
  dp_db :: db

section \<open>\<open>start\<close>, \<open>pause\<close>, \<open>set_rate\<close>\<close>

definition sval_float :: "sval \<Rightarrow> pyfloat res" where
  "sval_float v = (case v of SFloat x \<Rightarrow> Inr x
     | SText t \<Rightarrow> Inl (ValueError ''could not convert string to float''))"

definition dispatcher_start :: "config \<Rightarrow> bool \<Rightarrow> db \<Rightarrow> dispatcher res" where
  "dispatcher_start cfg healthy d =
     bind_res (sval_float (tab_get (SFloat (d_messages_per_second (cfg_delivery cfg))) ''rate'' (settings d)))
       (\<lambda>rate. bind_res (float_setting ''cooldown_until'' d)
       (\<lambda>cooldown. Inr \<lparr>
          dp_paused = (tab_get (SText ''false'') ''paused'' (settings d) = SText ''true''),
          dp_rate = rate, dp_cooldown = cooldown, dp_next_permit = Fin 0, dp_stopping = False,
          dp_healthy = healthy,
          dp_workers = replicate (nat (d_workers (cfg_delivery cfg))) Idle,
          dp_keeper = KeeperSleeping, dp_db = d\<rparr>))"

definition pause :: "bool \<Rightarrow> dispatcher \<Rightarrow> dispatcher" where
  "pause p s = s\<lparr>dp_db := set_setting ''paused'' (SText (if p then ''true'' else ''false'')) (dp_db s),
     dp_paused := p\<rparr>"

definition set_rate :: "pyfloat \<Rightarrow> dispatcher \<Rightarrow> dispatcher res" where
  "set_rate rate s =
     (if \<not> (py_le (Fin (1/100)) rate \<and> py_le rate (Fin 1000))
      then Inl (ValueError ''Rate must be between 0.01 and 1000 messages/second'')
      else Inr (s\<lparr>dp_db := set_setting ''rate'' (SFloat rate) (dp_db s), dp_rate := rate\<rparr>))"

section \<open>\<open>_attempt\<close>: from what the back end did to what is recorded\<close>

text \<open>\<open>type(exc).__name__\<close>\<close>

fun exn_name :: "exn \<Rightarrow> string" where
  "exn_name (ValueError t) = ''ValueError''"
| "exn_name (RuntimeError t) = ''RuntimeError''"
| "exn_name IndexError = ''IndexError''"
| "exn_name IntegrityError = ''IntegrityError''"
| "exn_name OSError = ''OSError''"
| "exn_name (MessageRejected t) = ''MessageRejected''"
| "exn_name (QueueUnavailable t) = ''QueueUnavailable''"
| "exn_name (Retryable t d g) = ''Retryable''"
| "exn_name (AuthenticationRequired t) = ''AuthenticationRequired''"
| "exn_name (AdditionalAuthenticationRequired t) = ''AdditionalAuthenticationRequired''"
| "exn_name (Permanent t) = ''Permanent''"
| "exn_name (Uncertain t) = ''Uncertain''"
| "exn_name CancelledError = ''CancelledError''"
| "exn_name (OtherExc n) = n"

text \<open>\<open>jitter\<close> is the value of \<open>random.uniform(1.0, 1.2)\<close>.\<close>

definition back_off_base :: "config \<Rightarrow> nat \<Rightarrow> pyfloat" where
  "back_off_base cfg tries =
     py_min (d_retry_max_seconds (cfg_delivery cfg))
       (py_mul (d_retry_base_seconds (cfg_delivery cfg)) (Fin (2 ^ min (tries - 1) 16)))"

definition retry_delay :: "config \<Rightarrow> rat \<Rightarrow> nat \<Rightarrow> pyfloat \<Rightarrow> pyfloat" where
  "retry_delay cfg jitter tries delay =
     py_max delay (py_mul (back_off_base cfg tries) (Fin jitter))"

definition exhausted :: "config \<Rightarrow> nat \<Rightarrow> bool" where
  "exhausted cfg tries = (int tries \<ge> d_max_attempts (cfg_delivery cfg))"

definition attempt_outcome :: "config \<Rightarrow> rat \<Rightarrow> nat \<Rightarrow> unit res \<Rightarrow> attempt_result" where
  "attempt_outcome cfg jitter tries outcome =
     (case outcome of
        Inr u \<Rightarrow> \<lparr>at_status = Submitted, at_error = [], at_delay = Fin 0, at_cooldown = False\<rparr>
      | Inl (AdditionalAuthenticationRequired m) \<Rightarrow>
          \<lparr>at_status = Retry, at_error = m, at_delay = Fin 300, at_cooldown = False\<rparr>
      | Inl (AuthenticationRequired m) \<Rightarrow>
          \<lparr>at_status = Retry, at_error = m, at_delay = Fin 60, at_cooldown = False\<rparr>
      | Inl (Retryable m d g) \<Rightarrow>
          \<lparr>at_status = (if exhausted cfg tries then Failed else Retry),
           at_error = m @ (if exhausted cfg tries then ''; maximum attempts reached'' else []),
           at_delay = retry_delay cfg jitter tries d, at_cooldown = g\<rparr>
      | Inl (Permanent m) \<Rightarrow>
          \<lparr>at_status = Failed, at_error = m, at_delay = Fin 0, at_cooldown = False\<rparr>
      | Inl (Uncertain m) \<Rightarrow>
          \<lparr>at_status = UncertainSt, at_error = m, at_delay = Fin 0, at_cooldown = False\<rparr>
      | Inl CancelledError \<Rightarrow>
          \<lparr>at_status = UncertainSt,
           at_error = ''Shutdown interrupted an attempt; review before retry'',
           at_delay = Fin 0, at_cooldown = False\<rparr>
      | Inl e \<Rightarrow>
          \<lparr>at_status = UncertainSt,
           at_error = ''Unexpected backend error ('' @ exn_name e @ ''); review before retry'',
           at_delay = Fin 0, at_cooldown = False\<rparr>)"

fun pauses :: "unit res \<Rightarrow> bool" where
  "pauses (Inl (AuthenticationRequired m)) = True"
| "pauses _ = False"

text \<open>Any other exception than the delivery errors and a cancellation marks the queue unhealthy.\<close>

fun unexpected :: "unit res \<Rightarrow> bool" where
  "unexpected (Inr u) = False"
| "unexpected (Inl (AdditionalAuthenticationRequired m)) = False"
| "unexpected (Inl (AuthenticationRequired m)) = False"
| "unexpected (Inl (Retryable m d g)) = False"
| "unexpected (Inl (Permanent m)) = False"
| "unexpected (Inl (Uncertain m)) = False"
| "unexpected (Inl CancelledError) = False"
| "unexpected (Inl e) = True"

section \<open>The steps of a worker\<close>

definition set_worker :: "nat \<Rightarrow> worker \<Rightarrow> dispatcher \<Rightarrow> dispatcher" where
  "set_worker k w s = s\<lparr>dp_workers := (dp_workers s)[k := w]\<rparr>"

definition worker_at :: "nat \<Rightarrow> dispatcher \<Rightarrow> worker" where
  "worker_at k s = (if k < length (dp_workers s) then dp_workers s ! k else Gone)"

definition in_cooldown :: "rat \<Rightarrow> dispatcher \<Rightarrow> bool" where
  "in_cooldown now s = py_lt (Fin now) (dp_cooldown s)"

text \<open>\<open>1 / self.rate\<close>; the rate is positive.\<close>

definition permit_gap :: "pyfloat \<Rightarrow> pyfloat" where
  "permit_gap rate = (case rate of Fin r \<Rightarrow> Fin (1 / r) | PInf \<Rightarrow> Fin 0 | NInf \<Rightarrow> Fin 0 | NaN \<Rightarrow> NaN)"

text \<open>The top of the loop: a worker that may not work sleeps half a second and looks again.\<close>

definition enter :: "nat \<Rightarrow> rat \<Rightarrow> dispatcher \<Rightarrow> dispatcher option" where
  "enter k now s =
     (if worker_at k s \<noteq> Idle then None
      else if dp_stopping s then Some (set_worker k Gone s)
      else if dp_paused s \<or> \<not> dp_healthy s \<or> in_cooldown now s then Some s
      else Some (set_worker k AwaitPermit s))"

text \<open>
  \<open>_permit\<close> waits for its slot on the monotonic clock, which a stop interrupts, and moves the next
  slot; then the second check may send the worker back.
\<close>

definition permit :: "nat \<Rightarrow> rat \<Rightarrow> rat \<Rightarrow> dispatcher \<Rightarrow> dispatcher option" where
  "permit k clock now s =
     (if worker_at k s \<noteq> AwaitPermit \<or> (py_lt (Fin clock) (dp_next_permit s) \<and> \<not> dp_stopping s)
      then None
      else
        let s1 = s\<lparr>dp_next_permit := py_add (Fin clock) (permit_gap (dp_rate s))\<rparr> in
        if dp_stopping s \<or> dp_paused s \<or> in_cooldown now s then Some (set_worker k Idle s1)
        else Some (set_worker k Permitted s1))"

definition take_job :: "config \<Rightarrow> nat \<Rightarrow> rat \<Rightarrow> dispatcher \<Rightarrow> dispatcher option" where
  "take_job cfg k now s =
     (if worker_at k s \<noteq> Permitted then None
      else case claim cfg now (dp_db s) of
          Inl e \<Rightarrow> Some (set_worker k Idle (s\<lparr>dp_healthy := False\<rparr>))
        | Inr (d, None) \<Rightarrow> Some (set_worker k Idle (s\<lparr>dp_db := d\<rparr>))
        | Inr (d, Some r) \<Rightarrow> Some (set_worker k (Attempting r) (s\<lparr>dp_db := d\<rparr>)))"

text \<open>The back end has returned or raised; the pause and the local cooldown take effect at once.\<close>

definition conclude ::
  "config \<Rightarrow> nat \<Rightarrow> rat \<Rightarrow> rat \<Rightarrow> unit res \<Rightarrow> dispatcher \<Rightarrow> dispatcher option" where
  "conclude cfg k jitter now outcome s =
     (case worker_at k s of
        Attempting r \<Rightarrow>
          let res = attempt_outcome cfg jitter (attempts r) outcome;
              s1 = (if pauses outcome then pause True s else s);
              s2 = (if unexpected outcome then s1\<lparr>dp_healthy := False\<rparr> else s1);
              s3 = (if at_cooldown res
                    then s2\<lparr>dp_cooldown := py_max (dp_cooldown s2) (py_add (Fin now) (at_delay res))\<rparr>
                    else s2)
          in Some (set_worker k (Reporting r res) s3)
      | _ \<Rightarrow> None)"

text \<open>\<open>store.finish\<close>; an exception there halts intake and delivery.\<close>

definition report :: "nat \<Rightarrow> rat \<Rightarrow> dispatcher \<Rightarrow> dispatcher option" where
  "report k now s =
     (case worker_at k s of
        Reporting r res \<Rightarrow>
          (case finish now (m_id r) (at_status res) (at_error res) (at_delay res) (at_cooldown res)
                  (dp_db s) of
             Inr d \<Rightarrow> Some (set_worker k Idle (s\<lparr>dp_db := d\<rparr>))
           | Inl e \<Rightarrow> Some (set_worker k Idle (s\<lparr>dp_healthy := False\<rparr>)))
      | _ \<Rightarrow> None)"

text \<open>
  A database job that fails, for want of space for instance: its transaction is rolled back and the
  exception reaches the loop of the worker, which halts intake and delivery.  In \<open>Attempting\<close> it is
  the pause after an \<open>AuthenticationRequired\<close> that fails: the message stays in flight with nobody to
  report on it.
\<close>

definition fail_job :: "nat \<Rightarrow> dispatcher \<Rightarrow> dispatcher option" where
  "fail_job k s =
     (case worker_at k s of
        Permitted \<Rightarrow> Some (set_worker k Idle (s\<lparr>dp_healthy := False\<rparr>))
      | Attempting r \<Rightarrow> Some (set_worker k Idle (s\<lparr>dp_healthy := False\<rparr>))
      | Reporting r res \<Rightarrow> Some (set_worker k Idle (s\<lparr>dp_healthy := False\<rparr>))
      | _ \<Rightarrow> None)"

section \<open>\<open>_housekeeping\<close>\<close>

text \<open>The end of a sleep of a minute, which a stop cuts short.\<close>

definition keeper_wakes :: "dispatcher \<Rightarrow> dispatcher option" where
  "keeper_wakes s =
     (if dp_keeper s \<noteq> KeeperSleeping then None
      else Some (s\<lparr>dp_keeper := if dp_stopping s then KeeperGone else KeeperTidying\<rparr>))"

text \<open>\<open>store.housekeeping\<close>, or its failure; then the top of the loop, which looks at the stop again.\<close>

definition keeper_next :: "dispatcher \<Rightarrow> keeper" where
  "keeper_next s = (if dp_stopping s then KeeperGone else KeeperSleeping)"

definition tidy :: "config \<Rightarrow> rat \<Rightarrow> string list \<Rightarrow> dispatcher \<Rightarrow> dispatcher option" where
  "tidy cfg now ids s =
     (if dp_keeper s \<noteq> KeeperTidying then None
      else Some (s\<lparr>dp_db := housekeeping cfg now ids (dp_db s), dp_keeper := keeper_next s\<rparr>))"

definition fail_tidy :: "dispatcher \<Rightarrow> dispatcher option" where
  "fail_tidy s =
     (if dp_keeper s \<noteq> KeeperTidying then None
      else Some (s\<lparr>dp_healthy := False, dp_keeper := keeper_next s\<rparr>))"

section \<open>\<open>close\<close>\<close>

text \<open>
  \<open>close\<close> cancels the workers that outlast the grace time.  A worker in \<open>backend.send\<close> gets
  \<open>CancelledError\<close>, an outcome for \<open>conclude\<close>.  Elsewhere the worker is gone; a database job it
  was waiting for may still run (\<open>runs\<close>), with nobody left to use its result.  In \<open>Attempting\<close> this
  is the pause after an \<open>AuthenticationRequired\<close>.
\<close>

definition cancel_worker :: "config \<Rightarrow> nat \<Rightarrow> bool \<Rightarrow> rat \<Rightarrow> dispatcher \<Rightarrow> dispatcher option" where
  "cancel_worker cfg k runs now s =
     (let gone = set_worker k Gone s in
      case worker_at k s of
        Idle \<Rightarrow> Some gone
      | AwaitPermit \<Rightarrow> Some gone
      | Permitted \<Rightarrow>
          (if \<not> runs then Some gone
           else case claim cfg now (dp_db s) of Inl e \<Rightarrow> Some gone
                | Inr (d, res) \<Rightarrow> Some (gone\<lparr>dp_db := d\<rparr>))
      | Attempting r \<Rightarrow>
          Some (if runs then gone\<lparr>dp_db := set_setting ''paused'' (SText ''true'') (dp_db s)\<rparr> else gone)
      | Reporting r res \<Rightarrow>
          (if \<not> runs then Some gone
           else case finish now (m_id r) (at_status res) (at_error res) (at_delay res)
                       (at_cooldown res) (dp_db s) of
                  Inl e \<Rightarrow> Some gone | Inr d \<Rightarrow> Some (gone\<lparr>dp_db := d\<rparr>))
      | Gone \<Rightarrow> None)"

text \<open>The housekeeping task is cancelled where it sleeps, or while its job is queued or runs on.\<close>

definition cancel_keeper :: "config \<Rightarrow> bool \<Rightarrow> rat \<Rightarrow> string list \<Rightarrow> dispatcher \<Rightarrow> dispatcher option" where
  "cancel_keeper cfg runs now ids s =
     (let gone = s\<lparr>dp_keeper := KeeperGone\<rparr> in
      case dp_keeper s of
        KeeperSleeping \<Rightarrow> Some gone
      | KeeperTidying \<Rightarrow> Some (if runs then gone\<lparr>dp_db := housekeeping cfg now ids (dp_db s)\<rparr> else gone)
      | KeeperGone \<Rightarrow> None)"

text \<open>\<open>close\<close> returns when \<open>gather\<close> has seen every task end.\<close>

definition all_ended :: "dispatcher \<Rightarrow> bool" where
  "all_ended s = (list_all (\<lambda>w. w = Gone) (dp_workers s) \<and> dp_keeper s = KeeperGone)"

section \<open>The running dispatcher\<close>

datatype dispatch_event =
    DEnter nat rat
  | DPermit nat rat rat
  | DTake nat rat
  | DConclude nat rat rat "unit res"
  | DReport nat rat
  | DPause bool
  | DRate pyfloat
  | DStop
  | DCancel nat bool rat
  | DFail nat
  | DWake
  | DTidy rat "string list"
  | DTidyFails
  | DCancelKeeper bool rat "string list"
  | DUnhealthy
  | DStore store_event

inductive dispatch_step :: "config \<Rightarrow> dispatch_event \<Rightarrow> dispatcher \<Rightarrow> dispatcher \<Rightarrow> bool" for cfg where
  ds_enter: "enter k now s = Some t \<Longrightarrow> dispatch_step cfg (DEnter k now) s t"
| ds_permit: "permit k clock now s = Some t \<Longrightarrow> dispatch_step cfg (DPermit k clock now) s t"
| ds_take: "take_job cfg k now s = Some t \<Longrightarrow> dispatch_step cfg (DTake k now) s t"
| ds_conclude: "conclude cfg k jitter now outcome s = Some t \<Longrightarrow>
    dispatch_step cfg (DConclude k jitter now outcome) s t"
| ds_report: "report k now s = Some t \<Longrightarrow> dispatch_step cfg (DReport k now) s t"
| ds_pause: "dispatch_step cfg (DPause p) s (pause p s)"
| ds_rate: "set_rate r s = Inr t \<Longrightarrow> dispatch_step cfg (DRate r) s t"
| ds_stop: "dispatch_step cfg DStop s (s\<lparr>dp_stopping := True\<rparr>)"
| ds_cancel: "dp_stopping s \<Longrightarrow> cancel_worker cfg k runs now s = Some t \<Longrightarrow>
    dispatch_step cfg (DCancel k runs now) s t"
| ds_fail: "fail_job k s = Some t \<Longrightarrow> dispatch_step cfg (DFail k) s t"
| ds_wake: "keeper_wakes s = Some t \<Longrightarrow> dispatch_step cfg DWake s t"
| ds_tidy: "expired_choice cfg now ids (dp_db s) \<Longrightarrow> tidy cfg now ids s = Some t \<Longrightarrow>
    dispatch_step cfg (DTidy now ids) s t"
| ds_tidy_fails: "fail_tidy s = Some t \<Longrightarrow> dispatch_step cfg DTidyFails s t"
| ds_cancel_keeper: "dp_stopping s \<Longrightarrow> expired_choice cfg now ids (dp_db s) \<Longrightarrow>
    cancel_keeper cfg runs now ids s = Some t \<Longrightarrow> dispatch_step cfg (DCancelKeeper runs now ids) s t"
| ds_unhealthy: "dispatch_step cfg DUnhealthy s (s\<lparr>dp_healthy := False\<rparr>)"
| ds_store: "calm e \<Longrightarrow> store_step cfg e (dp_db s) d \<Longrightarrow>
    dispatch_step cfg (DStore e) s (s\<lparr>dp_db := d\<rparr>)"

definition dispatch_init :: "config \<Rightarrow> dispatcher \<Rightarrow> bool" where
  "dispatch_init cfg s = (\<exists>healthy d. store_inv d \<and> dispatcher_start cfg healthy d = Inr s)"

lemma dispatch_stepE [consumes 1, case_names ds_enter ds_permit ds_take ds_conclude ds_report
    ds_pause ds_rate ds_stop ds_cancel ds_fail ds_wake ds_tidy ds_tidy_fails ds_cancel_keeper
    ds_unhealthy ds_store]:
  assumes "dispatch_step cfg e s t"
  obtains k now where "e = DEnter k now" "enter k now s = Some t"
  | k clock now where "e = DPermit k clock now" "permit k clock now s = Some t"
  | k now where "e = DTake k now" "take_job cfg k now s = Some t"
  | k jitter now outcome where "e = DConclude k jitter now outcome"
      "conclude cfg k jitter now outcome s = Some t"
  | k now where "e = DReport k now" "report k now s = Some t"
  | p where "e = DPause p" "t = pause p s"
  | r where "e = DRate r" "set_rate r s = Inr t"
  | "e = DStop" "t = s\<lparr>dp_stopping := True\<rparr>"
  | k runs now where "e = DCancel k runs now" "dp_stopping s" "cancel_worker cfg k runs now s = Some t"
  | k where "e = DFail k" "fail_job k s = Some t"
  | "e = DWake" "keeper_wakes s = Some t"
  | now ids where "e = DTidy now ids" "expired_choice cfg now ids (dp_db s)" "tidy cfg now ids s = Some t"
  | "e = DTidyFails" "fail_tidy s = Some t"
  | runs now ids where "e = DCancelKeeper runs now ids" "dp_stopping s"
      "expired_choice cfg now ids (dp_db s)" "cancel_keeper cfg runs now ids s = Some t"
  | "e = DUnhealthy" "t = s\<lparr>dp_healthy := False\<rparr>"
  | ev d where "e = DStore ev" "calm ev" "store_step cfg ev (dp_db s) d" "t = s\<lparr>dp_db := d\<rparr>"
  using assms by cases (rule that, (assumption | rule refl)+)+

end
