(* ===== verification/Gw_Backend_Props.thy ===== *)
theory Gw_Backend_Props
  imports Gw_Backend Gw_Delivery Gw_Tokens_Props
begin

text \<open>
  What an attempt's result means about the upstream (\<open>backend.py\<close> with \<open>delivery.py\<close>): the payload
  carries exactly the stored octets; a message is marked submitted only on an explicit acceptance,
  and it is retried only when the upstream cannot have taken it.
\<close>

section \<open>The payload\<close>

text \<open>Reading Base64: the bits of a character are those of its place in the alphabet.\<close>

definition b64_bits :: "char \<Rightarrow> bool \<times> bool \<times> bool \<times> bool \<times> bool \<times> bool" where
  "b64_bits c = (let i = length (takeWhile (\<lambda>x. x \<noteq> c) b64_alphabet)
     in (odd (i div 32), odd (i div 16), odd (i div 8), odd (i div 4), odd (i div 2), odd i))"

fun b64decode :: "string \<Rightarrow> bytes" where
  "b64decode (w # x # y # z # rest) =
     (case (b64_bits w, b64_bits x, b64_bits y, b64_bits z) of
        ((a7, a6, a5, a4, a3, a2), (a1, a0, b7, b6, b5, b4), (b3, b2, b1, b0, c7, c6),
         (c5, c4, c3, c2, c1, c0)) \<Rightarrow>
          Char a0 a1 a2 a3 a4 a5 a6 a7 #
          (if y = CHR ''='' then []
           else Char b0 b1 b2 b3 b4 b5 b6 b7 #
             (if z = CHR ''='' then [] else Char c0 c1 c2 c3 c4 c5 c6 c7 # b64decode rest)))"
| "b64decode _ = []"

lemma b64_char_bits: "b64_bits (b64_char a b c d e f) = (a, b, c, d, e, f)"
  by (cases a; cases b; cases c; cases d; cases e; cases f)
    (simp_all add: b64_bits_def b64_char_def b64_alphabet_def)

lemma b64_char_ne [simp]:
  "b64_char a b c d e f \<noteq> CHR ''=''" "b64_char a b c d e f \<noteq> CHR ''<''"
  by (cases a; cases b; cases c; cases d; cases e; cases f;
      simp add: b64_char_def b64_alphabet_def)+

lemma b64_roundtrip: "b64decode (b64encode m) = m"
  by (induction m rule: b64encode.induct) (simp_all add: b64_char_bits split: prod.split)

lemma b64_no_tag: "c \<in> set (b64encode m) \<Longrightarrow> c \<noteq> CHR ''<''"
  by (induction m rule: b64encode.induct) (auto simp: b64_char_ne(2) [symmetric])

text \<open>The transmitted message: the whole Graph body, or the text of the EWS \<open>MimeContent\<close>.\<close>

definition transmitted :: "config \<Rightarrow> bytes \<Rightarrow> bytes" where
  "transmitted cfg p = b64decode
     (if is_graph cfg then p
      else takeWhile (\<lambda>c. c \<noteq> CHR ''<'')
             (drop (length (ews_head (acc_save_in_sent (cfg_account cfg)))) p))"

lemma transmitted_payload: "transmitted cfg (rq_payload (send_request lib cfg tk token i m)) = m"
proof -
  have "takeWhile (\<lambda>c. c \<noteq> CHR ''<'') (b64encode m @ ews_tail b) = b64encode m" for b
    by (subst takeWhile_append2) (auto dest: b64_no_tag simp: ews_tail_def)
  then show ?thesis
    by (simp add: transmitted_def send_request_def ews_request_def b64_roundtrip Let_def)
qed

text \<open>
   The upstream receives exactly the stored octets.  Decoding the request's payload (the body
  for Graph, the MIME content element for EWS) gives back the message, for every message; and the
  request carries the access token it was given and the queue ID as the client request ID.
\<close>

theorem payload_is_the_message:
  "transmitted cfg (rq_payload (send_request lib cfg tk token i m)) = m
   \<and> map_of (rq_headers (send_request lib cfg tk token i m)) ''Authorization'' = Some (''Bearer '' @ token)
   \<and> map_of (rq_headers (send_request lib cfg tk token i m)) ''client-request-id'' = Some i"
  by (simp add: transmitted_payload) (simp add: send_request_def Let_def)

section \<open>Acceptance\<close>

text \<open>An explicit acceptance: Graph status 202, or an EWS response with exactly one item response,
  of class Success with code NoError, and status 200.\<close>

definition ews_accepts :: "xml \<Rightarrow> bool" where
  "ews_accepts doc = (case find_below (msg_ns @ ''CreateItemResponseMessage'') doc of
     [item] \<Rightarrow> map_of (x_attrs item) ''ResponseClass'' = Some ''Success''
        \<and> find_text (msg_ns @ ''ResponseCode'') item = ''NoError''
   | _ \<Rightarrow> False)"

definition accepts :: "upstream_lib \<Rightarrow> config \<Rightarrow> response \<Rightarrow> bool" where
  "accepts lib cfg resp =
     (case read_limited (rs_parts resp) of None \<Rightarrow> False
      | Some content \<Rightarrow>
          if is_graph cfg then rs_status resp = 202
          else rs_status resp = 200 \<and>
            (case ul_xml lib content of None \<Rightarrow> False | Some doc \<Rightarrow> ews_accepts doc))"

lemma interpret_ews_Inr:
  "interpret_ews lib st content delay = Inr u \<longleftrightarrow>
     st = 200 \<and> (\<exists>doc. ul_xml lib content = Some doc \<and> ews_accepts doc)"
  by (auto simp: interpret_ews_def ews_accepts_def Let_def split: option.splits list.splits if_splits)

lemma judge_Inr:
  "judge lib graph st content delay = Inr u \<Longrightarrow>
     (if graph then st = 202 else st = 200 \<and> (\<exists>doc. ul_xml lib content = Some doc \<and> ews_accepts doc))"
  by (auto simp: judge_def interpret_ews_Inr split: if_splits)

lemma handle_Inr:
  "handle_response lib ol cfg now token resp tk = (tk', Inr u) \<Longrightarrow> accepts lib cfg resp"
  by (auto simp: handle_response_def accepts_def split: option.splits if_splits prod.splits sum.splits
      dest: judge_Inr)

lemma outcome_status:
  "at_status (attempt_outcome cfg j n x) = Submitted \<longleftrightarrow> (\<exists>u. x = Inr u)"
  "at_status (attempt_outcome cfg j n x) = Retry \<longleftrightarrow> \<not> unexpected x \<and>
     ((\<exists>m. x = Inl (AdditionalAuthenticationRequired m)) \<or> (\<exists>m. x = Inl (AuthenticationRequired m)) \<or>
      (\<exists>m d g. x = Inl (Retryable m d g) \<and> \<not> exhausted cfg n))"
  by (auto simp: attempt_outcome_def split: sum.splits exn.splits)

text \<open>
  C4: A message is reported submitted only when the upstream said so: the request built from the
  stored message was answered with an explicit acceptance, which for EWS is one complete item
  response of class Success and code NoError.  Nothing else (an unreadable, oversized or odd
  response, a lost connection) counts.
\<close>

theorem submitted_means_accepted:
  assumes "backend_send lib ol cfg env i m tk = (tk', outcome)"
    and "at_status (attempt_outcome cfg jitter n outcome) = Submitted"
  shows "\<exists>tk1 token resp. get_token ol cfg (se_token env) tk = (tk1, Inr token)
     \<and> se_post env (send_request lib cfg tk1 token i m) = Answered resp \<and> accepts lib cfg resp
     \<and> tk_rejections tk' = 0"
proof -
  obtain u where u: "outcome = Inr u" using assms(2) outcome_status(1) by blast
  obtain tk1 token where g: "get_token ol cfg (se_token env) tk = (tk1, Inr token)"
    using assms(1) u by (auto simp: backend_send_def split: prod.splits sum.splits)
  obtain resp where r: "se_post env (send_request lib cfg tk1 token i m) = Answered resp"
    and h: "handle_response lib ol cfg (se_now env) token resp tk1 = (tk', Inr u)"
    using assms(1) u g by (auto simp: backend_send_def after_post_def split: post_result.splits)
  have "tk_rejections tk' = 0"
    using h by (auto simp: handle_response_def accepted_token_def
        split: option.splits if_splits prod.splits sum.splits)
  then show ?thesis using g r handle_Inr [OF h] by blast
qed

text \<open>A small upstream: two XML documents by name.\<close>

definition ews_item :: "string \<Rightarrow> string \<Rightarrow> xml list \<Rightarrow> xml" where
  "ews_item cls c rest = Elem ''Envelope'' [] None
     (Elem (msg_ns @ ''CreateItemResponseMessage'') [(''ResponseClass'', cls)] None
        [Elem (msg_ns @ ''ResponseCode'') [] (Some c) []] # rest)"

definition back_off_value :: xml where
  "back_off_value = Elem ''Value'' [(''Name'', ''BackOffMilliseconds'')] (Some ''inf'') []"

definition demo_upstream :: upstream_lib where
  "demo_upstream = \<lparr>
     ul_xml = (\<lambda>b. if b = ''<ok'' then Some (ews_item ''Success'' ''NoError'' [])
        else if b = ''<busy'' then Some (ews_item ''Error'' ''ErrorServerBusy'' [back_off_value])
        else None),
     ul_json = (\<lambda>_. None), ul_str = (\<lambda>_. []), ul_content_type = (\<lambda>_. ''text/plain''),
     ul_date = (\<lambda>_. None)\<rparr>"

definition demo_send_env :: "int \<Rightarrow> bytes \<Rightarrow> send_env" where
  "demo_send_env st body = \<lparr>se_token = demo_tenv,
     se_post = (\<lambda>_. Answered \<lparr>rs_status = st, rs_parts = [body], rs_retry_after = None\<rparr>), se_now = 101\<rparr>"

definition demo_send :: "int \<Rightarrow> bytes \<Rightarrow> token_state \<times> unit res" where
  "demo_send st body = backend_send demo_upstream demo_oauth oauth_cfg (demo_send_env st body)
     ''a'' ''hi'' demo_tokens"

theorem submitted_means_accepted_witness:
  "tk_rejections (fst (demo_send 200 ''<ok'')) = 0
   \<and> (\<exists>tk1 token resp. se_post (demo_send_env 200 ''<ok'')
         (send_request demo_upstream oauth_cfg tk1 token ''a'' ''hi'') = Answered resp
       \<and> accepts demo_upstream oauth_cfg resp)"
proof -
  have b: "backend_send demo_upstream demo_oauth oauth_cfg (demo_send_env 200 ''<ok'') ''a'' ''hi''
      demo_tokens = (fst (demo_send 200 ''<ok''), snd (demo_send 200 ''<ok''))"
    by (simp add: demo_send_def)
  have "at_status (attempt_outcome oauth_cfg 1 1 (snd (demo_send 200 ''<ok''))) = Submitted"
    by code_simp
  from submitted_means_accepted [OF b this] show ?thesis by blast
qed

section \<open>Refusal\<close>

text \<open>A response that tells that the message was not taken: a status the upstream sends instead of
  processing (401, 403, 429), or an EWS error code that stands for a rejected item.\<close>

definition refuses :: "upstream_lib \<Rightarrow> config \<Rightarrow> response \<Rightarrow> bool" where
  "refuses lib cfg resp =
     (rs_status resp \<in> {401, 403, 429} \<or>
      (\<not> is_graph cfg \<and> (\<exists>content doc item. read_limited (rs_parts resp) = Some content
        \<and> ul_xml lib content = Some doc
        \<and> find_below (msg_ns @ ''CreateItemResponseMessage'') doc = [item]
        \<and> find_text (msg_ns @ ''ResponseCode'') item
            \<in> set (busy_codes @ access_codes @ quota_codes))))"

definition retry_error :: "exn \<Rightarrow> bool" where
  "retry_error e = ((\<exists>m. e = AuthenticationRequired m) \<or> (\<exists>m. e = AdditionalAuthenticationRequired m)
     \<or> (\<exists>m d g. e = Retryable m d g))"

lemma interpret_ews_retry:
  assumes "interpret_ews lib st content delay = Inl e" "retry_error e"
  shows "\<exists>doc item. ul_xml lib content = Some doc
        \<and> find_below (msg_ns @ ''CreateItemResponseMessage'') doc = [item]
        \<and> find_text (msg_ns @ ''ResponseCode'') item \<in> set (busy_codes @ access_codes @ quota_codes)"
  using assms
  by (auto simp: interpret_ews_def ews_failure_def retry_error_def Let_def
      split: option.splits list.splits if_splits)

lemma handle_retry:
  assumes "handle_response lib ol cfg now token resp tk = (tk', Inl e)" "retry_error e"
  shows "refuses lib cfg resp"
proof (cases "rs_status resp \<in> {401, 403, 429}")
  case False
  obtain content where c: "read_limited (rs_parts resp) = Some content"
    using assms by (auto simp: handle_response_def retry_error_def split: option.splits)
  have "judge lib (is_graph cfg) (rs_status resp) content
      (retry_after lib now (rs_retry_after resp)) = Inl e"
    using assms(1) c False by (auto simp: handle_response_def split: sum.splits)
  then have "\<not> is_graph cfg \<and> interpret_ews lib (rs_status resp) content
      (retry_after lib now (rs_retry_after resp)) = Inl e"
    using False assms(2) by (auto simp: judge_def retry_error_def split: if_splits)
  then show ?thesis using interpret_ews_retry [OF _ assms(2)] c by (auto simp: refuses_def)
qed (simp add: refuses_def)

text \<open>
  C6: A message is put back for a retry only when the upstream cannot have taken it: no token was
  available, so that nothing was sent; no connection was made; or the upstream answered with a
  refusal.  A connection lost after the request, and any response that leaves the outcome open, is
  never retried on its own.
\<close>

theorem retried_means_refused:
  assumes "backend_send lib ol cfg env i m tk = (tk', outcome)"
    and "at_status (attempt_outcome cfg jitter n outcome) = Retry"
  shows "(\<exists>tk1 e. get_token ol cfg (se_token env) tk = (tk1, Inl e)) \<or>
    (\<exists>tk1 token. get_token ol cfg (se_token env) tk = (tk1, Inr token) \<and>
       (case se_post env (send_request lib cfg tk1 token i m) of
          NoConnection \<Rightarrow> True | Broken \<Rightarrow> False | Answered resp \<Rightarrow> refuses lib cfg resp))"
proof -
  obtain e where e: "outcome = Inl e" "retry_error e"
    using assms(2) outcome_status(2) by (auto simp: retry_error_def)
  obtain tk1 t where g: "get_token ol cfg (se_token env) tk = (tk1, t)" by force
  show ?thesis
  proof (cases t)
    case (Inl x)
    then show ?thesis using g by blast
  next
    case (Inr token)
    have "after_post lib ol cfg (se_now env) token (se_post env (send_request lib cfg tk1 token i m)) tk1
        = (tk', Inl e)"
      using assms(1) e(1) g Inr by (simp add: backend_send_def)
    then show ?thesis using g Inr e(2)
      by (auto simp: after_post_def retry_error_def split: post_result.splits
          dest: handle_retry [unfolded retry_error_def])
  qed
qed

theorem retried_means_refused_witness:
  "\<exists>tk1 token. case se_post (demo_send_env 429 ''slow'')
       (send_request demo_upstream oauth_cfg tk1 token ''a'' ''hi'') of
     NoConnection \<Rightarrow> True | Broken \<Rightarrow> False | Answered resp \<Rightarrow> refuses demo_upstream oauth_cfg resp"
proof -
  have b: "backend_send demo_upstream demo_oauth oauth_cfg (demo_send_env 429 ''slow'') ''a'' ''hi''
      demo_tokens = (fst (demo_send 429 ''slow''), snd (demo_send 429 ''slow''))"
    by (simp add: demo_send_def)
  have r: "at_status (attempt_outcome oauth_cfg 1 1 (snd (demo_send 429 ''slow''))) = Retry"
    by code_simp
  have g: "get_token demo_oauth oauth_cfg (se_token (demo_send_env 429 ''slow'')) demo_tokens
      = (demo_fresh, Inr ''tok2'')"
    using demo_fresh_eq by (simp add: demo_send_env_def)
  from retried_means_refused [OF b r] g show ?thesis by auto
qed

section \<open>An endless back-off\<close>

text \<open>
   Unlike the \<open>Retry-After\<close> header, the EWS back-off value is not checked for being finite.  A
  busy response that names an infinite \<open>BackOffMilliseconds\<close> becomes a retry with an infinite
  delay and a global cooldown, while \<open>retry_after\<close> never returns an infinite delay.
\<close>

theorem infinite_back_off_accepted:
  assumes "ul_xml lib content = Some doc"
    and "find_below (msg_ns @ ''CreateItemResponseMessage'') doc = [item]"
    and "find_text (msg_ns @ ''ResponseCode'') item \<in> set busy_codes"
    and "v \<in> set (iter_xml doc)" and "map_of (x_attrs v) ''Name'' = Some ''BackOffMilliseconds''"
    and "x_text v = Some t" and "t \<noteq> []" and "parse_float t = Some PInf" and "delay \<noteq> NaN"
  shows "(\<exists>m. interpret_ews lib st content delay = Inl (Retryable m PInf True)
      \<and> (\<forall>cfg jitter n. at_delay (attempt_outcome cfg jitter n (interpret_ews lib st content delay)) = PInf
         \<and> at_cooldown (attempt_outcome cfg jitter n (interpret_ews lib st content delay))))
    \<and> retry_after lib now (Some t) \<noteq> PInf"
proof -
  have pinf: "\<not> PInf < x" for x by (cases x) (simp_all add: less_pyfloat_def)
  have step: "d \<noteq> NaN \<Longrightarrow> back_off e d \<noteq> NaN \<and> (d = PInf \<longrightarrow> back_off e d = PInf)" for e d
    by (auto simp: back_off_def py_max_def py_lt_def pinf split: option.splits list.splits)
  have top: "d \<noteq> NaN \<Longrightarrow> back_off v d = PInf" for d
    using assms(5-8) by (cases d; cases t)
      (auto simp: back_off_def py_max_def py_lt_def thousandth_def less_pyfloat_def split: list.splits)
  have "fold back_off es d \<noteq> NaN \<and> (d = PInf \<or> v \<in> set es \<longrightarrow> fold back_off es d = PInf)"
    if "d \<noteq> NaN" for es d
    using that
  proof (induction es arbitrary: d)
    case (Cons a es)
    show ?case using Cons.IH [of PInf] Cons.IH [of "back_off a d"] step [of d a] top [of d] Cons.prems
      by auto
  qed simp
  then have inf: "fold back_off (iter_xml doc) delay = PInf" using assms(4,9) by blast
  have c: "find_text (msg_ns @ ''ResponseCode'') item \<noteq> ''NoError''"
    using assms(3) by (auto simp: busy_codes_def)
  obtain m where m: "interpret_ews lib st content delay = Inl (Retryable m PInf True)"
    using assms(1-3) c inf by (auto simp: interpret_ews_def ews_failure_def Let_def)
  have "retry_delay cfg jitter n PInf = PInf" for cfg jitter n
    by (cases "py_mul (back_off_base cfg n) (Fin jitter)")
      (simp_all add: retry_delay_def py_max_def py_lt_def less_pyfloat_def)
  then have "at_delay (attempt_outcome cfg jitter n (interpret_ews lib st content delay)) = PInf
         \<and> at_cooldown (attempt_outcome cfg jitter n (interpret_ews lib st content delay))" for cfg jitter n
    by (simp add: attempt_outcome_def m)
  moreover have "retry_after lib now (Some t) \<noteq> PInf"
    using assms(8) by (simp add: retry_after_def py_lt_def)
  ultimately show ?thesis using m by blast
qed

theorem infinite_back_off_accepted_witness:
  "\<exists>m. interpret_ews demo_upstream 200 ''<busy'' (Fin 0) = Inl (Retryable m PInf True)"
proof -
  let ?doc = "ews_item ''Error'' ''ErrorServerBusy'' [back_off_value]"
  have h: "ul_xml demo_upstream ''<busy'' = Some ?doc"
    "find_below (msg_ns @ ''CreateItemResponseMessage'') ?doc = [hd (x_children ?doc)]"
    "find_text (msg_ns @ ''ResponseCode'') (hd (x_children ?doc)) \<in> set busy_codes"
    "back_off_value \<in> set (iter_xml ?doc)"
    "map_of (x_attrs back_off_value) ''Name'' = Some ''BackOffMilliseconds''"
    "x_text back_off_value = Some ''inf''" "parse_float ''inf'' = Some PInf"
    by code_simp+
  from infinite_back_off_accepted [OF h(1-6) _ h(7)] show ?thesis by blast
qed

end
