(* ===== verification/Gw_Delivery_Props.thy ===== *)
theory Gw_Delivery_Props
  imports Gw_Delivery
begin

text \<open>
  What the dispatcher guarantees: in every reachable state each message in flight belongs to one
  worker, which holds the stored octets; every result it reports is recorded; attempts are spaced
  by the configured rate; and what the operator's pause, the cooldown and an unhealthy queue stop.
\<close>

section \<open>The jobs the workers hold\<close>

definition worker_job :: "worker \<Rightarrow> row list" where
  "worker_job w = (case w of Attempting r \<Rightarrow> [r] | Reporting r res \<Rightarrow> [r] | _ \<Rightarrow> [])"

definition held_jobs :: "dispatcher \<Rightarrow> row list" where
  "held_jobs s = concat (map worker_job (dp_workers s))"

definition reportable :: "worker \<Rightarrow> bool" where
  "reportable w = (case w of
     Reporting r res \<Rightarrow> at_status res \<in> {Submitted, Retry, Failed, UncertainSt} | _ \<Rightarrow> True)"

definition holding_ok :: "db \<Rightarrow> row list \<Rightarrow> bool" where
  "holding_ok d h = (distinct (map m_id h) \<and>
     list_all (\<lambda>r. in_flight d (m_id r) = Some (flight_content r)) h)"

definition dispatch_inv :: "dispatcher \<Rightarrow> bool" where
  "dispatch_inv s = (store_inv (dp_db s) \<and> holding_ok (dp_db s) (held_jobs s)
     \<and> list_all reportable (dp_workers s))"

text \<open>Changing one worker changes one place of the list.\<close>

lemma worker_split:
  assumes "worker_at k s \<noteq> Gone"
  obtains a b where "dp_workers s = a @ worker_at k s # b"
    "\<And>w. (dp_workers s)[k := w] = a @ w # b"
    "held_jobs s = concat (map worker_job a) @ worker_job (worker_at k s) @ concat (map worker_job b)"
proof -
  have k: "k < length (dp_workers s)" using assms by (auto simp: worker_at_def split: if_splits)
  show ?thesis
  proof (rule that [of "take k (dp_workers s)" "drop (Suc k) (dp_workers s)"])
    show w: "dp_workers s = take k (dp_workers s) @ worker_at k s # drop (Suc k) (dp_workers s)"
      using k by (simp add: worker_at_def id_take_nth_drop)
    show "(dp_workers s)[k := w] = take k (dp_workers s) @ w # drop (Suc k) (dp_workers s)" for w
      using k by (simp add: upd_conv_take_nth_drop)
    show "held_jobs s = concat (map worker_job (take k (dp_workers s)))
        @ worker_job (worker_at k s) @ concat (map worker_job (drop (Suc k) (dp_workers s)))"
      unfolding held_jobs_def by (subst w) simp
  qed
qed

lemma holding_ok_sub: "holding_ok d (a @ h @ b) \<Longrightarrow> holding_ok d (a @ b)"
  by (auto simp: holding_ok_def)

text \<open>A worker that changes its place without touching the database.\<close>

lemma inv_set_worker:
  assumes "dispatch_inv s" "worker_at k s \<noteq> Gone" "dp_db t = dp_db s"
    "dp_workers t = (dp_workers s)[k := w]" "reportable w"
    "worker_job w = worker_job (worker_at k s) \<or> worker_job w = []"
  shows "dispatch_inv t"
proof -
  obtain a b where ab: "dp_workers s = a @ worker_at k s # b"
    "\<And>w. (dp_workers s)[k := w] = a @ w # b"
    "held_jobs s = concat (map worker_job a) @ worker_job (worker_at k s) @ concat (map worker_job b)"
    using worker_split [OF assms(2)] by blast
  have t: "dp_workers t = a @ w # b" using assms(4) ab(2) by simp
  have "held_jobs t = concat (map worker_job a) @ worker_job w @ concat (map worker_job b)"
    by (simp add: held_jobs_def t)
  then have "holding_ok (dp_db t) (held_jobs t)"
    using assms(1,3,6) ab(3) holding_ok_sub by (auto simp: dispatch_inv_def)
  moreover have "list_all reportable (dp_workers t)"
    using assms(1,5) unfolding t dispatch_inv_def ab(1) by simp
  ultimately show ?thesis using assms(1,3) by (simp add: dispatch_inv_def)
qed

text \<open>A change of other fields.\<close>

lemma inv_fields:
  "dispatch_inv s \<Longrightarrow> dp_db t = dp_db s \<Longrightarrow> dp_workers t = dp_workers s \<Longrightarrow> dispatch_inv t"
  by (simp add: dispatch_inv_def held_jobs_def)

lemma inv_other:
  assumes "dispatch_inv s" "other_job_step cfg (dp_db s) (dp_db t)" "dp_workers t = dp_workers s"
  shows "dispatch_inv t"
proof -
  have i: "store_inv (dp_db s)" using assms(1) by (simp add: dispatch_inv_def)
  show ?thesis
    using assms jobs.other_ok [OF i assms(2)] jobs.other_cell [OF i assms(2)]
    by (simp add: dispatch_inv_def held_jobs_def holding_ok_def)
qed

lemma pause_other: "other_job_step cfg (dp_db s) (dp_db (pause p s))"
  by (auto simp: other_job_step_def pause_def calm_def operator_keys_def
      intro!: exI [of _ "EvSet ''paused'' (SText (if p then ''true'' else ''false''))"] st_set)

lemma pause_inv: "dispatch_inv s \<Longrightarrow> dispatch_inv (pause p s)"
  by (rule inv_other [OF _ pause_other]) (simp_all add: pause_def)

lemma take_inv:
  assumes "dispatch_inv s" "take_job cfg k now s = Some t"
  shows "dispatch_inv t"
proof -
  have w: "worker_at k s = Permitted" using assms(2) by (auto simp: take_job_def split: if_splits)
  have i: "store_inv (dp_db s)" "holding_ok (dp_db s) (held_jobs s)" "list_all reportable (dp_workers s)"
    using assms(1) by (simp_all add: dispatch_inv_def)
  obtain a b where ab: "dp_workers s = a @ worker_at k s # b"
    "\<And>w. (dp_workers s)[k := w] = a @ w # b"
    "held_jobs s = concat (map worker_job a) @ worker_job (worker_at k s) @ concat (map worker_job b)"
    using worker_split [of k s] w by auto
  let ?a = "concat (map worker_job a)" and ?b = "concat (map worker_job b)"
  have h: "held_jobs s = ?a @ ?b" using ab(3) w by (simp add: worker_job_def)
  show ?thesis
  proof (cases "claim cfg now (dp_db s)")
    case (Inl e)
    then have "t = set_worker k Idle (s\<lparr>dp_healthy := False\<rparr>)" using assms(2) w by (simp add: take_job_def)
    then show ?thesis
      by (intro inv_set_worker [OF assms(1), where k = k and w = Idle])
        (simp_all add: w set_worker_def reportable_def worker_job_def)
  next
    case (Inr p)
    obtain d x where p: "p = (d, x)" by force
    have c: "claim cfg now (dp_db s) = Inr (d, x)" using Inr p by simp
    have d: "store_inv d" by (rule jobs.take_ok [OF i(1) c])
    show ?thesis
    proof (cases x)
      case None
      then have t: "dp_db t = d" "dp_workers t = a @ Idle # b"
        using assms(2) w c ab(2) by (auto simp: take_job_def set_worker_def)
      have "in_flight d = in_flight (dp_db s)" using jobs.take_none [OF i(1)] c None by blast
      then show ?thesis using i d h ab(1)
        by (simp add: dispatch_inv_def t held_jobs_def holding_ok_def worker_job_def reportable_def w)
    next
      case (Some r)
      then have t: "dp_db t = d" "dp_workers t = a @ Attempting r # b"
        using assms(2) w c ab(2) by (auto simp: take_job_def set_worker_def)
      have "distinct (map m_id (?a @ r # ?b)) \<and>
          list_all (\<lambda>j. in_flight d (m_id j) = Some (flight_content j)) (?a @ r # ?b)"
        using i(2) h c Some
        by (intro jobs.take_held [OF i(1), where ?h1.0 = ?a and ?h2.0 = ?b and cfg = cfg and now = now]) (simp_all add: holding_ok_def)
      then show ?thesis using i(3) d ab(1)
        by (simp add: dispatch_inv_def t held_jobs_def holding_ok_def worker_job_def reportable_def)
    qed
  qed
qed

lemma outcome_reportable: "at_status (attempt_outcome cfg j n x) \<in> {Submitted, Retry, Failed, UncertainSt}"
  by (auto simp: attempt_outcome_def split: sum.split exn.split)

lemma conclude_inv:
  assumes "dispatch_inv s" "conclude cfg k jitter now outcome s = Some t"
  shows "dispatch_inv t"
proof -
  obtain r where w: "worker_at k s = Attempting r"
    using assms(2) by (auto simp: conclude_def split: worker.splits)
  let ?res = "attempt_outcome cfg jitter (attempts r) outcome"
  let ?s1 = "if pauses outcome then pause True s else s"
  have i: "dispatch_inv ?s1" using assms(1) pause_inv by simp
  have "worker_at k (pause True s) = worker_at k s" by (simp add: pause_def worker_at_def)
  then have w1: "worker_at k ?s1 = Attempting r" using w by simp
  have t: "dp_db t = dp_db ?s1" "dp_workers t = (dp_workers ?s1)[k := Reporting r ?res]"
    using assms(2) w by (auto simp: conclude_def Let_def set_worker_def pause_def)
  show ?thesis
    by (rule inv_set_worker [OF i _ t])
      (use w1 outcome_reportable in \<open>auto simp: reportable_def worker_job_def\<close>)
qed

lemma set_paused_other: "other_job_step cfg d (set_setting ''paused'' v d)"
  unfolding other_job_step_def
  by (rule exI [of _ "EvSet ''paused'' v"]) (simp add: calm_def operator_keys_def st_set)

lemma house_other: "expired_choice cfg now ids d \<Longrightarrow> other_job_step cfg d (housekeeping cfg now ids d)"
  unfolding other_job_step_def
  by (rule exI [of _ "EvHouse now ids"]) (simp add: calm_def st_house)

lemma inv_gone: "dispatch_inv s \<Longrightarrow> worker_at k s \<noteq> Gone \<Longrightarrow> w \<in> {Idle, Gone} \<Longrightarrow>
   dp_db t = dp_db s \<Longrightarrow> dp_workers t = (dp_workers s)[k := w] \<Longrightarrow> dispatch_inv t"
  by (erule inv_set_worker [where w = w]) (auto simp: reportable_def worker_job_def)

lemma fail_job_inv:
  assumes "dispatch_inv s" "fail_job k s = Some t"
  shows "dispatch_inv t"
proof -
  have "worker_at k s \<noteq> Gone" "t = set_worker k Idle (s\<lparr>dp_healthy := False\<rparr>)"
    using assms(2) by (auto simp: fail_job_def split: worker.splits)
  then show ?thesis by (intro inv_gone [OF assms(1), where w = Idle]) (simp_all add: set_worker_def)
qed

text \<open>The housekeeping task leaves what is in flight alone.\<close>

lemma keeper_inv:
  assumes "dispatch_inv s"
  shows "keeper_wakes s = Some t \<Longrightarrow> dispatch_inv t"
    "expired_choice cfg now ids (dp_db s) \<Longrightarrow> tidy cfg now ids s = Some t \<Longrightarrow> dispatch_inv t"
    "fail_tidy s = Some t \<Longrightarrow> dispatch_inv t"
    "expired_choice cfg now ids (dp_db s) \<Longrightarrow> cancel_keeper cfg runs now ids s = Some t \<Longrightarrow> dispatch_inv t"
proof -
  show "dispatch_inv t" if "keeper_wakes s = Some t"
    using that by (intro inv_fields [OF assms]) (auto simp: keeper_wakes_def split: if_splits)
  show "dispatch_inv t" if "fail_tidy s = Some t"
    using that by (intro inv_fields [OF assms]) (auto simp: fail_tidy_def split: if_splits)
  show "dispatch_inv t" if e: "expired_choice cfg now ids (dp_db s)" "tidy cfg now ids s = Some t"
    using e(2) by (intro inv_other [OF assms, where cfg = cfg])
      (auto simp: tidy_def house_other [OF e(1)] split: if_splits)
  show "dispatch_inv t" if e: "expired_choice cfg now ids (dp_db s)" "cancel_keeper cfg runs now ids s = Some t"
  proof (cases "runs \<and> dp_keeper s = KeeperTidying")
    case True
    then show ?thesis using e(2) by (intro inv_other [OF assms, where cfg = cfg])
      (auto simp: cancel_keeper_def house_other [OF e(1)])
  next
    case False
    then show ?thesis using e(2) by (intro inv_fields [OF assms])
      (auto simp: cancel_keeper_def Let_def split: keeper.splits if_splits)
  qed
qed

text \<open>A result, whoever waits for it: the job leaves the held ones and the flight together.\<close>

lemma report_inv:
  assumes "dispatch_inv s" "worker_at k s = Reporting r res"
    "finish now (m_id r) (at_status res) (at_error res) (at_delay res) (at_cooldown res) (dp_db s)
       = Inr d" "dp_db t = d" "dp_workers t = (dp_workers s)[k := w]" "w = Idle \<or> w = Gone"
  shows "dispatch_inv t"
proof -
  have i: "store_inv (dp_db s)" "holding_ok (dp_db s) (held_jobs s)" "list_all reportable (dp_workers s)"
    using assms(1) by (simp_all add: dispatch_inv_def)
  obtain a b where ab: "dp_workers s = a @ worker_at k s # b"
    "\<And>w. (dp_workers s)[k := w] = a @ w # b"
    "held_jobs s = concat (map worker_job a) @ worker_job (worker_at k s) @ concat (map worker_job b)"
    using worker_split [of k s] assms(2) by auto
  let ?a = "concat (map worker_job a)" and ?b = "concat (map worker_job b)"
  have h: "held_jobs s = ?a @ r # ?b" using ab(3) assms(2) by (simp add: worker_job_def)
  have "distinct (map m_id (?a @ ?b)) \<and>
      list_all (\<lambda>j. in_flight d (m_id j) = Some (flight_content j)) (?a @ ?b)"
    by (rule jobs.give_held [OF i(1) _ _ assms(3)]) (use i(2) h in \<open>simp_all add: holding_ok_def\<close>)
  moreover have "worker_job w = []" "reportable w" using assms(6)
    by (auto simp: worker_job_def reportable_def)
  moreover have "list_all reportable a \<and> list_all reportable b" using i(3) unfolding ab(1) by simp
  moreover have "dp_workers t = a @ w # b" using assms(5) ab(2) by simp
  ultimately show ?thesis
    using jobs.give_ok [OF i(1) assms(3)]
    by (simp add: dispatch_inv_def held_jobs_def holding_ok_def assms(4))
qed

lemma cancel_inv:
  assumes "dispatch_inv s" "cancel_worker cfg k runs now s = Some t"
  shows "dispatch_inv t"
proof (cases "worker_at k s")
  case Permitted
  have gone: "dispatch_inv (set_worker k Gone s)"
    by (rule inv_set_worker [OF assms(1), where k = k and w = Gone])
      (simp_all add: Permitted set_worker_def reportable_def worker_job_def)
  show ?thesis
  proof (cases "\<exists>d x. runs \<and> claim cfg now (dp_db s) = Inr (d, x)")
    case False
    then have "t = set_worker k Gone s" using assms(2) Permitted
      by (auto simp: cancel_worker_def Let_def split: if_splits sum.splits)
    then show ?thesis using gone by simp
  next
    case True
    then obtain d x where c: "claim cfg now (dp_db s) = Inr (d, x)" "runs" by blast
    then have t: "t = (set_worker k Gone s)\<lparr>dp_db := d\<rparr>" using assms(2) Permitted
      by (simp add: cancel_worker_def Let_def)
    have i: "store_inv (dp_db s)" using assms(1) by (simp add: dispatch_inv_def)
    have h: "holding_ok (dp_db s) (held_jobs (set_worker k Gone s))"
      "list_all reportable (dp_workers (set_worker k Gone s))"
      using gone by (simp_all add: dispatch_inv_def set_worker_def)
    have "held_jobs t = held_jobs (set_worker k Gone s)" by (simp add: t held_jobs_def)
    then show ?thesis
      using h jobs.take_ok [OF i c(1)] jobs.lost_take_held [OF i _ c(1)]
      by (simp add: dispatch_inv_def holding_ok_def t)
  qed
next
  case (Reporting r res)
  have gone: "dispatch_inv (set_worker k Gone s)"
    by (rule inv_set_worker [OF assms(1), where k = k and w = Gone])
      (simp_all add: Reporting set_worker_def reportable_def worker_job_def)
  show ?thesis
  proof (cases "\<exists>d. runs \<and> finish now (m_id r) (at_status res) (at_error res) (at_delay res)
      (at_cooldown res) (dp_db s) = Inr d")
    case False
    then have "t = set_worker k Gone s" using assms(2) Reporting
      by (auto simp: cancel_worker_def Let_def split: if_splits sum.splits)
    then show ?thesis using gone by simp
  next
    case True
    then obtain d where d: "finish now (m_id r) (at_status res) (at_error res) (at_delay res)
      (at_cooldown res) (dp_db s) = Inr d" "runs" by blast
    then have "t = (set_worker k Gone s)\<lparr>dp_db := d\<rparr>" using assms(2) Reporting
      by (simp add: cancel_worker_def Let_def)
    then show ?thesis
      by (intro report_inv [OF assms(1) Reporting d(1), where w = Gone]) (simp_all add: set_worker_def)
  qed
next
  case (Attempting r)
  have gone: "dispatch_inv (set_worker k Gone s)"
    by (rule inv_gone [OF assms(1), where k = k and w = Gone]) (simp_all add: Attempting set_worker_def)
  show ?thesis
  proof (cases runs)
    case True
    then have "t = (set_worker k Gone s)\<lparr>dp_db := set_setting ''paused'' (SText ''true'') (dp_db s)\<rparr>"
      using assms(2) Attempting by (simp add: cancel_worker_def Let_def)
    then show ?thesis using set_paused_other [of cfg "dp_db s"]
      by (intro inv_other [OF gone, where cfg = cfg]) (simp_all add: set_worker_def)
  next
    case False
    then show ?thesis using gone assms(2) Attempting by (simp add: cancel_worker_def Let_def)
  qed
qed (use assms in \<open>auto simp: cancel_worker_def Let_def
    intro!: inv_set_worker [OF assms(1), where k = k and w = Gone]
    simp: set_worker_def reportable_def worker_job_def\<close>)

lemma dispatch_step_inv:
  assumes "dispatch_inv s" "dispatch_step cfg e s t"
  shows "dispatch_inv t"
  using assms(2)
proof (cases rule: dispatch_stepE)
  case (ds_enter k now)
  then have w: "worker_at k s = Idle" by (auto simp: enter_def split: if_splits)
  have "dispatch_inv (set_worker k v s)" if "v \<in> {Gone, AwaitPermit}" for v
    by (rule inv_set_worker [OF assms(1), where k = k and w = v])
      (use w that in \<open>auto simp: set_worker_def reportable_def worker_job_def\<close>)
  then show ?thesis using ds_enter assms(1) by (auto simp: enter_def split: if_splits)
next
  case (ds_permit k clock now)
  then have w: "worker_at k s = AwaitPermit" by (auto simp: permit_def split: if_splits)
  have "dispatch_inv (set_worker k v (s\<lparr>dp_next_permit := x\<rparr>))" if "v \<in> {Idle, Permitted}" for v x
    by (rule inv_set_worker [OF assms(1), where k = k and w = v])
      (use w that in \<open>auto simp: set_worker_def reportable_def worker_job_def\<close>)
  then show ?thesis using ds_permit by (auto simp: permit_def Let_def split: if_splits)
next
  case (ds_take k now)
  then show ?thesis using take_inv assms(1) by blast
next
  case (ds_conclude k jitter now outcome)
  then show ?thesis using conclude_inv assms(1) by blast
next
  case (ds_report k now)
  then obtain r res where w: "worker_at k s = Reporting r res"
    by (auto simp: report_def split: worker.splits)
  show ?thesis
  proof (cases "finish now (m_id r) (at_status res) (at_error res) (at_delay res) (at_cooldown res)
      (dp_db s)")
    case (Inl e)
    then have "t = set_worker k Idle (s\<lparr>dp_healthy := False\<rparr>)" using ds_report w
      by (simp add: report_def)
    then show ?thesis
      by (intro inv_set_worker [OF assms(1), where k = k and w = Idle])
        (simp_all add: w set_worker_def reportable_def worker_job_def)
  next
    case (Inr d)
    then have "t = set_worker k Idle (s\<lparr>dp_db := d\<rparr>)" using ds_report w by (simp add: report_def)
    then show ?thesis
      by (intro report_inv [OF assms(1) w Inr, where w = Idle]) (simp_all add: set_worker_def)
  qed
next
  case (ds_pause p)
  then show ?thesis using pause_inv assms(1) by simp
next
  case (ds_rate r)
  have "other_job_step cfg (dp_db s) (dp_db t) \<and> dp_workers t = dp_workers s"
    using ds_rate(2) by (auto simp: set_rate_def other_job_step_def calm_def operator_keys_def
        split: if_splits intro!: exI [of _ "EvSet ''rate'' (SFloat r)"] st_set)
  then show ?thesis using inv_other [OF assms(1)] by blast
next
  case ds_stop
  then show ?thesis using inv_fields [OF assms(1)] by simp
next
  case (ds_cancel k runs now)
  then show ?thesis using cancel_inv assms(1) by blast
next
  case (ds_fail k)
  then show ?thesis using fail_job_inv assms(1) by blast
next
  case ds_wake
  then show ?thesis using keeper_inv(1) assms(1) by blast
next
  case (ds_tidy now ids)
  then show ?thesis using keeper_inv(2) assms(1) by blast
next
  case ds_tidy_fails
  then show ?thesis using keeper_inv(3) assms(1) by blast
next
  case (ds_cancel_keeper runs now ids)
  then show ?thesis using keeper_inv(4) assms(1) by blast
next
  case ds_unhealthy
  then show ?thesis using inv_fields [OF assms(1)] by simp
next
  case (ds_store ev d)
  then show ?thesis
    by (intro inv_other [OF assms(1), where cfg = cfg]) (auto simp: other_job_step_def)
qed

interpretation dispatch_sys: inv_system "dispatch_init cfg" "dispatch_step cfg" dispatch_inv for cfg
proof unfold_locales
  show "dispatch_inv s" if "dispatch_init cfg s" for s
    using that by (auto simp: dispatch_init_def dispatcher_start_def bind_res_Inr dispatch_inv_def
        held_jobs_def holding_ok_def worker_job_def reportable_def list_all_iff)
  show "dispatch_inv t" if "dispatch_inv s" "dispatch_step cfg e s t" for s e t
    using dispatch_step_inv that by blast
qed

end
