(* ===== verification/Gw_Delivery_Claims.thy ===== *)
theory Gw_Delivery_Claims
  imports Gw_Delivery_Props
begin

text \<open>
  The dispatcher's guarantees (\<open>delivery.py\<close>) in every reachable state: ownership of the messages
  in flight, recording of results, pacing, and what a pause and an unhealthy queue stop.
\<close>

section \<open>Ownership\<close>

lemma in_flight_row:
  "in_flight d i = Some c \<Longrightarrow> \<exists>row. find_row i (messages d) = Some row \<and> status row = Sending
     \<and> flight_content row = c"
  by (auto simp: in_flight_def row_after_def split: option.splits if_splits)

text \<open>
  C7: Each worker owns the message it handles.  In every reachable state the workers in an attempt
  hold pairwise different messages; each of these is in flight in the database, and the octets,
  recipients and sender the worker has are the stored ones.
\<close>

theorem workers_own_their_messages:
  assumes "reach (dispatch_init cfg) (dispatch_step cfg) s"
  shows "distinct (map m_id (held_jobs s)) \<and>
    list_all (\<lambda>r. \<exists>row. find_row (m_id r) (messages (dp_db s)) = Some row \<and> status row = Sending
       \<and> mime row = mime r \<and> recipients row = recipients r
       \<and> envelope_sender row = envelope_sender r) (held_jobs s)"
proof -
  have "holding_ok (dp_db s) (held_jobs s)"
    using dispatch_sys.reach_inv [OF assms] by (simp add: dispatch_inv_def)
  then show ?thesis
    by (auto simp: holding_ok_def list_all_iff flight_content_def dest!: in_flight_row)
qed

text \<open>A run of one worker: enter, permit, claim.\<close>

definition demo_disp :: dispatcher where
  "demo_disp = projr (dispatcher_start demo_cfg True demo_stored)"

definition demo_awaiting :: dispatcher where
  "demo_awaiting = the (enter 0 1 demo_disp)"

definition demo_permitted :: dispatcher where
  "demo_permitted = the (permit 0 1 1 demo_awaiting)"

definition demo_attempting :: dispatcher where
  "demo_attempting = the (take_job demo_cfg 0 1 demo_permitted)"

definition demo_reporting :: dispatcher where
  "demo_reporting = the (conclude demo_cfg 0 1 2 (Inr ()) demo_attempting)"

lemma demo_disp_steps:
  "dispatcher_start demo_cfg True demo_stored = Inr demo_disp"
  "enter 0 1 demo_disp = Some demo_awaiting"
  "permit 0 1 1 demo_awaiting = Some demo_permitted"
  "take_job demo_cfg 0 1 demo_permitted = Some demo_attempting"
  "conclude demo_cfg 0 1 2 (Inr ()) demo_attempting = Some demo_reporting"
  by code_simp+

lemma demo_disp_reach:
  "reach (dispatch_init demo_cfg) (dispatch_step demo_cfg) demo_disp"
  "reach (dispatch_init demo_cfg) (dispatch_step demo_cfg) demo_attempting"
  "reach (dispatch_init demo_cfg) (dispatch_step demo_cfg) demo_reporting"
proof -
  show 0: "reach (dispatch_init demo_cfg) (dispatch_step demo_cfg) demo_disp"
    by (rule reach_init) (use demo_disp_steps(1) demo_inv(1) in \<open>auto simp: dispatch_init_def\<close>)
  have 1: "reach (dispatch_init demo_cfg) (dispatch_step demo_cfg) demo_awaiting"
    by (rule reach_step [OF 0]) (rule ds_enter [OF demo_disp_steps(2)])
  have 2: "reach (dispatch_init demo_cfg) (dispatch_step demo_cfg) demo_permitted"
    by (rule reach_step [OF 1]) (rule ds_permit [OF demo_disp_steps(3)])
  show 3: "reach (dispatch_init demo_cfg) (dispatch_step demo_cfg) demo_attempting"
    by (rule reach_step [OF 2]) (rule ds_take [OF demo_disp_steps(4)])
  show "reach (dispatch_init demo_cfg) (dispatch_step demo_cfg) demo_reporting"
    by (rule reach_step [OF 3]) (rule ds_conclude [OF demo_disp_steps(5)])
qed

lemma demo_held: "map m_id (held_jobs demo_attempting) = [''a'']"
  by code_simp

theorem workers_own_their_messages_witness:
  "\<exists>row. find_row ''a'' (messages (dp_db demo_attempting)) = Some row \<and> status row = Sending"
proof -
  obtain r where "held_jobs demo_attempting = [r]" "m_id r = ''a''"
    using demo_held by (cases "held_jobs demo_attempting") auto
  then show ?thesis using workers_own_their_messages [OF demo_disp_reach(2)] by auto
qed

section \<open>Results\<close>

lemma finish_succeeds:
  assumes "find_row i (messages d) = Some r" "status r = Sending"
    "st \<in> {Submitted, Retry, Failed, UncertainSt}" "del \<noteq> NaN"
    "\<not> isl (float_setting ''cooldown_until'' d)"
  shows "\<exists>d' r'. finish now i st er del cd d = Inr d' \<and> find_row i (messages d') = Some r'
     \<and> status r' = st \<and> error r' = take 500 er"
proof -
  have n: "py_add (Fin now) del \<noteq> NaN" using assms(4) by (cases del) auto
  obtain x where x: "float_setting ''cooldown_until'' d = Inr x"
    using assms(5) by (cases "float_setting ''cooldown_until'' d") auto
  have "float_setting ''cooldown_until'' (count now k v b d0) = float_setting ''cooldown_until'' d"
    if "settings d0 = settings d" for d0 k v b
    using that by (simp add: float_setting_def)
  then have "\<not> isl (finish now i st er del cd d)"
    using assms(1-3) n x
    by (auto simp: finish_def Let_def float_setting_def release_counters_def)
  then obtain d' where d': "finish now i st er del cd d = Inr d'"
    by (cases "finish now i st er del cd d") auto
  then have "messages d' = upd_row i (finish_row now st er del) (messages d)" by (rule finish_Inr)
  then have "find_row i (messages d') = Some (finish_row now st er del r)"
    using assms(1) by (simp add: find_upd_row)
  then show ?thesis using d' by (auto simp: finish_row_def Let_def)
qed

text \<open>
   Every result a worker has is recorded.  In a reachable state, with the stored cooldown a
  number and a delay that is not NaN, the worker's report succeeds: the message gets the status
  and the text of the result, the worker is free again, and the queue stays healthy; the report is
  never refused as stale.
\<close>

theorem result_is_recorded:
  assumes "reach (dispatch_init cfg) (dispatch_step cfg) s"
    and "worker_at k s = Reporting r res" and "at_delay res \<noteq> NaN"
    and "\<not> isl (float_setting ''cooldown_until'' (dp_db s))"
  shows "\<exists>t row. report k now s = Some t \<and> worker_at k t = Idle \<and> dp_healthy t = dp_healthy s
     \<and> find_row (m_id r) (messages (dp_db t)) = Some row \<and> status row = at_status res
     \<and> error row = take 500 (at_error res)"
proof -
  have inv: "dispatch_inv s" by (rule dispatch_sys.reach_inv [OF assms(1)])
  have k: "k < length (dp_workers s)" "dp_workers s ! k = Reporting r res"
    using assms(2) by (auto simp: worker_at_def split: if_splits)
  then have mem: "Reporting r res \<in> set (dp_workers s)" by (metis nth_mem)
  then have "r \<in> set (held_jobs s)" by (force simp: held_jobs_def worker_job_def)
  then have "in_flight (dp_db s) (m_id r) = Some (flight_content r)"
    using inv by (auto simp: dispatch_inv_def holding_ok_def list_all_iff)
  from in_flight_row [OF this] obtain row where
    row: "find_row (m_id r) (messages (dp_db s)) = Some row" "status row = Sending" by blast
  have st: "at_status res \<in> {Submitted, Retry, Failed, UncertainSt}"
    using inv mem by (auto simp: dispatch_inv_def list_all_iff reportable_def)
  from finish_succeeds [OF row st assms(3,4)] obtain d' r' where
    "finish now (m_id r) (at_status res) (at_error res) (at_delay res) (at_cooldown res) (dp_db s)
       = Inr d'" "find_row (m_id r) (messages d') = Some r'" "status r' = at_status res"
    "error r' = take 500 (at_error res)" by blast
  then show ?thesis using assms(2) k(1) by (auto simp: report_def set_worker_def worker_at_def)
qed

theorem result_is_recorded_witness:
  "\<exists>t row. report 0 3 demo_reporting = Some t \<and> find_row ''a'' (messages (dp_db t)) = Some row
     \<and> status row = Submitted"
proof -
  let ?w = "worker_at 0 demo_reporting"
  obtain r res where w: "?w = Reporting r res" and r: "m_id r = ''a''"
    and res: "at_status res = Submitted" "at_delay res \<noteq> NaN"
  proof -
    have "case ?w of Reporting r res \<Rightarrow> m_id r = ''a'' \<and> at_status res = Submitted
        \<and> at_delay res \<noteq> NaN | _ \<Rightarrow> False" by code_simp
    then show ?thesis using that by (auto split: worker.splits)
  qed
  have "\<not> isl (float_setting ''cooldown_until'' (dp_db demo_reporting))" by code_simp
  from result_is_recorded [OF demo_disp_reach(3) w res(2) this, of 3] r res(1)
  show ?thesis by auto
qed

section \<open>Pacing\<close>

lemma worker_steps_frame:
  "enter k now s = Some t \<Longrightarrow> dp_next_permit t = dp_next_permit s"
  "take_job cfg k now s = Some t \<Longrightarrow> dp_next_permit t = dp_next_permit s"
  "conclude cfg k j now x s = Some t \<Longrightarrow> dp_next_permit t = dp_next_permit s"
  "report k now s = Some t \<Longrightarrow> dp_next_permit t = dp_next_permit s"
  "cancel_worker cfg k runs now s = Some t \<Longrightarrow> dp_next_permit t = dp_next_permit s"
  "set_rate r s = Inr t \<Longrightarrow> dp_next_permit t = dp_next_permit s"
  by (auto simp: enter_def take_job_def conclude_def report_def cancel_worker_def set_rate_def
      set_worker_def pause_def Let_def
      split: if_splits sum.splits prod.splits option.splits worker.splits)

lemma keeper_steps_frame:
  "fail_job k s = Some t \<Longrightarrow> dp_next_permit t = dp_next_permit s"
  "keeper_wakes s = Some t \<Longrightarrow> dp_next_permit t = dp_next_permit s"
  "tidy cfg now ids s = Some t \<Longrightarrow> dp_next_permit t = dp_next_permit s"
  "fail_tidy s = Some t \<Longrightarrow> dp_next_permit t = dp_next_permit s"
  "cancel_keeper cfg runs now ids s = Some t \<Longrightarrow> dp_next_permit t = dp_next_permit s"
  by (auto simp: fail_job_def keeper_wakes_def tidy_def fail_tidy_def cancel_keeper_def set_worker_def Let_def
      split: if_splits worker.splits keeper.splits)

definition grants :: "dispatch_event \<Rightarrow> bool" where
  "grants e = (case e of DPermit k clock now \<Rightarrow> True | _ \<Rightarrow> False)"

lemma step_keeps_slot:
  assumes "dispatch_step cfg e s t" "\<not> grants e"
  shows "dp_next_permit t = dp_next_permit s"
  using assms(1)
proof (cases rule: dispatch_stepE)
  case (ds_permit k clock now)
  then show ?thesis using assms(2) by (simp add: grants_def)
qed (use worker_steps_frame keeper_steps_frame in \<open>auto simp: pause_def\<close>)

lemma run_keeps_slot:
  assumes "run (dispatch_step cfg) s xs" "list_all (\<lambda>(e, t). \<not> grants e) xs"
  shows "dp_next_permit (final s xs) = dp_next_permit s"
  using assms
proof (induction xs arbitrary: s)
  case (Cons x xs)
  obtain e t where x: "x = (e, t)" by force
  have "dp_next_permit t = dp_next_permit s" using Cons.prems x step_keeps_slot by auto
  then show ?case using Cons x by simp
qed simp

text \<open>
   Attempts are paced.  Two successive permits to start an attempt, to whichever workers, lie
  at least \<open>1 / rate\<close> seconds apart on the monotonic clock, with the rate in force at the first
  one; only a stopping dispatcher cuts the wait short, and then no attempt follows.
\<close>

theorem permits_are_spaced:
  assumes "permit k c now s = Some t" and "dp_rate s = Fin r"
    and "run (dispatch_step cfg) t xs" and "list_all (\<lambda>(e, t). \<not> grants e) xs"
    and "permit k' c' now' (final t xs) = Some u"
  shows "c' \<ge> c + 1 / r \<or> (dp_stopping (final t xs) \<and> worker_at k' u = Idle)"
proof -
  have "dp_next_permit t = Fin (c + 1 / r)"
    using assms(1,2) by (auto simp: permit_def Let_def permit_gap_def set_worker_def split: if_splits)
  then have n: "dp_next_permit (final t xs) = Fin (c + 1 / r)"
    using run_keeps_slot [OF assms(3,4)] by simp
  have k: "k' < length (dp_workers (final t xs))"
    using assms(5) by (auto simp: permit_def worker_at_def split: if_splits)
  show ?thesis
  proof (cases "dp_stopping (final t xs)")
    case True
    then show ?thesis using assms(5) k
      by (auto simp: permit_def Let_def set_worker_def worker_at_def split: if_splits)
  next
    case False
    then have "\<not> py_lt (Fin c') (dp_next_permit (final t xs))"
      using assms(5) by (auto simp: permit_def split: if_splits)
    then show ?thesis by (simp add: n py_lt_def)
  qed
qed

definition demo_second :: dispatcher where
  "demo_second = the (enter 1 1 demo_permitted)"

theorem permits_are_spaced_witness:
  "3 \<ge> (1::rat) + 1 / (1/2) \<or> (dp_stopping demo_second \<and>
     worker_at 1 (the (permit 1 3 3 demo_second)) = Idle)"
proof -
  have e: "enter 1 1 demo_permitted = Some demo_second"
    "permit 1 3 3 demo_second = Some (the (permit 1 3 3 demo_second))"
    "dp_rate demo_awaiting = Fin (1/2)"
    by code_simp+
  have r: "run (dispatch_step demo_cfg) demo_permitted [(DEnter 1 1, demo_second)]"
    using ds_enter [OF e(1)] by simp
  have u: "permit 1 3 3 (final demo_permitted [(DEnter 1 1, demo_second)])
      = Some (the (permit 1 3 3 demo_second))" using e(2) by simp
  have g: "list_all (\<lambda>(e, t). \<not> grants e) [(DEnter 1 1, demo_second)]" by (simp add: grants_def)
  show ?thesis
    using permits_are_spaced [OF demo_disp_steps(3) e(3) r g u] by simp
qed

section \<open>The operator's pause\<close>

definition resumes :: "dispatch_event \<Rightarrow> bool" where
  "resumes e = (case e of DPause p \<Rightarrow> \<not> p | DStore (EvSet k v) \<Rightarrow> True | _ \<Rightarrow> False)"

definition paused_db :: "db \<Rightarrow> bool" where
  "paused_db d = (tab_get (SText ''false'') ''paused'' (settings d) = SText ''true'')"

lemma paused_claim: "paused_db d \<Longrightarrow> claim cfg now d = Inr (d, None)"
  by (simp add: paused_db_def claim_def)

lemma paused_set: "key \<noteq> ''paused'' \<Longrightarrow> paused_db (set_db key v d) = paused_db d"
  by (simp add: paused_db_def)

lemma paused_finish:
  assumes "finish now i st er del cd d = Inr d'" "paused_db d"
  shows "paused_db d'"
  using assms(1) by (rule finish_Inr) (use assms(2) in \<open>auto simp: paused_db_def\<close>)

lemma paused_store:
  assumes "store_step cfg e d d'" "calm e" "\<forall>k v. e \<noteq> EvSet k v" "paused_db d"
  shows "paused_db d'"
  using assms(1)
proof (cases rule: store_stepE)
  case (st_insert healthy free now batch vs)
  then show ?thesis using insert_settings assms(4) by (simp add: paused_db_def)
next
  case (st_act now i action ack)
  then show ?thesis using act_settings assms(4) by (simp add: paused_db_def)
next
  case (st_house now ids)
  then show ?thesis using assms(4) by (simp add: paused_db_def housekeeping_def)
qed (use assms(2,3) in \<open>simp_all add: calm_def\<close>)

lemma held_update:
  "set (concat (map worker_job (ws[k := w]))) \<subseteq> set (concat (map worker_job ws)) \<union> set (worker_job w)"
  using set_update_subset_insert [of ws k w] by auto

lemma held_set_worker:
  "dp_workers t = (dp_workers s)[k := w] \<Longrightarrow> set (worker_job w) \<subseteq> set (held_jobs s) \<Longrightarrow>
     set (held_jobs t) \<subseteq> set (held_jobs s)"
  using held_update [of "dp_workers s" k w] by (auto simp: held_jobs_def)

lemma held_at:
  assumes "worker_at k s = Attempting r"
  shows "r \<in> set (held_jobs s)"
proof -
  have "k < length (dp_workers s)" "dp_workers s ! k = Attempting r"
    using assms by (auto simp: worker_at_def split: if_splits)
  then have "Attempting r \<in> set (dp_workers s)" by (metis nth_mem)
  then show ?thesis by (force simp: held_jobs_def worker_job_def)
qed

lemma held_idle:
  "dp_workers t = (dp_workers s)[k := w] \<Longrightarrow> worker_job w = [] \<Longrightarrow>
     set (held_jobs t) \<subseteq> set (held_jobs s)"
  by (erule held_set_worker) simp

lemma held_other: "dp_workers t = dp_workers s \<Longrightarrow> held_jobs t = held_jobs s"
  by (simp add: held_jobs_def)

lemma paused_house: "paused_db d \<Longrightarrow> paused_db (housekeeping cfg now ids d)"
  by (simp add: paused_db_def housekeeping_def)

lemma paused_keeper:
  assumes "paused_db (dp_db s)"
  shows "keeper_wakes s = Some t \<Longrightarrow> paused_db (dp_db t) \<and> dp_workers t = dp_workers s"
    "tidy cfg now ids s = Some t \<Longrightarrow> paused_db (dp_db t) \<and> dp_workers t = dp_workers s"
    "fail_tidy s = Some t \<Longrightarrow> paused_db (dp_db t) \<and> dp_workers t = dp_workers s"
    "cancel_keeper cfg runs now ids s = Some t \<Longrightarrow> paused_db (dp_db t) \<and> dp_workers t = dp_workers s"
proof -
  note h = assms paused_house [OF assms, of cfg now ids]
  show "keeper_wakes s = Some t \<Longrightarrow> paused_db (dp_db t) \<and> dp_workers t = dp_workers s"
    using h by (auto simp: keeper_wakes_def split: if_splits)
  show "tidy cfg now ids s = Some t \<Longrightarrow> paused_db (dp_db t) \<and> dp_workers t = dp_workers s"
    using h by (auto simp: tidy_def split: if_splits)
  show "fail_tidy s = Some t \<Longrightarrow> paused_db (dp_db t) \<and> dp_workers t = dp_workers s"
    using h by (auto simp: fail_tidy_def split: if_splits)
  show "cancel_keeper cfg runs now ids s = Some t \<Longrightarrow> paused_db (dp_db t) \<and> dp_workers t = dp_workers s"
    using h by (cases "dp_keeper s"; auto simp: cancel_keeper_def Let_def split: if_splits)
qed

lemma paused_again [simp]: "paused_db (set_setting ''paused'' (SText ''true'') d)"
  by (simp add: paused_db_def set_setting_def)

lemma not_isl_Inr: "\<not> isl x \<Longrightarrow> \<exists>d. x = Inr d"
  by (cases x) auto

lemma paused_cancel:
  assumes "cancel_worker cfg k runs now s = Some t" "paused_db (dp_db s)"
  shows "dp_workers t = (dp_workers s)[k := Gone] \<and> paused_db (dp_db t)"
proof -
  have t: "t = set_worker k Gone s \<or> (\<exists>d. paused_db d \<and> t = (set_worker k Gone s)\<lparr>dp_db := d\<rparr>)"
  proof (cases "worker_at k s")
    case Permitted
    then have "t = set_worker k Gone s \<or> t = (set_worker k Gone s)\<lparr>dp_db := dp_db s\<rparr>"
      using assms(1) paused_claim [OF assms(2)] by (simp add: cancel_worker_def Let_def split: if_splits)
    then show ?thesis using assms(2) by blast
  next
    case (Attempting r)
    then have "t = set_worker k Gone s
        \<or> t = (set_worker k Gone s)\<lparr>dp_db := set_setting ''paused'' (SText ''true'') (dp_db s)\<rparr>"
      using assms(1) by (simp add: cancel_worker_def Let_def split: if_splits)
    then show ?thesis using paused_again by blast
  next
    case (Reporting r res)
    show ?thesis
    proof (cases "runs \<and> \<not> isl (finish now (m_id r) (at_status res) (at_error res) (at_delay res)
        (at_cooldown res) (dp_db s))")
      case True
      then obtain d where d: "finish now (m_id r) (at_status res) (at_error res) (at_delay res)
        (at_cooldown res) (dp_db s) = Inr d" by (metis not_isl_Inr)
      then have "t = (set_worker k Gone s)\<lparr>dp_db := d\<rparr>"
        using True assms(1) Reporting by (simp add: cancel_worker_def Let_def)
      then show ?thesis using paused_finish [OF d assms(2)] by blast
    next
      case False
      then show ?thesis using assms(1) Reporting
        by (auto simp: cancel_worker_def Let_def split: if_splits sum.splits)
    qed
  qed (use assms(1) in \<open>simp_all add: cancel_worker_def Let_def\<close>)
  then show ?thesis using assms(2) by (auto simp: set_worker_def)
qed

text \<open>While paused, a step starts no attempt and keeps the pause.\<close>

lemma paused_step:
  assumes "dispatch_step cfg e s t" "\<not> resumes e" "paused_db (dp_db s)"
  shows "paused_db (dp_db t) \<and> set (held_jobs t) \<subseteq> set (held_jobs s)"
  using assms(1)
proof (cases rule: dispatch_stepE)
  case (ds_enter k now)
  then have "dp_db t = dp_db s \<and> (t = s \<or> (\<exists>w. worker_job w = [] \<and> dp_workers t = (dp_workers s)[k := w]))"
    by (auto simp: enter_def set_worker_def worker_job_def split: if_splits
        intro: exI [of _ Gone] exI [of _ AwaitPermit])
  then show ?thesis using assms(3) held_idle [of t s k] by (metis order_refl)
next
  case (ds_permit k clock now)
  then have "dp_db t = dp_db s \<and> (\<exists>w. worker_job w = [] \<and> dp_workers t = (dp_workers s)[k := w])"
    by (auto simp: permit_def Let_def set_worker_def worker_job_def split: if_splits
        intro: exI [of _ Idle] exI [of _ Permitted])
  then show ?thesis using assms(3) held_idle [of t s k] by metis
next
  case (ds_take k now)
  then have "t = set_worker k Idle s" using paused_claim [OF assms(3)]
    by (auto simp: take_job_def set_worker_def split: if_splits)
  then show ?thesis using assms(3) held_set_worker [of t s k Idle]
    by (simp add: set_worker_def worker_job_def)
next
  case (ds_conclude k jitter now outcome)
  then obtain r where w: "worker_at k s = Attempting r"
    by (auto simp: conclude_def split: worker.splits)
  have "paused_db (dp_db t) \<and> dp_workers t = (dp_workers s)
      [k := Reporting r (attempt_outcome cfg jitter (attempts r) outcome)]"
    using ds_conclude(2) w assms(3)
    by (auto simp: conclude_def Let_def set_worker_def pause_def paused_db_def set_setting_def)
  then show ?thesis using held_set_worker [of t s k] held_at [OF w] by (simp add: worker_job_def)
next
  case (ds_report k now)
  then obtain r res where w: "worker_at k s = Reporting r res"
    by (auto simp: report_def split: worker.splits)
  have "dp_workers t = (dp_workers s)[k := Idle] \<and> paused_db (dp_db t)"
    using ds_report(2) w assms(3) paused_finish
    by (auto simp: report_def set_worker_def split: sum.splits)
  then show ?thesis using held_set_worker [of t s k Idle] by (simp add: worker_job_def)
next
  case (ds_pause p)
  then have p: "p" using assms(2) by (simp add: resumes_def)
  then show ?thesis using ds_pause
    by (simp add: pause_def paused_db_def set_setting_def held_jobs_def)
next
  case (ds_rate r)
  then show ?thesis using assms(3)
    by (auto simp: set_rate_def set_setting_def paused_set held_jobs_def split: if_splits)
next
  case (ds_cancel k runs now)
  have "dp_workers t = (dp_workers s)[k := Gone] \<and> paused_db (dp_db t)"
    by (rule paused_cancel [OF ds_cancel(3) assms(3)])
  then show ?thesis using held_set_worker [of t s k Gone] by (simp add: worker_job_def)
next
  case (ds_fail k)
  have "dp_workers t = (dp_workers s)[k := Idle] \<and> paused_db (dp_db t)"
    using ds_fail(2) assms(3) by (auto simp: fail_job_def set_worker_def split: worker.splits)
  then show ?thesis using held_set_worker [of t s k Idle] by (simp add: worker_job_def)
next
  case ds_wake
  then show ?thesis using paused_keeper(1) [OF assms(3)] held_other [of t s] by simp
next
  case (ds_tidy now ids)
  then show ?thesis using paused_keeper(2) [OF assms(3)] held_other [of t s] by simp
next
  case ds_tidy_fails
  then show ?thesis using paused_keeper(3) [OF assms(3)] held_other [of t s] by simp
next
  case (ds_cancel_keeper runs now ids)
  then show ?thesis using paused_keeper(4) [OF assms(3)] held_other [of t s] by simp
next
  case (ds_store ev d)
  then show ?thesis using assms(2,3) paused_store [OF ds_store(3,2)]
    by (auto simp: resumes_def held_jobs_def split: store_event.splits)
qed (use assms(3) in \<open>simp_all add: held_jobs_def\<close>)

text \<open>
  C23: The operator's pause stops new attempts at once.  From the moment \<open>pause\<close> has returned, and
  as long as nobody resumes delivery, no worker starts an attempt, whatever else happens: at every
  later point the messages being handled are among those that were being handled before.
\<close>

theorem pause_stops_new_attempts:
  assumes "run (dispatch_step cfg) (pause True s) xs" and "list_all (\<lambda>(e, t). \<not> resumes e) xs"
  shows "set (held_jobs (final (pause True s) xs)) \<subseteq> set (held_jobs s)"
proof -
  have p: "paused_db (dp_db (pause True s))" by (simp add: pause_def paused_db_def set_setting_def)
  have "set (held_jobs (final t xs)) \<subseteq> set (held_jobs t)"
    if "run (dispatch_step cfg) t xs" "paused_db (dp_db t)" for t
    using that assms(2)
  proof (induction xs arbitrary: t)
    case (Cons x xs)
    obtain e u where x: "x = (e, u)" by force
    have "paused_db (dp_db u) \<and> set (held_jobs u) \<subseteq> set (held_jobs t)"
      using paused_step [of cfg e t u] Cons.prems x by auto
    moreover have "set (held_jobs (final u xs)) \<subseteq> set (held_jobs u)"
      using Cons.IH [of u] Cons.prems x calculation by auto
    ultimately show ?case using x by auto
  qed simp
  from this [OF assms(1) p] show ?thesis by (simp add: pause_def held_jobs_def)
qed

theorem pause_stops_new_attempts_witness:
  "set (held_jobs (final (pause True demo_permitted)
      [(DTake 0 1, set_worker 0 Idle (pause True demo_permitted))])) \<subseteq> set (held_jobs demo_permitted)"
proof (rule pause_stops_new_attempts [where cfg = demo_cfg])
  have "worker_at 0 demo_permitted = Permitted" by code_simp
  then have "take_job demo_cfg 0 1 (pause True demo_permitted)
      = Some (set_worker 0 Idle (pause True demo_permitted))"
    using paused_claim [of "dp_db (pause True demo_permitted)" demo_cfg 1]
    by (auto simp: take_job_def pause_def worker_at_def paused_db_def set_setting_def set_worker_def)
  then show "run (dispatch_step demo_cfg) (pause True demo_permitted)
      [(DTake 0 1, set_worker 0 Idle (pause True demo_permitted))]"
    using ds_take by simp
qed (simp add: resumes_def)

section \<open>An unhealthy queue\<close>

text \<open>
   Marking the queue unhealthy does not stop a worker that is already waiting for its slot: the
  check is made before the wait and not repeated after it, and the claim does not look at it.  So
  with a message due, no pause and no cooldown, that worker still claims the message and sends it.
\<close>

theorem unhealthy_queue_still_sends:
  assumes "\<not> dp_healthy s" and "worker_at k s = AwaitPermit"
    and "\<not> dp_stopping s" and "\<not> dp_paused s" and "\<not> in_cooldown now s"
    and "\<not> py_lt (Fin clock) (dp_next_permit s)"
    and "claim cfg now (dp_db s) = Inr (d, Some r)"
  shows "\<exists>t u. permit k clock now s = Some t \<and> take_job cfg k now t = Some u
     \<and> worker_at k u = Attempting r \<and> \<not> dp_healthy u"
proof -
  have k: "k < length (dp_workers s)" using assms(2) by (auto simp: worker_at_def split: if_splits)
  let ?t = "set_worker k Permitted
     (s\<lparr>dp_next_permit := py_add (Fin clock) (permit_gap (dp_rate s))\<rparr>)"
  have "permit k clock now s = Some ?t" using assms(2-6) by (simp add: permit_def)
  moreover have "take_job cfg k now ?t = Some (set_worker k (Attempting r) (?t\<lparr>dp_db := d\<rparr>))"
    using k assms(7) by (simp add: take_job_def worker_at_def set_worker_def)
  ultimately show ?thesis using k assms(1) by (auto simp: worker_at_def set_worker_def)
qed

theorem unhealthy_queue_still_sends_witness:
  "\<exists>u r. take_job demo_cfg 0 1 (the (permit 0 1 1 (demo_awaiting\<lparr>dp_healthy := False\<rparr>))) = Some u
     \<and> worker_at 0 u = Attempting r \<and> \<not> dp_healthy u"
proof -
  let ?s = "demo_awaiting\<lparr>dp_healthy := False\<rparr>"
  have h: "\<not> dp_healthy ?s" "worker_at 0 ?s = AwaitPermit" "\<not> dp_stopping ?s" "\<not> dp_paused ?s"
    "\<not> in_cooldown 1 ?s" "\<not> py_lt (Fin 1) (dp_next_permit ?s)" "dp_db ?s = demo_stored"
    by code_simp+
  have "claim demo_cfg 1 (dp_db ?s) = Inr (demo_claimed, Some ((new_row 0 demo_pm)\<lparr>attempts := 1\<rparr>))"
    using demo_claimed_eq h(7) by simp
  from unhealthy_queue_still_sends [OF h(1-6) this] show ?thesis by auto
qed

end
