(* ===== verification/Gw_Net.thy ===== *)
theory Gw_Net
  imports Gw_Prelude "HOL-Library.Word"
begin

text \<open>
  \<open>smtp.py\<close>, the client allowlist: IP addresses and networks at their width, and \<open>allowed\<close>.
  Reading the text of an address or network is Python's \<open>ipaddress\<close> module, a parameter.
\<close>

unbundle bit_operations_syntax

datatype ip = V4 "32 word" | V6 "128 word"

text \<open>A network: its address, whose host bits are zero, and its prefix length.\<close>

datatype network = Net4 "32 word" nat | Net6 "128 word" nat

text \<open>The netmask of a prefix length: \<open>n\<close> ones, then zeros.\<close>

definition netmask :: "nat \<Rightarrow> 'a::len word" where
  "netmask n = NOT (mask (LENGTH('a) - n))"

text \<open>\<open>address in network\<close>\<close>

fun in_network :: "ip \<Rightarrow> network \<Rightarrow> bool" where
  "in_network (V4 a) (Net4 net n) = (a AND netmask n = net)"
| "in_network (V6 a) (Net6 net n) = (a AND netmask n = net)"
| "in_network _ _ = False"

text \<open>\<open>ipv4_mapped\<close>: the low 32 bits of an address in \<open>::ffff:0:0/96\<close>.\<close>

definition ipv4_mapped :: "128 word \<Rightarrow> 32 word option" where
  "ipv4_mapped a = (if drop_bit 32 a = 0xFFFF then Some (ucast a) else None)"

definition unmap :: "ip \<Rightarrow> ip" where
  "unmap x = (case x of V4 a \<Rightarrow> V4 a
     | V6 a \<Rightarrow> (case ipv4_mapped a of None \<Rightarrow> V6 a | Some b \<Rightarrow> V4 b))"

text \<open>\<open>parse\<close> is \<open>ipaddress.ip_address\<close>; \<open>None\<close> stands for its \<open>ValueError\<close>.\<close>

definition allowed :: "(string \<Rightarrow> ip option) \<Rightarrow> network list \<Rightarrow> string \<Rightarrow> bool" where
  "allowed parse networks host =
     (case parse host of None \<Rightarrow> False | Some x \<Rightarrow> list_ex (in_network (unmap x)) networks)"

section \<open>Prefixes\<close>

definition prefix_bits :: "nat \<Rightarrow> 'a::len word \<Rightarrow> bool list" where
  "prefix_bits n a = map (\<lambda>k. bit a (LENGTH('a) - Suc k)) [0..<n]"

lemma bit_netmask:
  "n \<le> LENGTH('a::len) \<Longrightarrow> bit (netmask n :: 'a word) k \<longleftrightarrow> LENGTH('a) - n \<le> k \<and> k < LENGTH('a)"
  by (auto simp: netmask_def bit_not_iff bit_mask_iff not_less)

text \<open>A network contains exactly the addresses that start with its first \<open>n\<close> bits.\<close>

lemma prefix_bits_eq:
  fixes a b :: "'a::len word"
  assumes "n \<le> LENGTH('a)"
  shows "prefix_bits n a = prefix_bits n b \<longleftrightarrow>
     (\<forall>k. LENGTH('a) - n \<le> k \<and> k < LENGTH('a) \<longrightarrow> bit a k = bit b k)"
proof
  assume p: "prefix_bits n a = prefix_bits n b"
  show "\<forall>k. LENGTH('a) - n \<le> k \<and> k < LENGTH('a) \<longrightarrow> bit a k = bit b k"
  proof (intro allI impI)
    fix k assume k: "LENGTH('a) - n \<le> k \<and> k < LENGTH('a)"
    define j where "j = LENGTH('a) - Suc k"
    have j: "j < n" "LENGTH('a) - Suc j = k" using k assms by (auto simp: j_def)
    have "prefix_bits n a ! j = bit a k" "prefix_bits n b ! j = bit b k"
      using j by (simp_all add: prefix_bits_def)
    then show "bit a k = bit b k" using p by simp
  qed
next
  assume "\<forall>k. LENGTH('a) - n \<le> k \<and> k < LENGTH('a) \<longrightarrow> bit a k = bit b k"
  then show "prefix_bits n a = prefix_bits n b"
    using assms unfolding prefix_bits_def by (intro map_cong refl) simp
qed

lemma in_prefix:
  fixes a net :: "'a::len word"
  assumes n: "n \<le> LENGTH('a)" and host: "net AND netmask n = net"
  shows "a AND netmask n = net \<longleftrightarrow> prefix_bits n a = prefix_bits n net"
proof -
  have net: "bit net k \<longleftrightarrow> bit net k \<and> LENGTH('a) - n \<le> k \<and> k < LENGTH('a)" for k
    by (subst (1) host [symmetric]) (simp add: bit_and_iff bit_netmask [OF n])
  have "a AND netmask n = net \<longleftrightarrow> (\<forall>k. (bit a k \<and> LENGTH('a) - n \<le> k \<and> k < LENGTH('a)) = bit net k)"
    by (auto simp: bit_eq_iff bit_and_iff bit_netmask [OF n] dest: bit_imp_le_length)
  also have "\<dots> \<longleftrightarrow> prefix_bits n a = prefix_bits n net"
    unfolding prefix_bits_eq [OF n] using net by blast
  finally show ?thesis .
qed

lemma low_high_bits:
  fixes a :: "32 word" and x :: "128 word"
  assumes "take_bit 96 x = x"
  shows "drop_bit 32 (push_bit 32 x OR ucast a) = x" "ucast (push_bit 32 x OR ucast a) = a"
proof -
  have lim: "bit x n \<Longrightarrow> n < 96" for n using assms by (metis bit_take_bit_iff)
  show "drop_bit 32 (push_bit 32 x OR ucast a) = x"
    by (rule bit_eqI)
      (auto simp: bit_drop_bit_eq bit_or_iff bit_push_bit_iff bit_ucast_iff dest: lim bit_imp_le_length)
  show "ucast (push_bit 32 x OR ucast a) = a"
    by (rule bit_eqI)
      (auto simp: bit_ucast_iff bit_or_iff bit_push_bit_iff dest: bit_imp_le_length)
qed

lemma unmap_mapped: "unmap (V6 (push_bit 32 0xFFFF OR ucast (a :: 32 word))) = V4 a"
proof -
  have "take_bit 96 (0xFFFF :: 128 word) = 0xFFFF" by simp
  from low_high_bits [OF this, of a] show ?thesis
    by (simp only: unmap_def ipv4_mapped_def ip.case option.case if_True refl)
qed

end
