(* ===== verification/Gw_Smtp.thy ===== *)
theory Gw_Smtp
  imports Gw_Net Gw_Message
begin

text \<open>
  \<open>smtp.py\<close>: the ESMTP listener.  One command line takes a session to its next state with the
  replies it sends (\<open>command_line\<close>); the DATA phase reads lines into a buffer that is accounted
  for the whole server (\<open>data_line\<close>), and ends in a verdict on the message (\<open>data_reply\<close>).
\<close>

section \<open>Sessions\<close>

record session =
  ss_greeted :: bool
  ss_extended :: bool
  ss_sender :: "string option"
  ss_recipients :: "string list"
  ss_count :: nat

definition new_session :: session where
  "new_session = \<lparr>ss_greeted = False, ss_extended = False, ss_sender = None, ss_recipients = [],
     ss_count = 0\<rparr>"

text \<open>What a command leads to: go on, read a message, or close the connection.\<close>

datatype step = Proceed session string | ReadData session string | Hangup string

section \<open>Splitting a command\<close>

definition partition_char :: "char \<Rightarrow> string \<Rightarrow> string \<times> bool \<times> string" where
  "partition_char c s = partition_at [c] s"

text \<open>\<open>s.split()\<close>\<close>

fun words_of :: "string \<Rightarrow> string \<Rightarrow> string list" where
  "words_of acc [] = (if acc = [] then [] else [rev acc])"
| "words_of acc (c # cs) =
     (if is_space c then (if acc = [] then words_of [] cs else rev acc # words_of [] cs)
      else words_of (c # acc) cs)"

text \<open>
  \<open>re.fullmatch(KEY + r"\s*<([^<>]*)>(?:\s+(.+))?", argument, re.IGNORECASE)\<close>: the address and the
  options.  No part can match in two ways: white space is no bracket, the address has none, and
  the argument is stripped, so that the options begin where the white space ends.
\<close>

definition path_of :: "string \<Rightarrow> string \<Rightarrow> (string \<times> string) option" where
  "path_of key argument =
     (if casefold (take (length key) argument) \<noteq> casefold key then None
      else case lstrip (drop (length key) argument) of
          [] \<Rightarrow> None
        | c # cs \<Rightarrow>
            if c \<noteq> CHR ''<'' then None
            else (let addr = takeWhile (\<lambda>x. x \<noteq> CHR ''<'' \<and> x \<noteq> CHR ''>'') cs;
                      rest = dropWhile (\<lambda>x. x \<noteq> CHR ''<'' \<and> x \<noteq> CHR ''>'') cs
                  in case rest of
                       [] \<Rightarrow> None
                     | d # ds \<Rightarrow>
                         if d \<noteq> CHR ''>'' then None
                         else if ds = [] then Some (addr, [])
                         else if is_space (hd ds) \<and> lstrip ds \<noteq> [] then Some (addr, lstrip ds)
                         else None))"

section \<open>MAIL parameters\<close>

definition digits_number :: "string \<Rightarrow> int" where
  "digits_number s = foldl (\<lambda>n c. 10 * n + int (code c - 48)) 0 s"

text \<open>The loop over the options: the declared size.\<close>

fun mail_options :: "bool \<Rightarrow> string list \<Rightarrow> int \<Rightarrow> string list \<Rightarrow> int res" where
  "mail_options extended seen declared [] = Inr declared"
| "mail_options extended seen declared (o1 # os) =
     (let (name, sep, value) = partition_char CHR ''='' (upper o1) in
      if \<not> extended \<or> \<not> sep \<or> name \<in> set seen \<or> name \<notin> {''SIZE'', ''BODY''}
      then Inl (MessageRejected ''Unsupported or duplicate MAIL parameter'')
      else if name = ''SIZE'' then
        (if value = [] \<or> \<not> list_all is_digit value then Inl (MessageRejected ''Invalid SIZE'')
         else mail_options extended (name # seen) (digits_number value) os)
      else if value \<notin> {''7BIT'', ''8BITMIME''}
      then Inl (MessageRejected ''Unsupported BODY encoding'')
      else mail_options extended (name # seen) declared os)"

definition error_text :: "exn \<Rightarrow> string" where
  "error_text e = (case e of MessageRejected t \<Rightarrow> t | _ \<Rightarrow> [])"

section \<open>The commands\<close>

definition mail_command ::
  "email_lib \<Rightarrow> config \<Rightarrow> bool \<Rightarrow> string \<Rightarrow> session \<Rightarrow> step" where
  "mail_command lib cfg available argument s =
     (if \<not> ss_greeted s \<or> ss_sender s \<noteq> None
      then Proceed s ''503 5.5.1 Send EHLO/HELO, and RSET before a new transaction''
      else case path_of ''FROM:'' argument of
          None \<Rightarrow> Proceed s ''501 5.5.2 Expected MAIL FROM:<address>''
        | Some (addr, opts) \<Rightarrow>
            (case bind_res (mailbox lib addr True)
                    (\<lambda>a. bind_res (mail_options (ss_extended s) [] 0 (words_of [] opts))
                    (\<lambda>sz. Inr (a, sz))) of
               Inl e \<Rightarrow> Proceed s (''555 5.5.4 '' @ error_text e)
             | Inr (a, sz) \<Rightarrow>
                 if sz > smtp_max_message_bytes (cfg_smtp cfg)
                 then Proceed s ''552 5.3.4 Declared message size exceeds limit''
                 else if \<not> available then Proceed s ''451 4.3.0 Queue is unavailable''
                 else Proceed (s\<lparr>ss_sender := Some a, ss_recipients := []\<rparr>)
                        ''250 2.1.0 Sender accepted; message From will be validated''))"

definition rcpt_command :: "email_lib \<Rightarrow> config \<Rightarrow> string \<Rightarrow> session \<Rightarrow> step" where
  "rcpt_command lib cfg argument s =
     (if ss_sender s = None then Proceed s ''503 5.5.1 MAIL FROM is required first''
      else case path_of ''TO:'' argument of
          Some (c # cs, []) \<Rightarrow>
            (case mailbox lib (c # cs) False of
               Inl e \<Rightarrow> Proceed s ''501 5.1.3 Invalid recipient mailbox''
             | Inr r \<Rightarrow>
                 if int (length (ss_recipients s)) \<ge> smtp_max_recipients (cfg_smtp cfg)
                 then Proceed s ''452 4.5.3 Too many recipients''
                 else
                   let domains = acc_allowed_recipient_domains (cfg_account cfg);
                       accept = Proceed (if casefold r \<in> set (map casefold (ss_recipients s)) then s
                                  else s\<lparr>ss_recipients := ss_recipients s @ [r]\<rparr>)
                                ''250 2.1.5 Recipient accepted''
                   in if domains = [] then accept
                      else case rsplit_at r of
                          None \<Rightarrow> Hangup []
                        | Some d \<Rightarrow>
                            if casefold d \<notin> set (map casefold domains)
                            then Proceed s ''550 5.7.1 Recipient domain is not allowed''
                            else accept)
        | _ \<Rightarrow> Proceed s
            ''501 5.5.2 Expected RCPT TO:<address> without extension parameters'')"

definition data_command :: "string \<Rightarrow> session \<Rightarrow> step" where
  "data_command argument s =
     (if argument \<noteq> [] \<or> ss_sender s = None \<or> ss_recipients s = []
      then Proceed s ''503 5.5.1 MAIL and RCPT must precede DATA, without arguments''
      else ReadData s ''354 Send message; end with <CRLF>.<CRLF>'')"

text \<open>\<open>str\<close> of a positive integer.\<close>

function dec_text :: "int \<Rightarrow> string" where
  "dec_text n = (if n < 10 then [char_of (48 + n)] else dec_text (n div 10) @ [char_of (48 + n mod 10)])"
  by auto
termination by (relation "measure nat") auto

definition greet_command :: "config \<Rightarrow> bool \<Rightarrow> string \<Rightarrow> session \<Rightarrow> step" where
  "greet_command cfg ehlo argument s =
     (if argument = [] then Proceed s ''501 5.5.2 Greeting domain required''
      else
        let host = smtp_hostname (cfg_smtp cfg);
            s1 = s\<lparr>ss_greeted := True, ss_extended := ehlo, ss_sender := None, ss_recipients := []\<rparr>
        in Proceed s1
          (if ehlo then ''250-'' @ host @ [CR, LF] @ ''250-SIZE '' @
              dec_text (smtp_max_message_bytes (cfg_smtp cfg)) @ [CR, LF] @ ''250 8BITMIME''
           else ''250 '' @ host))"

definition dispatch_command ::
  "email_lib \<Rightarrow> config \<Rightarrow> bool \<Rightarrow> string \<Rightarrow> string \<Rightarrow> session \<Rightarrow> step" where
  "dispatch_command lib cfg available command argument s =
     (if command = ''QUIT'' then Hangup ''221 2.0.0 Closing connection''
      else if command = ''EHLO'' \<or> command = ''HELO''
      then greet_command cfg (command = ''EHLO'') argument s
      else if command = ''AUTH''
      then Proceed s ''502 5.5.1 AUTH is not supported; this listener uses a client-network allowlist''
      else if command = ''NOOP'' then Proceed s ''250 2.0.0 OK''
      else if command = ''RSET''
      then Proceed (s\<lparr>ss_sender := None, ss_recipients := []\<rparr>) ''250 2.0.0 Reset''
      else if command = ''VRFY'' then Proceed s ''252 2.5.2 Cannot verify user''
      else if command = ''MAIL'' then mail_command lib cfg available argument s
      else if command = ''RCPT'' then rcpt_command lib cfg argument s
      else if command = ''DATA'' then data_command argument s
      else Proceed s ''502 5.5.1 Command not implemented'')"

definition ends_crlf :: "bytes \<Rightarrow> bool" where
  "ends_crlf line = ends_with [CR, LF] line"

definition command_line ::
  "email_lib \<Rightarrow> config \<Rightarrow> bool \<Rightarrow> bytes \<Rightarrow> session \<Rightarrow> step" where
  "command_line lib cfg available line s =
     (if int (length line) > 512 \<or> \<not> ends_crlf line \<or> CHR 0x00 \<in> set line
      then Hangup ''500 5.5.2 Invalid command framing or length''
      else if list_ex non_ascii line then Hangup ''500 5.5.2 SMTP commands must be ASCII''
      else
        let text = take (length line - 2) line;
            (command, sep, argument) = partition_char CHR '' '' text;
            s1 = s\<lparr>ss_count := ss_count s + 1\<rparr>
        in if int (ss_count s1) > 100000 then Hangup ''421 4.7.0 Please reconnect''
           else dispatch_command lib cfg available (upper command) (strip argument) s1)"

section \<open>The DATA phase\<close>

text \<open>The octets kept so far, how many of them are accounted, and the failure to report.\<close>

record data_state =
  ds_content :: bytes
  ds_retained :: int
  ds_failure :: string

definition data_start :: data_state where
  "data_start = \<lparr>ds_content = [], ds_retained = 0, ds_failure = []\<rparr>"

definition data_end :: bytes where
  "data_end = [CHR ''.'', CR, LF]"

definition bad_line :: "bytes \<Rightarrow> bool" where
  "bad_line line = (\<not> ends_crlf line \<or> int (length line) > 1001 \<or>
     CR \<in> set (take (length line - 2) line) \<or> LF \<in> set (take (length line - 2) line))"

definition unstuff :: "bytes \<Rightarrow> bytes" where
  "unstuff line = (case line of c # cs \<Rightarrow> if c = CHR ''.'' then cs else line | [] \<Rightarrow> [])"

text \<open>One line that does not end the message; \<open>buffered\<close> is the total of the server.\<close>

definition data_line :: "smtp_config \<Rightarrow> bytes \<Rightarrow> int \<times> data_state \<Rightarrow> int \<times> data_state" where
  "data_line cfg line p =
     (let (buffered, s) = p;
          f1 = (if bad_line line
                then ''554 5.6.0 DATA requires CRLF and lines of at most 1000 octets''
                else ds_failure s);
          l = unstuff line;
          f2 = (if int (length l) > 1000 then ''554 5.6.0 DATA line is too long'' else f1);
          n = int (length l)
      in if f2 \<noteq> [] then (buffered, s\<lparr>ds_failure := f2\<rparr>)
         else if int (length (ds_content s)) + n > smtp_max_message_bytes cfg
         then (buffered, s\<lparr>ds_failure := ''552 5.3.4 Message too large''\<rparr>)
         else if buffered + n > smtp_max_buffer_bytes cfg
         then (buffered, s\<lparr>ds_failure := ''452 4.3.1 Message-buffer capacity exceeded''\<rparr>)
         else (buffered + n, s\<lparr>ds_content := ds_content s @ l, ds_retained := ds_retained s + n\<rparr>))"

text \<open>The end of the phase, on every path: the accounted octets are given back.\<close>

definition data_release :: "int \<times> data_state \<Rightarrow> int" where
  "data_release p = fst p - ds_retained (snd p)"

text \<open>
  The whole phase on its own: the lines up to the end mark.  \<open>None\<close>: the client went away before
  it (the empty line the reader returns at the end of the stream).
\<close>

fun data_phase :: "smtp_config \<Rightarrow> bytes list \<Rightarrow> int \<times> data_state \<Rightarrow> (int \<times> data_state) option" where
  "data_phase cfg [] p = None"
| "data_phase cfg (l # ls) p =
     (if l = [] then None else if l = data_end then Some p
      else data_phase cfg ls (data_line cfg l p))"

section \<open>The verdict on a message\<close>

text \<open>Whether \<open>store.submit\<close> returned, or raised \<open>QueueUnavailable\<close>.\<close>

definition queue_reply :: "string \<Rightarrow> bool \<Rightarrow> string" where
  "queue_reply identifier queued =
     (if queued then ''250 2.0.0 Durably queued as '' @ identifier
      else ''451 4.3.0 Unable to durably queue message; retry later'')"

text \<open>The message to submit, or the reply that refuses it.\<close>

definition data_message :: "email_lib \<Rightarrow> config \<Rightarrow> string \<Rightarrow> string \<Rightarrow> string \<Rightarrow> string list
    \<Rightarrow> data_state \<Rightarrow> string + prepared_message" where
  "data_message lib cfg extra identifier sender recipients s =
     (if ds_failure s \<noteq> [] then Inl (ds_failure s)
      else case prepare_message lib (ds_content s) recipients sender identifier cfg extra of
          Inl e \<Rightarrow> Inl ''554 5.7.1 Invalid message headers, sender, or effective recipients; see gateway policy''
        | Inr m \<Rightarrow> Inr m)"

text \<open>After the phase the transaction is over.\<close>

definition after_data :: "session \<Rightarrow> session" where
  "after_data s = s\<lparr>ss_sender := None, ss_recipients := []\<rparr>"

end
