(* ===== verification/Gw_Listener.thy ===== *)
theory Gw_Listener
  imports Gw_Smtp "HOL-Library.AList"
begin

text \<open>
  \<open>smtp.py\<close>, the server: its connections, the buffer they share, and the counters.  Every place
  where \<open>_connection\<close> or \<open>_data\<close> awaits the client or the store is an event, so that a list of
  events is one interleaving of all connections; \<open>serve\<close> handles one.
\<close>

section \<open>State\<close>

text \<open>
  Where a connection stands: at a command line, in the DATA phase, or waiting for
  \<open>store.submit\<close>.
\<close>

datatype phase =
    Commands
  | Reading data_state
  | Submitting data_state string string prepared_message

record connection =
  co_peer :: string
  co_session :: session
  co_phase :: phase

type_synonym connections = "(nat \<times> connection) list"

record listener =
  sv_closing :: bool
  sv_connections :: connections
  sv_buffered :: int
  sv_denied :: nat
  sv_admitted :: nat
  sv_rejected :: nat
  sv_deferred :: nat
  sv_accepted :: nat

definition listener_start :: listener where
  "listener_start = \<lparr>sv_closing = False, sv_connections = [], sv_buffered = 0, sv_denied = 0,
     sv_admitted = 0, sv_rejected = 0, sv_deferred = 0, sv_accepted = 0\<rparr>"

text \<open>
  The events: a client connects (with its address, if the transport has one), a line arrives
  (an empty one at the end of the stream, with whether the store is healthy and accepting, the
  additional sender and the fresh UUID), \<open>submit\<close> returns or raises \<open>QueueUnavailable\<close>, the
  connection fails, is cancelled or times out, and \<open>close\<close>.
\<close>

datatype event =
    Connect nat "string option"
  | Line nat bool string string bytes
  | Submitted nat bool
  | Lost nat
  | Expired nat
  | Shutdown

section \<open>One event\<close>

text \<open>What the \<open>finally\<close> clauses give back when a connection ends.\<close>

definition octets_held :: "phase \<Rightarrow> int" where
  "octets_held p = (case p of Commands \<Rightarrow> 0 | Reading d \<Rightarrow> ds_retained d
     | Submitting d identifier extra m \<Rightarrow> ds_retained d)"

definition drop_connection :: "nat \<Rightarrow> listener \<Rightarrow> listener" where
  "drop_connection i sv = (case map_of (sv_connections sv) i of
      None \<Rightarrow> sv
    | Some c \<Rightarrow> sv\<lparr>sv_connections := AList.delete i (sv_connections sv),
                  sv_buffered := sv_buffered sv - octets_held (co_phase c)\<rparr>)"

definition set_connection :: "nat \<Rightarrow> connection \<Rightarrow> listener \<Rightarrow> listener" where
  "set_connection i c sv = sv\<lparr>sv_connections := AList.update i c (sv_connections sv)\<rparr>"

definition admit_connection :: "config \<Rightarrow> (string \<Rightarrow> ip option) \<Rightarrow> network list \<Rightarrow> nat
    \<Rightarrow> string option \<Rightarrow> listener \<Rightarrow> listener \<times> string" where
  "admit_connection cfg parse networks i peer sv =
     (case peer of
        None \<Rightarrow> (sv\<lparr>sv_denied := Suc (sv_denied sv)\<rparr>, ''554 5.7.1 Client network is not allowed'')
      | Some host \<Rightarrow>
          if \<not> allowed parse networks host
          then (sv\<lparr>sv_denied := Suc (sv_denied sv)\<rparr>, ''554 5.7.1 Client network is not allowed'')
          else if sv_closing sv \<or>
            int (length (sv_connections sv)) \<ge> smtp_max_connections (cfg_smtp cfg)
          then (sv, ''421 4.3.2 Connection capacity exceeded'')
          else (set_connection i \<lparr>co_peer = host, co_session = new_session, co_phase = Commands\<rparr>
                 (sv\<lparr>sv_admitted := Suc (sv_admitted sv)\<rparr>),
                ''220 '' @ smtp_hostname (cfg_smtp cfg) @ '' ESMTP noreply-gateway''))"

text \<open>A line of a connection that is at a command.\<close>

definition serve_command ::
  "email_lib \<Rightarrow> config \<Rightarrow> nat \<Rightarrow> bool \<Rightarrow> bytes \<Rightarrow> connection \<Rightarrow> listener \<Rightarrow> listener \<times> string" where
  "serve_command lib cfg i available line c sv =
     (if line = [] then (drop_connection i sv, [])
      else case command_line lib cfg available line (co_session c) of
          Proceed s t \<Rightarrow> (set_connection i (c\<lparr>co_session := s\<rparr>) sv, t)
        | ReadData s t \<Rightarrow>
            (set_connection i (c\<lparr>co_session := s, co_phase := Reading data_start\<rparr>) sv, t)
        | Hangup t \<Rightarrow> (drop_connection i sv, t))"

text \<open>The end of \<open>_data\<close>: the accounted octets go back, and the transaction is over.\<close>

definition end_data :: "nat \<Rightarrow> connection \<Rightarrow> data_state \<Rightarrow> listener \<Rightarrow> listener" where
  "end_data i c d sv =
     set_connection i (c\<lparr>co_session := after_data (co_session c), co_phase := Commands\<rparr>)
       (sv\<lparr>sv_buffered := data_release (sv_buffered sv, d)\<rparr>)"

text \<open>A line of a message; at its end mark, the verdict or the submission.\<close>

definition serve_data ::
  "email_lib \<Rightarrow> config \<Rightarrow> nat \<Rightarrow> string \<Rightarrow> string \<Rightarrow> bytes \<Rightarrow> connection \<Rightarrow> data_state
     \<Rightarrow> listener \<Rightarrow> listener \<times> string" where
  "serve_data lib cfg i extra identifier line c d sv =
     (if line = [] then (drop_connection i sv, [])
      else if line = data_end then
        (case data_message lib cfg extra identifier (the (ss_sender (co_session c)))
                (ss_recipients (co_session c)) d of
           Inl t \<Rightarrow> (end_data i c d (sv\<lparr>sv_rejected := Suc (sv_rejected sv)\<rparr>), t)
         | Inr m \<Rightarrow> (set_connection i (c\<lparr>co_phase := Submitting d identifier extra m\<rparr>) sv, []))
      else
        (let (b, d1) = data_line (cfg_smtp cfg) line (sv_buffered sv, d)
         in (set_connection i (c\<lparr>co_phase := Reading d1\<rparr>) (sv\<lparr>sv_buffered := b\<rparr>), [])))"

definition serve_submitted :: "nat \<Rightarrow> bool \<Rightarrow> connection \<Rightarrow> listener \<Rightarrow> listener \<times> string" where
  "serve_submitted i queued c sv =
     (case co_phase c of
        Submitting d identifier extra m \<Rightarrow>
          (end_data i c d
             (if queued then sv\<lparr>sv_accepted := Suc (sv_accepted sv)\<rparr>
              else sv\<lparr>sv_deferred := Suc (sv_deferred sv)\<rparr>),
           queue_reply identifier queued)
      | _ \<Rightarrow> (sv, []))"

fun serve :: "email_lib \<Rightarrow> config \<Rightarrow> (string \<Rightarrow> ip option) \<Rightarrow> network list \<Rightarrow> event \<Rightarrow> listener
    \<Rightarrow> listener \<times> string" where
  "serve lib cfg parse networks (Connect i peer) sv =
     (if map_of (sv_connections sv) i \<noteq> None then (sv, [])
      else admit_connection cfg parse networks i peer sv)"
| "serve lib cfg parse networks (Line i available extra identifier line) sv =
     (case map_of (sv_connections sv) i of
        None \<Rightarrow> (sv, [])
      | Some c \<Rightarrow> (case co_phase c of
            Commands \<Rightarrow> serve_command lib cfg i available line c sv
          | Reading d \<Rightarrow> serve_data lib cfg i extra identifier line c d sv
          | Submitting d u e m \<Rightarrow> (sv, [])))"
| "serve lib cfg parse networks (Submitted i queued) sv =
     (case map_of (sv_connections sv) i of
        None \<Rightarrow> (sv, []) | Some c \<Rightarrow> serve_submitted i queued c sv)"
| "serve lib cfg parse networks (Lost i) sv = (drop_connection i sv, [])"
| "serve lib cfg parse networks (Expired i) sv =
     (if map_of (sv_connections sv) i = None then (sv, [])
      else (drop_connection i sv, ''421 4.4.2 Timeout or line length exceeded''))"
| "serve lib cfg parse networks Shutdown sv = (sv\<lparr>sv_closing := True\<rparr>, [])"

fun serve_all :: "email_lib \<Rightarrow> config \<Rightarrow> (string \<Rightarrow> ip option) \<Rightarrow> network list \<Rightarrow> event list
    \<Rightarrow> listener \<Rightarrow> listener \<times> string list" where
  "serve_all lib cfg parse networks [] sv = (sv, [])"
| "serve_all lib cfg parse networks (e # es) sv =
     (let (sv1, t) = serve lib cfg parse networks e sv;
          (sv2, ts) = serve_all lib cfg parse networks es sv1
      in (sv2, t # ts))"

text \<open>
  \<open>close\<close>: no connection is taken any more; for five seconds the others go on (\<open>es\<close>), and then those
  that are left are cancelled.
\<close>

definition cancel_all :: "listener \<Rightarrow> listener" where
  "cancel_all sv = fold drop_connection (map fst (sv_connections sv)) sv"

definition close_listener :: "email_lib \<Rightarrow> config \<Rightarrow> (string \<Rightarrow> ip option) \<Rightarrow> network list \<Rightarrow> event list
    \<Rightarrow> listener \<Rightarrow> listener" where
  "close_listener lib cfg parse networks es sv = cancel_all (fst (serve_all lib cfg parse networks (Shutdown # es) sv))"

end
