(* ===== verification/Gw_Listener_Inv.thy ===== *)
theory Gw_Listener_Inv
  imports Gw_Listener
begin

text \<open>
  The invariants of the SMTP listener: what a session may hold, what a connection may buffer, and
  the accounting of the shared buffer.  Every event preserves them.
\<close>

section \<open>Sums over an association list\<close>

definition weigh :: "('b \<Rightarrow> int) \<Rightarrow> ('a \<times> 'b) list \<Rightarrow> int" where
  "weigh f al = sum_list (map (\<lambda>p. f (snd p)) al)"

definition weight_at :: "('b \<Rightarrow> int) \<Rightarrow> ('a \<times> 'b) list \<Rightarrow> 'a \<Rightarrow> int" where
  "weight_at f al k = (case map_of al k of None \<Rightarrow> 0 | Some v \<Rightarrow> f v)"

lemma weigh_update: "weigh f (AList.update k v al) = weigh f al - weight_at f al k + f v"
  by (induction al) (auto simp: weigh_def weight_at_def)

lemma delete_absent: "k \<notin> fst ` set al \<Longrightarrow> AList.delete k al = al"
  by (induction al) auto

lemma weigh_delete:
  "distinct (map fst al) \<Longrightarrow> weigh f (AList.delete k al) = weigh f al - weight_at f al k"
  by (induction al) (auto simp: weigh_def weight_at_def delete_absent)

lemma weigh_nonneg: "(\<And>k v. (k, v) \<in> set al \<Longrightarrow> 0 \<le> f v) \<Longrightarrow> 0 \<le> weigh f al"
  by (induction al) (force simp: weigh_def)+

lemma set_delete: "set (AList.delete k al) = {p \<in> set al. fst p \<noteq> k}"
  by (auto simp: AList.delete_eq)

lemma length_delete: "length (AList.delete k al) \<le> length al"
  by (simp add: AList.delete_eq)

lemma distinct_delete: "distinct (map fst al) \<Longrightarrow> distinct (map fst (AList.delete k al))"
  by (induction al) (auto simp: delete_absent AList.delete_eq)

lemma set_update:
  assumes "distinct (map fst al)"
  shows "set (AList.update k v al) = insert (k, v) {p \<in> set al. fst p \<noteq> k}"
proof -
  have "(a, b) \<in> set (AList.update k v al) \<longleftrightarrow> (a, b) = (k, v) \<or> (a, b) \<in> set al \<and> a \<noteq> k" for a b
  proof -
    have "(a, b) \<in> set (AList.update k v al) \<longleftrightarrow> ((map_of al)(k \<mapsto> v)) a = Some b"
      by (simp only: map_of_eq_Some_iff [OF distinct_update [OF assms], symmetric] update_conv')
    then show ?thesis by (cases "a = k") (auto simp: map_of_eq_Some_iff [OF assms])
  qed
  then show ?thesis by (simp add: set_eq_iff split_paired_all)
qed

lemma length_update:
  "length (AList.update k v al) = (if map_of al k = None then Suc (length al) else length al)"
  by (induction al) auto

section \<open>Sessions\<close>

definition domain_allowed :: "config \<Rightarrow> string \<Rightarrow> bool" where
  "domain_allowed cfg r = (acc_allowed_recipient_domains (cfg_account cfg) = [] \<or>
     (\<exists>d. rsplit_at r = Some d \<and>
        casefold d \<in> casefold ` set (acc_allowed_recipient_domains (cfg_account cfg))))"

definition session_ok :: "email_lib \<Rightarrow> config \<Rightarrow> session \<Rightarrow> bool" where
  "session_ok lib cfg s \<longleftrightarrow>
     (case ss_sender s of None \<Rightarrow> ss_recipients s = []
      | Some a \<Rightarrow> ss_greeted s \<and> (\<exists>v. mailbox lib v True = Inr a)) \<and>
     distinct (map casefold (ss_recipients s)) \<and>
     int (length (ss_recipients s)) \<le> max 0 (smtp_max_recipients (cfg_smtp cfg)) \<and>
     (\<forall>r \<in> set (ss_recipients s). domain_allowed cfg r \<and> (\<exists>v. mailbox lib v False = Inr r))"

text \<open>Where a step leads to, and what holds there.\<close>

definition step_ok :: "email_lib \<Rightarrow> config \<Rightarrow> step \<Rightarrow> bool" where
  "step_ok lib cfg st = (case st of
      Proceed s t \<Rightarrow> session_ok lib cfg s
    | ReadData s t \<Rightarrow> session_ok lib cfg s \<and> ss_sender s \<noteq> None \<and> ss_recipients s \<noteq> []
    | Hangup t \<Rightarrow> True)"

lemma step_ok_simps [simp]:
  "step_ok lib cfg (Proceed s t) = session_ok lib cfg s"
  "step_ok lib cfg (ReadData s t) =
     (session_ok lib cfg s \<and> ss_sender s \<noteq> None \<and> ss_recipients s \<noteq> [])"
  "step_ok lib cfg (Hangup t)"
  by (simp_all add: step_ok_def)

lemma session_ok_new [simp]: "session_ok lib cfg new_session"
  by (simp add: session_ok_def new_session_def)

lemma session_ok_reset [simp]:
  "session_ok lib cfg (s\<lparr>ss_sender := None, ss_recipients := []\<rparr>)"
  "session_ok lib cfg (s\<lparr>ss_greeted := g, ss_extended := e, ss_sender := None, ss_recipients := []\<rparr>)"
  "session_ok lib cfg (after_data s)"
  by (simp_all add: session_ok_def after_data_def)

lemma session_ok_count [simp]: "session_ok lib cfg (s\<lparr>ss_count := n\<rparr>) = session_ok lib cfg s"
  by (simp add: session_ok_def split: option.split)

lemma mail_command_ok: "session_ok lib cfg s \<Longrightarrow> step_ok lib cfg (mail_command lib cfg av arg s)"
  by (auto simp: mail_command_def session_ok_def bind_res_Inr split: option.splits sum.splits prod.splits)

lemma rcpt_append_ok:
  assumes s: "session_ok lib cfg s" "ss_sender s \<noteq> None" and r: "mailbox lib v False = Inr r"
    and n: "\<not> smtp_max_recipients (cfg_smtp cfg) \<le> int (length (ss_recipients s))"
    and d: "domain_allowed cfg r" and new: "casefold r \<notin> set (map casefold (ss_recipients s))"
  shows "session_ok lib cfg (s\<lparr>ss_recipients := ss_recipients s @ [r]\<rparr>)"
  using assms by (auto simp: session_ok_def split: option.splits)

lemma rcpt_command_ok:
  assumes "session_ok lib cfg s"
  shows "step_ok lib cfg (rcpt_command lib cfg arg s)"
  using assms unfolding rcpt_command_def
  by (auto simp: Let_def domain_allowed_def rcpt_append_ok
      split: option.splits sum.splits list.splits prod.splits if_splits)

lemma dispatch_command_ok:
  assumes "session_ok lib cfg s"
  shows "step_ok lib cfg (dispatch_command lib cfg av cmd arg s)"
  using mail_command_ok [OF assms] rcpt_command_ok [OF assms] assms
  by (simp add: dispatch_command_def greet_command_def data_command_def Let_def)

lemma command_line_ok:
  "session_ok lib cfg s \<Longrightarrow> step_ok lib cfg (command_line lib cfg av line s)"
  by (simp add: command_line_def Let_def dispatch_command_ok split: prod.splits)

section \<open>The DATA phase\<close>

definition data_ok :: "smtp_config \<Rightarrow> data_state \<Rightarrow> bool" where
  "data_ok cfg d \<longleftrightarrow> ds_retained d = int (length (ds_content d)) \<and>
     int (length (ds_content d)) \<le> max 0 (smtp_max_message_bytes cfg)"

lemma data_ok_start [simp]: "data_ok cfg data_start"
  by (simp add: data_ok_def data_start_def)

lemma data_line_ok:
  assumes "data_ok cfg d" "data_line cfg line (b, d) = (b1, d1)"
  shows "data_ok cfg d1" "b1 - b = ds_retained d1 - ds_retained d" "ds_retained d \<le> ds_retained d1"
    "b1 \<le> max b (smtp_max_buffer_bytes cfg)"
  using assms by (auto simp: data_line_def data_ok_def Let_def split: if_splits)

section \<open>The listener\<close>

definition connection_ok ::
  "email_lib \<Rightarrow> config \<Rightarrow> (string \<Rightarrow> ip option) \<Rightarrow> network list \<Rightarrow> connection \<Rightarrow> bool" where
  "connection_ok lib cfg parse networks c \<longleftrightarrow>
     allowed parse networks (co_peer c) \<and> session_ok lib cfg (co_session c) \<and>
     (co_phase c \<noteq> Commands \<longrightarrow>
        ss_sender (co_session c) \<noteq> None \<and> ss_recipients (co_session c) \<noteq> []) \<and>
     (case co_phase c of Commands \<Rightarrow> True | Reading d \<Rightarrow> data_ok (cfg_smtp cfg) d
      | Submitting d q x m \<Rightarrow> data_ok (cfg_smtp cfg) d \<and> ds_failure d = [] \<and>
          prepare_message lib (ds_content d) (ss_recipients (co_session c))
            (the (ss_sender (co_session c))) q cfg x = Inr m)"

definition listener_ok ::
  "email_lib \<Rightarrow> config \<Rightarrow> (string \<Rightarrow> ip option) \<Rightarrow> network list \<Rightarrow> listener \<Rightarrow> bool" where
  "listener_ok lib cfg parse networks sv \<longleftrightarrow>
     distinct (map fst (sv_connections sv)) \<and>
     int (length (sv_connections sv)) \<le> max 0 (smtp_max_connections (cfg_smtp cfg)) \<and>
     (\<forall>p \<in> set (sv_connections sv). connection_ok lib cfg parse networks (snd p)) \<and>
     sv_buffered sv = weigh (\<lambda>c. octets_held (co_phase c)) (sv_connections sv) \<and>
     sv_buffered sv \<le> max 0 (smtp_max_buffer_bytes (cfg_smtp cfg))"

lemma octets_held_simps [simp]:
  "octets_held Commands = 0" "octets_held (Reading d) = ds_retained d" "octets_held (Submitting d q x m) = ds_retained d"
  by (simp_all add: octets_held_def)

lemma octets_held_nonneg: "connection_ok lib cfg parse networks c \<Longrightarrow> 0 \<le> octets_held (co_phase c)"
  by (auto simp: connection_ok_def data_ok_def split: phase.splits)

lemma listener_okD:
  assumes "listener_ok lib cfg parse networks sv" "map_of (sv_connections sv) i = Some c"
  shows "connection_ok lib cfg parse networks c"
  using assms map_of_SomeD by (fastforce simp: listener_ok_def)

lemma listener_buffered_nonneg: "listener_ok lib cfg parse networks sv \<Longrightarrow> 0 \<le> sv_buffered sv"
  by (auto simp: listener_ok_def intro!: weigh_nonneg octets_held_nonneg)

lemma listener_ok_start [simp]: "listener_ok lib cfg parse networks listener_start"
  by (simp add: listener_ok_def listener_start_def weigh_def)

text \<open>Two updates carry all the cases: a connection replaced, and a connection dropped.\<close>

lemma set_connection_ok:
  assumes ok: "listener_ok lib cfg parse networks sv"
    and old: "map_of (sv_connections sv) i = Some c0"
    and c: "connection_ok lib cfg parse networks c"
    and b: "b = sv_buffered sv - octets_held (co_phase c0) + octets_held (co_phase c)"
      "b \<le> max (sv_buffered sv) (smtp_max_buffer_bytes (cfg_smtp cfg))"
    and same: "sv_connections sv1 = sv_connections sv" "sv_buffered sv1 = b"
  shows "listener_ok lib cfg parse networks (set_connection i c sv1)"
proof -
  have d: "distinct (map fst (sv_connections sv))" using ok by (simp add: listener_ok_def)
  have "\<forall>p \<in> set (AList.update i c (sv_connections sv)). connection_ok lib cfg parse networks (snd p)"
    using ok c by (auto simp: listener_ok_def set_update [OF d])
  moreover have "b = weigh (\<lambda>c. octets_held (co_phase c)) (AList.update i c (sv_connections sv))"
    using ok b old by (simp add: listener_ok_def weigh_update weight_at_def)
  moreover have "b \<le> max 0 (smtp_max_buffer_bytes (cfg_smtp cfg))"
    using b(2) ok by (simp add: listener_ok_def max_def split: if_splits)
  ultimately show ?thesis using ok old
    by (simp add: listener_ok_def set_connection_def same length_update distinct_update)
qed

lemma drop_connection_ok:
  assumes ok: "listener_ok lib cfg parse networks sv"
  shows "listener_ok lib cfg parse networks (drop_connection i sv)"
proof (cases "map_of (sv_connections sv) i")
  case (Some c)
  have "0 \<le> octets_held (co_phase c)" using octets_held_nonneg listener_okD [OF ok Some] .
  then show ?thesis
    using ok Some order_trans [OF of_nat_mono [OF length_delete]]
    by (auto simp: listener_ok_def drop_connection_def set_delete weigh_delete weight_at_def
        distinct_delete)
qed (use ok in \<open>simp add: drop_connection_def\<close>)

text \<open>The handlers.\<close>

lemma connection_okD:
  assumes "connection_ok lib cfg parse networks c"
  shows "allowed parse networks (co_peer c)" "session_ok lib cfg (co_session c)"
    "co_phase c \<noteq> Commands \<Longrightarrow> ss_sender (co_session c) \<noteq> None \<and> ss_recipients (co_session c) \<noteq> []"
    "co_phase c = Reading d \<Longrightarrow> data_ok (cfg_smtp cfg) d"
    "co_phase c = Submitting d q x m \<Longrightarrow> data_ok (cfg_smtp cfg) d"
    "co_phase c = Submitting d q x m \<Longrightarrow> ds_failure d = [] \<and>
       prepare_message lib (ds_content d) (ss_recipients (co_session c))
         (the (ss_sender (co_session c))) q cfg x = Inr m"
  using assms by (auto simp: connection_ok_def)

lemma admit_connection_ok:
  assumes ok: "listener_ok lib cfg parse networks sv" and new: "map_of (sv_connections sv) i = None"
  shows "listener_ok lib cfg parse networks (fst (admit_connection cfg parse networks i peer sv))"
proof -
  have d: "distinct (map fst (sv_connections sv))" using ok by (simp add: listener_ok_def)
  have same: "listener_ok lib cfg parse networks (sv\<lparr>sv_denied := n\<rparr>)" for n
    using ok by (simp add: listener_ok_def)
  have c: "connection_ok lib cfg parse networks
      \<lparr>co_peer = h, co_session = new_session, co_phase = Commands\<rparr>"
    if "allowed parse networks h" for h
    using that by (simp add: connection_ok_def)
  have "listener_ok lib cfg parse networks (set_connection i
      \<lparr>co_peer = h, co_session = new_session, co_phase = Commands\<rparr> (sv\<lparr>sv_admitted := n\<rparr>))"
    if "allowed parse networks h"
      "\<not> smtp_max_connections (cfg_smtp cfg) \<le> int (length (sv_connections sv))" for h n
    using ok new c [OF that(1)] that(2)
    by (auto simp: listener_ok_def set_connection_def length_update distinct_update weigh_update
        weight_at_def set_update [OF d])
  then show ?thesis
    using ok same by (auto simp: admit_connection_def split: option.splits)
qed

lemma end_data_ok:
  assumes ok: "listener_ok lib cfg parse networks sv"
    and old: "map_of (sv_connections sv) i = Some c" and h: "octets_held (co_phase c) = ds_retained d"
    and same: "sv_connections sv1 = sv_connections sv" "sv_buffered sv1 = sv_buffered sv"
  shows "listener_ok lib cfg parse networks (end_data i c d sv1)"
  unfolding end_data_def
proof (rule set_connection_ok [OF ok old])
  have c: "connection_ok lib cfg parse networks c" by (rule listener_okD [OF ok old])
  then show "connection_ok lib cfg parse networks
      (c\<lparr>co_session := after_data (co_session c), co_phase := Commands\<rparr>)"
    by (simp add: connection_ok_def)
  show "sv_buffered sv - ds_retained d \<le> max (sv_buffered sv) (smtp_max_buffer_bytes (cfg_smtp cfg))"
    using octets_held_nonneg [OF c] h by simp
qed (use same h in \<open>simp_all add: data_release_def\<close>)

lemma serve_command_ok:
  assumes ok: "listener_ok lib cfg parse networks sv"
    and old: "map_of (sv_connections sv) i = Some c" and p: "co_phase c = Commands"
  shows "listener_ok lib cfg parse networks (fst (serve_command lib cfg i av line c sv))"
proof -
  have c: "connection_ok lib cfg parse networks c" by (rule listener_okD [OF ok old])
  have st: "step_ok lib cfg (command_line lib cfg av line (co_session c))"
    by (rule command_line_ok) (rule connection_okD(2) [OF c])
  show ?thesis
  proof (cases "command_line lib cfg av line (co_session c)")
    case (Proceed s t)
    then have "connection_ok lib cfg parse networks (c\<lparr>co_session := s\<rparr>)"
      using st c p by (simp add: connection_ok_def)
    then show ?thesis using Proceed p drop_connection_ok [OF ok]
      by (auto simp: serve_command_def intro!: set_connection_ok [OF ok old _ _ _ refl refl])
  next
    case (ReadData s t)
    then have "connection_ok lib cfg parse networks (c\<lparr>co_session := s, co_phase := Reading data_start\<rparr>)"
      using st c p by (simp add: connection_ok_def)
    then show ?thesis using ReadData p drop_connection_ok [OF ok]
      by (auto simp: serve_command_def data_start_def
          intro!: set_connection_ok [OF ok old _ _ _ refl refl])
  next
    case (Hangup t)
    then show ?thesis using drop_connection_ok [OF ok] by (simp add: serve_command_def)
  qed
qed

lemma serve_data_ok:
  assumes ok: "listener_ok lib cfg parse networks sv"
    and old: "map_of (sv_connections sv) i = Some c" and p: "co_phase c = Reading d"
  shows "listener_ok lib cfg parse networks (fst (serve_data lib cfg i extra q line c d sv))"
proof -
  have c: "connection_ok lib cfg parse networks c" by (rule listener_okD [OF ok old])
  have d: "data_ok (cfg_smtp cfg) d" by (rule connection_okD(4) [OF c p])
  have e: "listener_ok lib cfg parse networks (end_data i c d (sv\<lparr>sv_rejected := n\<rparr>))" for n
    by (rule end_data_ok [OF ok old]) (simp_all add: p)
  have m: "listener_ok lib cfg parse networks (set_connection i (c\<lparr>co_phase := Submitting d q extra m\<rparr>) sv)"
    if "data_message lib cfg extra q (the (ss_sender (co_session c)))
          (ss_recipients (co_session c)) d = Inr m" for m
  proof (rule set_connection_ok [OF ok old _ _ _ refl refl])
    show "connection_ok lib cfg parse networks (c\<lparr>co_phase := Submitting d q extra m\<rparr>)"
      using c p d that by (auto simp: connection_ok_def data_message_def split: if_splits sum.splits)
  qed (simp_all add: p)
  have l: "listener_ok lib cfg parse networks
      (set_connection i (c\<lparr>co_phase := Reading d1\<rparr>) (sv\<lparr>sv_buffered := b\<rparr>))"
    if "data_line (cfg_smtp cfg) line (sv_buffered sv, d) = (b, d1)" for b d1
  proof (rule set_connection_ok [OF ok old])
    show "connection_ok lib cfg parse networks (c\<lparr>co_phase := Reading d1\<rparr>)"
      using c p data_line_ok(1) [OF d that] by (simp add: connection_ok_def)
    show "b = sv_buffered sv - octets_held (co_phase c) + octets_held (co_phase (c\<lparr>co_phase := Reading d1\<rparr>))"
      using data_line_ok(2) [OF d that] p by simp
    show "b \<le> max (sv_buffered sv) (smtp_max_buffer_bytes (cfg_smtp cfg))"
      by (rule data_line_ok(4) [OF d that])
  qed simp_all
  show ?thesis
    using drop_connection_ok [OF ok] e m l
    by (simp add: serve_data_def split: sum.splits prod.splits)
qed

lemma serve_ok:
  assumes ok: "listener_ok lib cfg parse networks sv"
  shows "listener_ok lib cfg parse networks (fst (serve lib cfg parse networks e sv))"
proof (cases e)
  case (Connect i peer)
  then show ?thesis using ok admit_connection_ok [OF ok] by simp
next
  case (Line i av extra q line)
  then show ?thesis using ok serve_command_ok [OF ok] serve_data_ok [OF ok]
    by (simp split: option.split phase.split)
next
  case (Submitted i queued)
  have "listener_ok lib cfg parse networks (fst (serve_submitted i queued c sv))"
    if "map_of (sv_connections sv) i = Some c" for c
    using ok that by (auto simp: serve_submitted_def intro!: end_data_ok [OF ok that] split: phase.split)
  then show ?thesis using ok Submitted by (simp split: option.split)
next
  case Shutdown
  have "listener_ok lib cfg parse networks (sv\<lparr>sv_closing := True\<rparr>)"
    using ok by (simp add: listener_ok_def)
  then show ?thesis using Shutdown by simp
qed (use ok drop_connection_ok [OF ok] in simp_all)

lemma serve_all_ok:
  "listener_ok lib cfg parse networks sv \<Longrightarrow>
   listener_ok lib cfg parse networks (fst (serve_all lib cfg parse networks es sv))"
proof (induction es arbitrary: sv)
  case (Cons e es)
  have "fst (serve_all lib cfg parse networks (e # es) sv) =
      fst (serve_all lib cfg parse networks es (fst (serve lib cfg parse networks e sv)))"
    by (simp add: split_beta)
  then show ?case using Cons.IH [OF serve_ok [OF Cons.prems]] by simp
qed simp

end
