(* ===== verification/Gw_Listener_Props.thy ===== *)
theory Gw_Listener_Props
  imports Gw_Listener_Inv Gw_Message_Policy
begin

text \<open>
  What the SMTP listener (\<open>smtp.py\<close>) guarantees: who is served, what a submitted message went
  through, that the octets of a message arrive unchanged, and that the shared buffer is bounded
  and given back on every path.
\<close>

section \<open>Clients\<close>

fun network_ok :: "network \<Rightarrow> bool" where
  "network_ok (Net4 a n) = (n \<le> 32 \<and> a AND netmask n = a)"
| "network_ok (Net6 a n) = (n \<le> 128 \<and> a AND netmask n = a)"

fun same_prefix :: "ip \<Rightarrow> network \<Rightarrow> bool" where
  "same_prefix (V4 a) (Net4 b n) = (prefix_bits n a = prefix_bits n b)"
| "same_prefix (V6 a) (Net6 b n) = (prefix_bits n a = prefix_bits n b)"
| "same_prefix _ _ = False"

lemma in_network_prefix: "network_ok n \<Longrightarrow> in_network x n = same_prefix x n"
  by (cases x; cases n) (simp_all add: in_prefix)

text \<open>
  C18: The client allowlist.  A client is served exactly when its address starts with the prefix
  of an allowed network of its own IP version, bit by bit; an IPv4 client on an IPv6 socket, which
  appears as \<open>::ffff:a.b.c.d\<close>, is judged by its IPv4 address; an address that does not parse is
  refused.
\<close>

theorem allowlist_matches_prefixes:
  assumes "list_all network_ok networks"
  shows "allowed parse networks host =
      (case parse host of None \<Rightarrow> False | Some x \<Rightarrow> \<exists>n \<in> set networks. same_prefix (unmap x) n)
    \<and> allowed (\<lambda>_. Some (V6 (push_bit 32 0xFFFF OR ucast (a :: 32 word)))) networks host =
      allowed (\<lambda>_. Some (V4 a)) networks host"
proof
  have p: "in_network (unmap x) n = same_prefix (unmap x) n" if "n \<in> set networks" for x n
    using assms that by (simp add: list_all_iff in_network_prefix)
  show "allowed parse networks host =
     (case parse host of None \<Rightarrow> False | Some x \<Rightarrow> \<exists>n \<in> set networks. same_prefix (unmap x) n)"
    using p by (auto simp: allowed_def list_ex_iff split: option.split)
  have "unmap (V4 a) = V4 a" by (simp add: unmap_def)
  then show "allowed (\<lambda>_. Some (V6 (push_bit 32 0xFFFF OR ucast a))) networks host =
      allowed (\<lambda>_. Some (V4 a)) networks host"
    by (simp only: allowed_def option.case unmap_mapped)
qed

definition private_net :: network where "private_net = Net4 0x0A000000 8"

theorem allowlist_matches_prefixes_witness:
  "allowed (\<lambda>_. Some (V6 (push_bit 32 0xFFFF OR ucast (0x0A010203 :: 32 word)))) [private_net] ''h''"
proof -
  have ok: "list_all network_ok [private_net]" by (simp add: private_net_def netmask_def mask_eq_exp_minus_1)
  have "allowed (\<lambda>_. Some (V4 0x0A010203)) [private_net] ''h''"
    by (simp add: allowed_def unmap_def private_net_def netmask_def mask_eq_exp_minus_1)
  then show ?thesis
    using allowlist_matches_prefixes [OF ok, of _ "''h''" "0x0A010203"] by blast
qed

section \<open>The octets of a message\<close>

text \<open>A line of a message without its line end, and as the client sends it: an initial dot doubled.\<close>

definition text_line :: "bytes \<Rightarrow> bool" where
  "text_line x = (CR \<notin> set x \<and> LF \<notin> set x \<and> length x \<le> 998)"

definition sent_line :: "bytes \<Rightarrow> bytes" where
  "sent_line x = (if take 1 x = ''.'' then CHR ''.'' # x else x) @ [CR, LF]"

lemma take_1: "take 1 x = [c] \<longleftrightarrow> (\<exists>y. x = c # y)"
  by (cases x) auto

lemma bad_line_crlf: "bad_line (x @ [CR, LF]) = (CR \<in> set x \<or> LF \<in> set x \<or> 999 < length x)"
  by (auto simp: bad_line_def ends_crlf_def ends_with_def)

lemma bad_sent_line: "text_line x \<Longrightarrow> \<not> bad_line (sent_line x)"
  by (auto simp: sent_line_def text_line_def bad_line_crlf simp flip: append_Cons)

lemma unstuff_sent_line: "unstuff (sent_line x) = x @ [CR, LF]"
  by (cases x) (auto simp: sent_line_def unstuff_def)

lemma sent_line_no_end: "text_line x \<Longrightarrow> sent_line x \<noteq> data_end \<and> sent_line x \<noteq> []"
  by (auto simp: sent_line_def data_end_def text_line_def take_1 Cons_eq_append_conv)

text \<open>One such line is added to the content, within the limits.\<close>

lemma data_line_sent:
  assumes "text_line x" "ds_failure d = []"
    "int (length (ds_content d)) + int (length x + 2) \<le> smtp_max_message_bytes cfg"
    "b + int (length x + 2) \<le> smtp_max_buffer_bytes cfg"
  shows "data_line cfg (sent_line x) (b, d) =
    (b + int (length x + 2), d\<lparr>ds_content := ds_content d @ x @ [CR, LF],
       ds_retained := ds_retained d + int (length x + 2)\<rparr>)"
  using assms bad_sent_line [OF assms(1)]
  by (simp add: data_line_def unstuff_sent_line text_line_def Let_def)

definition octets :: "bytes list \<Rightarrow> bytes" where
  "octets xs = concat (map (\<lambda>x. x @ [CR, LF]) xs)"

lemma data_phase_sent:
  assumes "list_all text_line xs" "ds_failure d = []"
    "int (length (ds_content d)) + int (length (octets xs)) \<le> smtp_max_message_bytes cfg"
    "b + int (length (octets xs)) \<le> smtp_max_buffer_bytes cfg"
  shows "data_phase cfg (map sent_line xs @ data_end # rest) (b, d) =
    Some (b + int (length (octets xs)), d\<lparr>ds_content := ds_content d @ octets xs,
       ds_retained := ds_retained d + int (length (octets xs))\<rparr>)"
  using assms
proof (induction xs arbitrary: b d)
  case Nil
  then show ?case by (simp add: octets_def data_end_def)
next
  case (Cons x xs)
  have o: "octets (x # xs) = x @ [CR, LF] @ octets xs" by (simp add: octets_def)
  show ?case
    using Cons.prems sent_line_no_end [of x] data_line_sent [of x d cfg b]
    by (simp add: o Cons.IH add.commute add.left_commute)
qed

text \<open>
  C15: The DATA phase is transparent.  A client that sends any lines of at most 998 octets, with
  initial dots doubled and the end mark after them, delivers exactly those lines, whatever else
  follows in the stream: a line that is a single dot does not end the message, and no dot is lost
  or added, as long as the message and the shared buffer stay within their limits.
\<close>

theorem data_is_transparent:
  assumes "list_all text_line xs" "int (length (octets xs)) \<le> smtp_max_message_bytes cfg"
    "b + int (length (octets xs)) \<le> smtp_max_buffer_bytes cfg"
  shows "data_phase cfg (map sent_line xs @ data_end # rest) (b, data_start) =
    Some (b + int (length (octets xs)),
      \<lparr>ds_content = octets xs, ds_retained = int (length (octets xs)), ds_failure = []\<rparr>)"
  using data_phase_sent [of xs data_start cfg b rest] assms by (simp add: data_start_def)

theorem data_is_transparent_witness:
  "\<exists>p. data_phase (cfg_smtp default_config)
      [''..'' @ [CR, LF], [CR, LF], ''..x'' @ [CR, LF], data_end, ''QUIT'' @ [CR, LF]] (0, data_start) =
    Some p \<and> ds_content (snd p) = ''.'' @ [CR, LF, CR, LF] @ ''.x'' @ [CR, LF]"
proof -
  have "list_all text_line [''.'', [], ''.x'']"
    "int (length (octets [''.'', [], ''.x''])) \<le> smtp_max_message_bytes (cfg_smtp default_config)"
    "0 + int (length (octets [''.'', [], ''.x''])) \<le> smtp_max_buffer_bytes (cfg_smtp default_config)"
    by code_simp+
  note data_is_transparent [OF this, of "[''QUIT'' @ [CR, LF]]"]
  then show ?thesis by (simp add: sent_line_def octets_def)
qed

text \<open>Without a failure every line was kept; a failure never goes away.\<close>

lemma data_line_failure: "ds_failure d \<noteq> [] \<Longrightarrow> ds_failure (snd (data_line cfg l (b, d))) \<noteq> []"
  by (auto simp: data_line_def Let_def)

lemma data_line_keeps:
  "ds_failure (snd (data_line cfg l (b, d))) = [] \<Longrightarrow> ds_failure d = [] \<and> \<not> bad_line l \<and>
    length (unstuff l) \<le> 1000 \<and>
    ds_content (snd (data_line cfg l (b, d))) = ds_content d @ unstuff l"
  by (auto simp: data_line_def Let_def split: if_splits)

lemma data_phase_keeps:
  assumes "data_phase cfg ls p = Some q" "ds_failure (snd q) = []"
  shows "ds_failure (snd p) = [] \<and> (\<exists>body rest. ls = body @ data_end # rest \<and> data_end \<notin> set body \<and>
     list_all (\<lambda>l. \<not> bad_line l \<and> length (unstuff l) \<le> 1000) body \<and>
     ds_content (snd q) = ds_content (snd p) @ concat (map unstuff body))"
  using assms
proof (induction ls arbitrary: p)
  case (Cons l ls)
  show ?case
  proof (cases "l = data_end")
    case True
    then have "q = p" using Cons.prems by (simp add: data_end_def)
    then show ?thesis using True Cons.prems(2)
      by (intro conjI exI [of _ "[]"] exI [of _ ls]) simp_all
  next
    case False
    then have r: "data_phase cfg ls (data_line cfg l p) = Some q"
      using Cons.prems(1) by (simp split: if_splits)
    obtain body rest where ih: "ds_failure (snd (data_line cfg l p)) = []" "ls = body @ data_end # rest"
      "data_end \<notin> set body" "list_all (\<lambda>l. \<not> bad_line l \<and> length (unstuff l) \<le> 1000) body"
      "ds_content (snd q) = ds_content (snd (data_line cfg l p)) @ concat (map unstuff body)"
      using Cons.IH [OF r Cons.prems(2)] by blast
    have k: "ds_failure (snd p) = [] \<and> \<not> bad_line l \<and> length (unstuff l) \<le> 1000 \<and>
        ds_content (snd (data_line cfg l p)) = ds_content (snd p) @ unstuff l"
      using data_line_keeps [of cfg l "fst p" "snd p"] ih(1) by simp
    show ?thesis
      using ih k False by (intro conjI exI [of _ "l # body"] exI [of _ rest]) auto
  qed
qed simp

text \<open>
  C17: A message that reaches the verdict without a failure is complete: its content is every line
  before the first end mark, in order and with one leading dot removed, each line ended by CRLF,
  without a bare CR or LF and at most 1000 octets long.  A line that is malformed, too long or
  over a limit is never silently dropped: the message is then refused as a whole.
\<close>

theorem message_is_complete_or_refused:
  assumes "data_phase cfg ls (b, data_start) = Some (b1, d)" "ds_failure d = []"
  shows "\<exists>body rest. ls = body @ data_end # rest \<and> data_end \<notin> set body \<and>
     list_all (\<lambda>l. \<not> bad_line l \<and> length (unstuff l) \<le> 1000) body \<and>
     ds_content d = concat (map unstuff body)"
  using data_phase_keeps [OF assms(1)] assms(2) by (simp add: data_start_def)

theorem message_is_complete_or_refused_witness:
  "\<exists>body. [''a'' @ [CR, LF], data_end] = body @ [data_end] \<and> ''a'' @ [CR, LF] = concat (map unstuff body)"
proof -
  have "data_phase (cfg_smtp default_config) [''a'' @ [CR, LF], data_end] (0, data_start) =
      Some (3, \<lparr>ds_content = ''a'' @ [CR, LF], ds_retained = 3, ds_failure = []\<rparr>)" by code_simp
  from message_is_complete_or_refused [OF this] obtain body rest where
    b: "[''a'' @ [CR, LF], data_end] = body @ data_end # rest" "''a'' @ [CR, LF] = concat (map unstuff body)"
    by auto
  moreover have "data_end \<noteq> ''a'' @ [CR, LF]" by (simp add: data_end_def)
  ultimately have "body = [''a'' @ [CR, LF]]" by (cases body) (auto simp: Cons_eq_append_conv)
  then show ?thesis using b(2) by auto
qed

section \<open>The server\<close>

text \<open>
  C16: The buffer of the listener is accounted.  After any interleaving of connections, lines,
  submissions, failures, time-outs and shutdown, the shared count is exactly the octets held by
  the messages being read or submitted, so that it is given back on every path, and it never
  exceeds the limit; the connections never exceed theirs.
\<close>

theorem buffer_is_accounted:
  "sv_buffered (fst (serve_all lib cfg parse networks es listener_start)) =
     sum_list (map (\<lambda>p. octets_held (co_phase (snd p)))
       (sv_connections (fst (serve_all lib cfg parse networks es listener_start))))
   \<and> 0 \<le> sv_buffered (fst (serve_all lib cfg parse networks es listener_start))
   \<and> sv_buffered (fst (serve_all lib cfg parse networks es listener_start))
      \<le> max 0 (smtp_max_buffer_bytes (cfg_smtp cfg))
   \<and> int (length (sv_connections (fst (serve_all lib cfg parse networks es listener_start))))
      \<le> max 0 (smtp_max_connections (cfg_smtp cfg))"
  using serve_all_ok [OF listener_ok_start, of lib cfg parse networks es]
    listener_buffered_nonneg [OF serve_all_ok [OF listener_ok_start, of lib cfg parse networks es]]
  unfolding listener_ok_def weigh_def by linarith

text \<open>
  C13: What a message went through before it is submitted to the queue.  Its client is on the
  allowlist; a greeting and a valid sender came first; its recipients are valid mailboxes, not
  repeated, no more than the limit and each in an allowed domain; its content was read without a
  failure and within the size limit; and the message submitted is what \<open>prepare_message\<close> made of
  exactly these.
\<close>

theorem submitted_message_is_authorised:
  assumes "(i, c) \<in> set (sv_connections (fst (serve_all lib cfg parse networks es listener_start)))"
    and "co_phase c = Submitting d q x m"
  shows "allowed parse networks (co_peer c) \<and> ss_greeted (co_session c)
    \<and> (\<exists>a v. ss_sender (co_session c) = Some a \<and> mailbox lib v True = Inr a
        \<and> prepare_message lib (ds_content d) (ss_recipients (co_session c)) a q cfg x = Inr m)
    \<and> ss_recipients (co_session c) \<noteq> [] \<and> distinct (map casefold (ss_recipients (co_session c)))
    \<and> list_all (\<lambda>r. domain_allowed cfg r \<and> (\<exists>v. mailbox lib v False = Inr r)) (ss_recipients (co_session c))
    \<and> int (length (ss_recipients (co_session c))) \<le> max 0 (smtp_max_recipients (cfg_smtp cfg))
    \<and> ds_failure d = [] \<and> int (length (ds_content d)) \<le> max 0 (smtp_max_message_bytes (cfg_smtp cfg))"
proof -
  have "connection_ok lib cfg parse networks c"
    using serve_all_ok [OF listener_ok_start, of lib cfg parse networks es] assms(1)
    by (fastforce simp: listener_ok_def)
  note c = connection_okD(1,2) [OF this] connection_okD(5,6) [OF this assms(2)] connection_okD(3) [OF this]
  show ?thesis
    using c assms(2) by (auto simp: session_ok_def data_ok_def list_all_iff)
qed

definition client_lines :: "event list" where
  "client_lines = Connect 1 (Some ''h'') #
     map (Line 1 True [] ''q1'')
       [''EHLO c'' @ [CR, LF], ''MAIL FROM:<> SIZE=9'' @ [CR, LF], ''RCPT TO:<a@b.c>'' @ [CR, LF],
        ''rcpt to: <d@B.c>'' @ [CR, LF], ''DATA'' @ [CR, LF], ''From: GW@x.y'' @ [CR, LF],
        ''To: a@b.c, A@b.c'' @ [CR, LF], [CR, LF], ''..hi'' @ [CR, LF], data_end]"

definition client_server :: listener where
  "client_server = fst (serve_all plain_lib policy_cfg (\<lambda>_. Some (V4 1)) [Net4 1 32] client_lines listener_start)"

definition submitting :: "connection \<Rightarrow> (string list \<times> bytes \<times> string \<times> string) option" where
  "submitting c = (case co_phase c of
      Submitting d q x m \<Rightarrow> Some (ss_recipients (co_session c), ds_content d, q, x) | _ \<Rightarrow> None)"

theorem submitted_message_is_authorised_witness:
  "\<exists>a m. prepare_message plain_lib (''From: GW@x.y'' @ [CR, LF] @ ''To: a@b.c, A@b.c'' @
      [CR, LF, CR, LF] @ ''.hi'' @ [CR, LF]) [''a@b.c'', ''d@B.c''] a ''q1'' policy_cfg [] = Inr m"
proof -
  have v: "map (\<lambda>(i, c). (i, submitting c)) (sv_connections client_server) =
      [(1, Some ([''a@b.c'', ''d@B.c''], ''From: GW@x.y'' @ [CR, LF] @ ''To: a@b.c, A@b.c'' @
      [CR, LF, CR, LF] @ ''.hi'' @ [CR, LF], ''q1'', []))]"
    by code_simp
  then obtain c where c: "sv_connections client_server = [(1, c)]"
    and s: "submitting c = Some ([''a@b.c'', ''d@B.c''], ''From: GW@x.y'' @ [CR, LF] @ ''To: a@b.c, A@b.c'' @
      [CR, LF, CR, LF] @ ''.hi'' @ [CR, LF], ''q1'', [])"
    by (auto simp: map_eq_Cons_conv)
  from s obtain d m where d: "co_phase c = Submitting d ''q1'' [] m"
    and r: "ss_recipients (co_session c) = [''a@b.c'', ''d@B.c'']"
      "ds_content d = ''From: GW@x.y'' @ [CR, LF] @ ''To: a@b.c, A@b.c'' @
      [CR, LF, CR, LF] @ ''.hi'' @ [CR, LF]"
    unfolding submitting_def by (cases "co_phase c") auto
  have "(1, c) \<in> set (sv_connections client_server)" by (simp add: c)
  from submitted_message_is_authorised [OF this [unfolded client_server_def] d]
  show ?thesis unfolding r by blast
qed

section \<open>Closing\<close>

lemma drop_connection_keys: "fst ` set (sv_connections (drop_connection i sv)) = fst ` set (sv_connections sv) - {i}"
  by (auto simp: drop_connection_def set_delete map_of_eq_None_iff split: option.split)

lemma cancel_all_empty: "sv_connections (cancel_all sv) = []"
proof -
  have "fst ` set (sv_connections (fold drop_connection is sv)) = fst ` set (sv_connections sv) - set is" for "is" sv
    by (induction "is" arbitrary: sv) (auto simp: drop_connection_keys)
  from this [of "map fst (sv_connections sv)" sv] show ?thesis by (simp add: cancel_all_def)
qed

lemma cancel_all_ok: "listener_ok lib cfg parse networks sv \<Longrightarrow> listener_ok lib cfg parse networks (cancel_all sv)"
proof -
  have "listener_ok lib cfg parse networks s \<Longrightarrow> listener_ok lib cfg parse networks (fold drop_connection is s)" for "is" s
    by (induction "is" arbitrary: s) (auto intro: drop_connection_ok)
  then show "listener_ok lib cfg parse networks sv \<Longrightarrow> ?thesis" by (simp add: cancel_all_def)
qed

text \<open>After \<open>close\<close> there is no connection, and the buffer has been given back.\<close>

lemma closed_listener_is_empty:
  assumes "listener_ok lib cfg parse networks sv"
  shows "sv_connections (close_listener lib cfg parse networks es sv) = []
    \<and> sv_buffered (close_listener lib cfg parse networks es sv) = 0"
proof -
  have "listener_ok lib cfg parse networks (close_listener lib cfg parse networks es sv)"
    unfolding close_listener_def by (rule cancel_all_ok [OF serve_all_ok [OF assms]])
  moreover have "sv_connections (close_listener lib cfg parse networks es sv) = []"
    by (simp add: close_listener_def cancel_all_empty)
  ultimately show ?thesis by (simp add: listener_ok_def weigh_def)
qed

text \<open>While it closes, no new connection comes in.\<close>

lemma closing_admits_nobody:
  "sv_closing sv \<Longrightarrow> sv_closing (fst (serve lib cfg parse networks e sv))
     \<and> length (sv_connections (fst (serve lib cfg parse networks e sv))) \<le> length (sv_connections sv)"
  by (cases e) (auto simp: admit_connection_def serve_command_def serve_data_def serve_submitted_def end_data_def
      drop_connection_def set_connection_def length_update length_delete Let_def
      split: option.splits phase.splits step.splits sum.splits prod.splits)

end
