(* ===== verification/Gw_Additional.thy ===== *)
theory Gw_Additional
  imports Gw_Login Gw_Backend
begin

text \<open>
  \<open>additional_sender.py\<close>: an optional second account.  It has its own credentials (a second
  \<open>TokenManager\<close>, with its own record in the vault), a choice of the address to send from, and it
  routes every message to the account of its From header.
\<close>

section \<open>State\<close>

text \<open>The choice \<open>{}\<close> is \<open>None\<close>.\<close>

record sender_choice =
  ch_username :: string
  ch_mode :: string
  ch_custom :: string

record additional_state =
  ad_tokens :: token_state
  ad_choice :: "sender_choice option"
  ad_saved :: "sender_choice option"

definition set_or_keep :: "string \<Rightarrow> string \<Rightarrow> string" where
  "set_or_keep new old = (if new \<noteq> [] then new else old)"

text \<open>The configuration of the second account, first as older versions had it.\<close>

definition legacy_additional :: "config \<Rightarrow> config" where
  "legacy_additional cfg =
     (let a = cfg_account cfg; x = cfg_additional cfg in
      cfg\<lparr>cfg_account := a\<lparr>acc_backend := ''graph'', acc_send_shared := True,
         acc_save_in_sent := True,
         acc_tenant_id := set_or_keep (add_tenant_id x) (acc_tenant_id a),
         acc_client_id := set_or_keep (add_client_id x) (acc_client_id a),
         acc_redirect_uri := set_or_keep (add_redirect_uri x) (acc_redirect_uri a),
         acc_client_secret_env := set_or_keep (add_client_secret_env x) (acc_client_secret_env a)\<rparr>\<rparr>)"

definition additional_config_of :: "config \<Rightarrow> config" where
  "additional_config_of cfg =
     (let l = legacy_additional cfg
      in l\<lparr>cfg_account := (cfg_account l)\<lparr>acc_sender := [], acc_login_username := []\<rparr>\<rparr>)"

section \<open>\<open>__init__\<close>\<close>

text \<open>A record of an older version gets the new fingerprint, in the vault too.\<close>

definition migrate_record ::
  "oauth_lib \<Rightarrow> config \<Rightarrow> bool \<Rightarrow> account_record option \<Rightarrow> account_record option res" where
  "migrate_record ol cfg write_ok stored =
     (let old = account_fingerprint ol (legacy_additional cfg);
          new = account_fingerprint ol (additional_config_of cfg)
      in case stored of
           None \<Rightarrow> Inr None
         | Some r \<Rightarrow>
             if ar_fingerprint r = old \<and> old \<noteq> new
             then (if write_ok then Inr (Some (r\<lparr>ar_fingerprint := new\<rparr>)) else Inl OSError)
             else Inr (Some r))"

definition record_name :: "token_state \<Rightarrow> string option" where
  "record_name tk = map_option ar_username (tk_record tk)"

text \<open>A stored choice counts for the same user name only, and if its address is still valid.\<close>

definition usable_choice ::
  "oauth_lib \<Rightarrow> token_state \<Rightarrow> sender_choice option \<Rightarrow> sender_choice option" where
  "usable_choice ol tk choice =
     (case choice of
        None \<Rightarrow> None
      | Some c \<Rightarrow>
          if Some (ch_username c) \<noteq> record_name tk \<or> ch_mode c \<notin> {''default'', ''custom''} then None
          else if ch_mode c = ''custom'' then
            (case mailbox (ol_email ol) (ch_custom c) False of Inl e \<Rightarrow> None | Inr m \<Rightarrow> Some c)
          else Some c)"

definition additional_init :: "oauth_lib \<Rightarrow> config \<Rightarrow> bool \<Rightarrow> account_record option
    \<Rightarrow> sender_choice option \<Rightarrow> additional_state res" where
  "additional_init ol cfg write_ok stored choice =
     bind_res (migrate_record ol cfg write_ok stored) (\<lambda>r.
     let tk = token_init ol (additional_config_of cfg) r
     in Inr \<lparr>ad_tokens = tk, ad_choice = usable_choice ol tk choice, ad_saved = choice\<rparr>)"

section \<open>The address to send from\<close>

definition additional_status :: "config \<Rightarrow> additional_state \<Rightarrow> account_status" where
  "additional_status cfg st = token_status (additional_config_of cfg) (ad_tokens st)"

definition default_sender :: "config \<Rightarrow> additional_state \<Rightarrow> string" where
  "default_sender cfg st =
     (if as_credential_present (additional_status cfg st)
      then (case tk_record (ad_tokens st) of
              None \<Rightarrow> [] | Some r \<Rightarrow> (case ar_default_sender r of None \<Rightarrow> [] | Some s \<Rightarrow> s))
      else [])"

definition selected_sender :: "config \<Rightarrow> additional_state \<Rightarrow> string" where
  "selected_sender cfg st =
     (case ad_choice st of
        None \<Rightarrow> []
      | Some c \<Rightarrow> if as_needs_login (additional_status cfg st) then []
          else if ch_mode c = ''default'' then default_sender cfg st else ch_custom c)"

record sender_status =
  sd_account :: account_status
  sd_default_sender :: string
  sd_selected_sender :: string
  sd_mode :: string
  sd_choice_needed :: bool

definition sender_status_of :: "config \<Rightarrow> additional_state \<Rightarrow> sender_status" where
  "sender_status_of cfg st = \<lparr>sd_account = additional_status cfg st,
     sd_default_sender = default_sender cfg st, sd_selected_sender = selected_sender cfg st,
     sd_mode = (case ad_choice st of None \<Rightarrow> [] | Some c \<Rightarrow> ch_mode c),
     sd_choice_needed = (default_sender cfg st \<noteq> [] \<and> selected_sender cfg st = [])\<rparr>"

section \<open>Choosing\<close>

text \<open>\<open>_save_choice\<close>: the choice already counts when the vault is written.\<close>

definition save_choice :: "bool \<Rightarrow> additional_state \<Rightarrow> additional_state \<times> unit res" where
  "save_choice write_ok st =
     (if write_ok then (st\<lparr>ad_saved := ad_choice st\<rparr>, Inr ()) else (st, Inl OSError))"

definition completed_login :: "bool \<Rightarrow> additional_state \<Rightarrow> additional_state \<times> unit res" where
  "completed_login write_ok st = save_choice write_ok (st\<lparr>ad_choice := None\<rparr>)"

text \<open>\<open>token_write_ok\<close> and \<open>choice_write_ok\<close>: the two writes of the vault.\<close>

definition disconnect_additional :: "bool \<Rightarrow> bool \<Rightarrow> additional_state \<Rightarrow> additional_state \<times> unit res" where
  "disconnect_additional token_write_ok choice_write_ok st =
     (case token_disconnect token_write_ok (ad_tokens st) of
        (tk, Inl e) \<Rightarrow> (st\<lparr>ad_tokens := tk\<rparr>, Inl e)
      | (tk, Inr u) \<Rightarrow> save_choice choice_write_ok (st\<lparr>ad_tokens := tk, ad_choice := None\<rparr>))"

text \<open>The address a request selects, or the error.\<close>

definition chosen_address ::
  "oauth_lib \<Rightarrow> config \<Rightarrow> string \<Rightarrow> string \<Rightarrow> additional_state \<Rightarrow> string res" where
  "chosen_address ol cfg mode custom st =
     (if default_sender cfg st = [] then Inl (ValueError ''Connect a Microsoft account first'')
      else if mode \<notin> {''default'', ''custom''}
      then Inl (ValueError ''Choose the default or a custom address'')
      else bind_res (if mode = ''default'' then Inr (default_sender cfg st)
                     else mailbox (ol_email ol) custom False)
        (\<lambda>a. if casefold a = casefold (sender_of cfg)
             then Inl (ValueError ''The original gateway address already uses the existing connection'')
             else Inr a))"

definition new_choice :: "string \<Rightarrow> string \<Rightarrow> token_state \<Rightarrow> sender_choice" where
  "new_choice mode a tk = \<lparr>
     ch_username = (case tk_record tk of None \<Rightarrow> [] | Some r \<Rightarrow> ar_username r),
     ch_mode = mode, ch_custom = (if mode = ''custom'' then a else [])\<rparr>"

definition choose_sender :: "oauth_lib \<Rightarrow> config \<Rightarrow> bool \<Rightarrow> string \<Rightarrow> string \<Rightarrow> additional_state
    \<Rightarrow> additional_state \<times> string res" where
  "choose_sender ol cfg write_ok mode custom st =
     (case chosen_address ol cfg mode custom st of
        Inl e \<Rightarrow> (st, Inl e)
      | Inr a \<Rightarrow>
          (let (st1, saved) = save_choice write_ok
                 (st\<lparr>ad_choice := Some (new_choice mode a (ad_tokens st))\<rparr>)
           in (st1, bind_res saved (\<lambda>u. Inr a))))"

text \<open>\<open>tokens.complete_login\<close> and \<open>completed_login\<close>, as the administration page calls them.\<close>

definition login_additional :: "oauth_lib \<Rightarrow> config \<Rightarrow> login_env \<Rightarrow> bool \<Rightarrow> login_flow
    \<Rightarrow> (string \<times> string) list \<Rightarrow> additional_state \<Rightarrow> additional_state \<times> unit res" where
  "login_additional ol cfg env choice_write_ok flow resp st =
     (case complete_login ol (additional_config_of cfg) True env flow resp (ad_tokens st) of
        (tk, Inl e) \<Rightarrow> (st\<lparr>ad_tokens := tk\<rparr>, Inl e)
      | (tk, Inr a) \<Rightarrow> completed_login choice_write_ok (st\<lparr>ad_tokens := tk\<rparr>))"

section \<open>Routing\<close>

definition is_additional :: "email_lib \<Rightarrow> config \<Rightarrow> bytes \<Rightarrow> bool res" where
  "is_additional lib cfg mime =
     bind_res (from_addr (fst (el_parse lib (head_of mime @ crlf2))))
       (\<lambda>a. Inr (casefold a \<noteq> casefold (sender_of cfg)))"

definition as_additional :: "unit res \<Rightarrow> unit res" where
  "as_additional r = (case r of
      Inl (AuthenticationRequired m) \<Rightarrow> Inl (AdditionalAuthenticationRequired m) | _ \<Rightarrow> r)"

text \<open>\<open>send\<close>, on both accounts' credentials; each back end has its own environment.\<close>

definition route_send :: "upstream_lib \<Rightarrow> oauth_lib \<Rightarrow> config \<Rightarrow> send_env \<Rightarrow> send_env \<Rightarrow> string
    \<Rightarrow> bytes \<Rightarrow> token_state \<times> additional_state \<Rightarrow> (token_state \<times> additional_state) \<times> unit res" where
  "route_send lib ol cfg env env2 identifier mime p =
     (case is_additional (ol_email ol) cfg mime of
        Inl e \<Rightarrow> (p, Inl e)
      | Inr False \<Rightarrow>
          (let (tk, r) = backend_send lib ol cfg env identifier mime (fst p) in ((tk, snd p), r))
      | Inr True \<Rightarrow>
          if \<not> as_credential_present (additional_status cfg (snd p))
          then (p, Inl (AdditionalAuthenticationRequired ''Additional Microsoft account is not connected''))
          else (let (tk, r) = backend_send lib ol (additional_config_of cfg) env2 identifier mime
                       (ad_tokens (snd p))
                in ((fst p, (snd p)\<lparr>ad_tokens := tk\<rparr>), as_additional r)))"

end
