(* ===== verification/Gw_Additional_Props.thy ===== *)
theory Gw_Additional_Props
  imports Gw_Additional Gw_Backend_Props Gw_Message_Policy
begin

text \<open>
  The second account (\<open>additional_sender.py\<close>): messages and credentials of the two accounts never
  mix, the chosen address is the one announced and survives a restart, and what a failed login
  does to it.
\<close>

section \<open>Routing\<close>

lemma as_additional_simps:
  "as_additional r = Inr u \<longleftrightarrow> r = Inr u" "\<not> pauses (as_additional r)"
  by (auto simp: as_additional_def split: sum.splits exn.splits)

lemma backend_send_Inr:
  assumes "backend_send lib ol cfg env i m tk = (tk', Inr u)"
  shows "\<exists>tk1 token resp. get_token ol cfg (se_token env) tk = (tk1, Inr token)
     \<and> se_post env (send_request lib cfg tk1 token i m) = Answered resp \<and> accepts lib cfg resp"
proof -
  have "at_status (attempt_outcome cfg 1 1 (Inr u)) = Submitted" by (simp add: outcome_status(1))
  then show ?thesis
    using assms by (fastforce simp: backend_send_def after_post_def
        split: prod.splits sum.splits post_result.splits dest: handle_Inr)
qed

lemma additional_is_graph [simp]: "is_graph (additional_config_of cfg)"
  by (simp add: is_graph_def additional_config_of_def legacy_additional_def Let_def)

text \<open>
  C29: The two accounts do not mix.  The From header of the stored octets decides: a message of the
  configured sender goes through the original account alone, and the second account's credentials
  and choice stay as they are; every other message goes through the second account alone.  There,
  it counts as submitted only if that account is connected and Graph answered 202 to a request
  with that account's token; and no failure of the second account ever pauses the gateway.
\<close>

theorem accounts_do_not_mix:
  assumes "route_send lib ol cfg env env2 i m (tk, st) = ((tk', st'), r)"
  shows "case is_additional (ol_email ol) cfg m of
      Inl e \<Rightarrow> tk' = tk \<and> st' = st \<and> r = Inl e
    | Inr False \<Rightarrow> st' = st \<and> backend_send lib ol cfg env i m tk = (tk', r)
    | Inr True \<Rightarrow> tk' = tk \<and> ad_choice st' = ad_choice st \<and> ad_saved st' = ad_saved st \<and> \<not> pauses r
        \<and> (at_status (attempt_outcome cfg jitter n r) = Submitted \<longrightarrow>
            as_credential_present (additional_status cfg st) \<and>
            (\<exists>tk1 token resp. get_token ol (additional_config_of cfg) (se_token env2) (ad_tokens st)
                = (tk1, Inr token)
              \<and> se_post env2 (send_request lib (additional_config_of cfg) tk1 token i m) = Answered resp
              \<and> rs_status resp = 202))"
proof (cases "is_additional (ol_email ol) cfg m")
  case (Inr b)
  show ?thesis
  proof (cases b)
    case True
    have "\<exists>tk1 token resp. get_token ol (additional_config_of cfg) (se_token env2) (ad_tokens st)
                = (tk1, Inr token)
              \<and> se_post env2 (send_request lib (additional_config_of cfg) tk1 token i m) = Answered resp
              \<and> rs_status resp = 202"
      if "backend_send lib ol (additional_config_of cfg) env2 i m (ad_tokens st) = (tk2, Inr u)" for tk2 u
      using backend_send_Inr [OF that] by (auto simp: accepts_def split: option.splits)
    then show ?thesis using assms Inr True
      by (auto simp: route_send_def outcome_status as_additional_simps split: if_splits prod.splits)
  qed (use assms Inr in \<open>auto simp: route_send_def split: prod.splits\<close>)
qed (use assms in \<open>simp add: route_send_def\<close>)

text \<open>An instance: a header library that reads plain lines, and a message of the second account.\<close>

definition pair_oauth :: oauth_lib where
  "pair_oauth = demo_oauth\<lparr>ol_email := plain_lib\<rparr>"

definition second_record :: account_record where
  "second_record = \<lparr>ar_fingerprint = account_fingerprint pair_oauth (additional_config_of oauth_cfg),
     ar_mode = ''v2'', ar_username = ''p@x.y'', ar_default_sender = Some ''p@x.y'',
     ar_refresh = JStr ''r1'', ar_last_refresh = None\<rparr>"

definition second_state :: additional_state where
  "second_state = projr (additional_init pair_oauth oauth_cfg True (Some second_record) None)"

definition second_mime :: bytes where
  "second_mime = ''From: P@x.y'' @ [CR, LF, CR, LF] @ ''hi''"

definition second_send :: "(token_state \<times> additional_state) \<times> unit res" where
  "second_send = route_send demo_upstream pair_oauth oauth_cfg (demo_send_env 500 []) (demo_send_env 202 [])
     ''a'' second_mime (demo_tokens, second_state)"

theorem accounts_do_not_mix_witness:
  "fst (fst second_send) = demo_tokens
   \<and> (\<exists>tk1 token resp. se_post (demo_send_env 202 [])
        (send_request demo_upstream (additional_config_of oauth_cfg) tk1 token ''a'' second_mime)
        = Answered resp \<and> rs_status resp = 202)"
proof -
  have a: "is_additional (ol_email pair_oauth) oauth_cfg second_mime = Inr True" by code_simp
  have st: "at_status (attempt_outcome oauth_cfg 1 1 (snd second_send)) = Submitted" by code_simp
  have b: "route_send demo_upstream pair_oauth oauth_cfg (demo_send_env 500 [])
      (demo_send_env 202 []) ''a'' second_mime (demo_tokens, second_state) =
      ((fst (fst second_send), snd (fst second_send)), snd second_send)"
    by (simp add: second_send_def)
  note w = accounts_do_not_mix [OF b, where jitter = 1 and n = 1, unfolded a sum.case bool.case]
  show ?thesis using w st by blast
qed

section \<open>The choice\<close>

text \<open>What the email library promises here: the address it gives parses to itself.\<close>

definition stable_mailbox :: "email_lib \<Rightarrow> bool" where
  "stable_mailbox lib = (\<forall>v m. mailbox lib v False = Inr m \<longrightarrow> mailbox lib m False = Inr m)"

lemma chosen_address_Inr:
  assumes "chosen_address ol cfg mode custom st = Inr a"
  shows "default_sender cfg st \<noteq> []" "mode = ''default'' \<or> mode = ''custom''"
    "casefold a \<noteq> casefold (sender_of cfg)"
    "mode = ''default'' \<Longrightarrow> a = default_sender cfg st"
    "mode = ''custom'' \<Longrightarrow> mailbox (ol_email ol) custom False = Inr a"
  using assms by (auto simp: chosen_address_def bind_res_Inr split: if_splits)

lemma choose_sender_Inr:
  "choose_sender ol cfg w mode custom st = (st', Inr a) \<longleftrightarrow>
     w \<and> chosen_address ol cfg mode custom st = Inr a \<and>
     st' = st\<lparr>ad_choice := Some (new_choice mode a (ad_tokens st)),
              ad_saved := Some (new_choice mode a (ad_tokens st))\<rparr>"
  by (auto simp: choose_sender_def save_choice_def split: sum.splits if_splits)

lemma default_sender_record:
  "default_sender cfg st \<noteq> [] \<Longrightarrow> \<exists>r. tk_record (ad_tokens st) = Some r \<and>
     ar_default_sender r = Some (default_sender cfg st) \<and> truthy (ar_refresh r)"
  by (auto simp: default_sender_def additional_status_def token_status_def refresh_of_def
      split: if_splits option.splits)

lemma default_sender_eq:
  "tk_record (ad_tokens st) = Some r \<Longrightarrow> truthy (ar_refresh r) \<Longrightarrow> ar_default_sender r = Some d \<Longrightarrow>
     default_sender cfg st = d"
  by (simp add: default_sender_def additional_status_def token_status_def refresh_of_def)

lemma selected_sender_new:
  "ad_choice st = Some (new_choice mode a tk) \<Longrightarrow> \<not> as_needs_login (additional_status cfg st) \<Longrightarrow>
     mode = ''custom'' \<or> mode = ''default'' \<and> a = default_sender cfg st \<Longrightarrow> selected_sender cfg st = a"
  by (auto simp: selected_sender_def new_choice_def)

text \<open>
   A choice is announced as it is used, and survives a restart.  A successful request selects
  an address that differs from the configured sender even in letter case: the profile address of
  the signed-in account, or a valid custom mailbox.  From then on it is the selected sender, and
  a service started again on what the vault holds, with the same configuration, selects the same
  address.
\<close>

theorem choice_survives_restart:
  assumes "choose_sender ol cfg w mode custom st = (st', Inr a)" and "stable_mailbox (ol_email ol)"
    and "\<not> as_needs_login (additional_status cfg st)"
    and "tk_stored (ad_tokens st) = tk_record (ad_tokens st)"
    and "map_option ar_fingerprint (tk_record (ad_tokens st)) =
      Some (account_fingerprint ol (additional_config_of cfg))"
    and "account_fingerprint ol (legacy_additional cfg) \<noteq> account_fingerprint ol (additional_config_of cfg)"
  shows "selected_sender cfg st' = a \<and> casefold a \<noteq> casefold (sender_of cfg)
    \<and> (a = default_sender cfg st \<or> mailbox (ol_email ol) custom False = Inr a)
    \<and> (\<exists>st2. additional_init ol cfg True (tk_stored (ad_tokens st')) (ad_saved st') = Inr st2
          \<and> selected_sender cfg st2 = a)"
proof -
  from assms(1) have c: "chosen_address ol cfg mode custom st = Inr a"
    and st': "st' = st\<lparr>ad_choice := Some (new_choice mode a (ad_tokens st)),
              ad_saved := Some (new_choice mode a (ad_tokens st))\<rparr>"
    by (simp_all add: choose_sender_Inr)
  note a = chosen_address_Inr [OF c]
  obtain r where r: "tk_record (ad_tokens st) = Some r" "truthy (ar_refresh r)"
    "ar_default_sender r = Some (default_sender cfg st)"
    using default_sender_record [OF a(1)] by blast
  define tk where "tk = token_init ol (additional_config_of cfg) (Some r)"
  have f: "ar_fingerprint r = account_fingerprint ol (additional_config_of cfg)"
    using assms(5) r(1) by simp
  have tk: "tk_record tk = Some r" "\<not> tk_needs_login tk" by (simp_all add: tk_def token_init_def f)
  have n: "ar_refresh r \<noteq> JNull" using r(2) by auto
  have "usable_choice ol tk (Some (new_choice mode a (ad_tokens st))) =
      Some (new_choice mode a (ad_tokens st))"
    using a(2)
  proof
    assume m: "mode = ''custom''"
    then have "mailbox (ol_email ol) a False = Inr a"
      using a(5) assms(2) unfolding stable_mailbox_def by blast
    then show ?thesis using m r(1) tk(1) by (simp add: usable_choice_def new_choice_def record_name_def)
  qed (use r(1) tk(1) in \<open>simp add: usable_choice_def new_choice_def record_name_def\<close>)
  then have i: "additional_init ol cfg True (Some r) (ad_saved st') =
      Inr \<lparr>ad_tokens = tk, ad_choice = Some (new_choice mode a (ad_tokens st)),
           ad_saved = ad_saved st'\<rparr>"
    using assms(6) f by (simp add: additional_init_def migrate_record_def tk_def st')
  have "selected_sender cfg \<lparr>ad_tokens = tk, ad_choice = Some (new_choice mode a (ad_tokens st)),
           ad_saved = s\<rparr> = a" for s
  proof (rule selected_sender_new)
    show "mode = ''custom'' \<or> mode = ''default'' \<and> a = default_sender cfg
      \<lparr>ad_tokens = tk, ad_choice = Some (new_choice mode a (ad_tokens st)), ad_saved = s\<rparr>"
      using a(2,4) default_sender_eq [OF _ r(2,3), of
        "\<lparr>ad_tokens = tk, ad_choice = Some (new_choice mode a (ad_tokens st)), ad_saved = s\<rparr>"] tk(1)
      by auto
  qed (use tk n in \<open>simp_all add: additional_status_def token_status_def refresh_of_def\<close>)
  moreover have "selected_sender cfg st' = a"
  proof (rule selected_sender_new)
    have "default_sender cfg st' = default_sender cfg st"
      by (simp add: st' default_sender_def additional_status_def)
    then show "mode = ''custom'' \<or> mode = ''default'' \<and> a = default_sender cfg st'"
      using a(2,4) by auto
  qed (use assms(3) in \<open>simp_all add: st' additional_status_def\<close>)
  moreover have "tk_stored (ad_tokens st') = Some r" using assms(4) r(1) st' by simp
  moreover have "a = default_sender cfg st \<or> mailbox (ol_email ol) custom False = Inr a"
    using a(2,4,5) by blast
  ultimately show ?thesis using a(3) i by simp
qed

definition chosen_state :: additional_state where
  "chosen_state = fst (choose_sender pair_oauth oauth_cfg True ''custom'' ''s@x.y'' second_state)"

lemma plain_stable: "stable_mailbox plain_lib"
  by (auto simp: stable_mailbox_def mailbox_def plain_lib_def split: if_splits option.splits prod.splits)

theorem choice_survives_restart_witness:
  "selected_sender oauth_cfg chosen_state = ''s@x.y''
   \<and> (\<exists>st2. additional_init pair_oauth oauth_cfg True (tk_stored (ad_tokens chosen_state))
        (ad_saved chosen_state) = Inr st2 \<and> selected_sender oauth_cfg st2 = ''s@x.y'')"
proof -
  have c: "choose_sender pair_oauth oauth_cfg True ''custom'' ''s@x.y'' second_state =
      (chosen_state, Inr ''s@x.y'')"
    unfolding chosen_state_def by (subst prod_eq_iff) code_simp
  have s: "stable_mailbox (ol_email pair_oauth)" using plain_stable by (simp add: pair_oauth_def)
  have "\<not> as_needs_login (additional_status oauth_cfg second_state)"
    "tk_stored (ad_tokens second_state) = tk_record (ad_tokens second_state)"
    "map_option ar_fingerprint (tk_record (ad_tokens second_state)) =
      Some (account_fingerprint pair_oauth (additional_config_of oauth_cfg))"
    "account_fingerprint pair_oauth (legacy_additional oauth_cfg) \<noteq>
      account_fingerprint pair_oauth (additional_config_of oauth_cfg)"
    by code_simp+
  from choice_survives_restart [OF c s this] show ?thesis by blast
qed

section \<open>A login that fails late\<close>

text \<open>
   A login of the second account that fails after the record in memory was replaced (the vault
  cannot be written, or the lifetime of the token is not a number) keeps the choice made for the
  previous account: with the choice "default", messages are from then on accepted from the profile
  address of the new account, which nobody chose.
\<close>

theorem failed_login_switches_sender:
  assumes "login_additional ol cfg env w flow resp st = (st', Inl e)"
    and "ad_choice st = Some c" and "ch_mode c = ''default''" and "selected_sender cfg st \<noteq> []"
    and "ad_choice st' \<noteq> None" and "tk_record (ad_tokens st') \<noteq> tk_record (ad_tokens st)"
  shows "\<exists>r d. tk_record (ad_tokens st') = Some r \<and> ar_default_sender r = Some d
     \<and> ad_choice st' = Some c \<and> selected_sender cfg st' = d"
proof -
  obtain tk' res where l: "complete_login ol (additional_config_of cfg) True env flow resp (ad_tokens st)
      = (tk', res)" by (cases "complete_login ol (additional_config_of cfg) True env flow resp (ad_tokens st)")
  have e: "res = Inl e" "st' = st\<lparr>ad_tokens := tk'\<rparr>"
    using assms(1,5) l by (auto simp: login_additional_def completed_login_def save_choice_def
        split: sum.splits if_splits)
  have old: "\<not> tk_needs_login (ad_tokens st)"
    using assms(2,4) by (auto simp: selected_sender_def additional_status_def token_status_def
        split: if_splits)
  from l show ?thesis
  proof (cases rule: complete_login_cases)
    case (early e')
    then show ?thesis using assms(6) e by (simp add: same_credentials_def)
  next
    case (saving result claims tk1 addr tk2 sv)
    have sv: "sv = Inl e" "tk' = tk2" using saving(5) e(1) by (auto split: sum.splits)
    have "\<exists>r d. tk_record tk2 = Some r \<and> ar_default_sender r = Some d \<and> truthy (ar_refresh r)
        \<and> \<not> tk_needs_login tk2"
      using saving(4)
      by (cases rule: save_result_cases)
        (use sv e saving(3) assms(6) old in \<open>auto simp: same_credentials_def new_record_def\<close>)
    then show ?thesis using sv e assms(2,3)
      by (auto simp: selected_sender_def default_sender_def additional_status_def token_status_def
          refresh_of_def)
  qed
qed

definition late_oauth :: oauth_lib where
  "late_oauth = pair_oauth\<lparr>ol_json := (\<lambda>b. if b = ''P'' then Some (JObj [(''mail'', JStr ''n@x.y'')])
     else ol_json demo_oauth b)\<rparr>"

definition late_env :: login_env where
  "late_env = (demo_lenv False)\<lparr>le_profile := Reply 200 [''P'']\<rparr>"

definition default_state :: additional_state where
  "default_state = fst (choose_sender late_oauth oauth_cfg True ''default'' [] second_state)"

definition late_state :: additional_state where
  "late_state = fst (login_additional late_oauth oauth_cfg late_env True demo_flow demo_resp default_state)"

theorem failed_login_switches_sender_witness:
  "selected_sender oauth_cfg default_state = ''p@x.y'' \<and> (\<exists>r d. tk_record (ad_tokens late_state) = Some r
     \<and> ar_default_sender r = Some d \<and> selected_sender oauth_cfg late_state = d)
   \<and> selected_sender oauth_cfg late_state = ''n@x.y''"
proof -
  have l: "login_additional late_oauth oauth_cfg late_env True demo_flow demo_resp default_state =
      (late_state, Inl (Retryable ''Cannot persist renewed account credentials'' (Fin 30) True))"
    unfolding late_state_def by (subst prod_eq_iff) code_simp
  obtain c where c: "ad_choice default_state = Some c" "ch_mode c = ''default''"
  proof
    show "ad_choice default_state = Some (new_choice ''default'' [] (ad_tokens second_state))" by code_simp
  qed (simp add: new_choice_def)
  have f: "selected_sender oauth_cfg default_state = ''p@x.y''"
    "selected_sender oauth_cfg late_state = ''n@x.y''" "ad_choice late_state \<noteq> None"
    "tk_record (ad_tokens late_state) \<noteq> tk_record (ad_tokens default_state)" by code_simp+
  have "selected_sender oauth_cfg default_state \<noteq> []" by (simp add: f(1))
  from failed_login_switches_sender [OF l c this f(3,4)] show ?thesis using f(1,2) by blast
qed

end
