(* ===== verification/Gw_Vault.thy ===== *)
theory Gw_Vault
  imports Gw_Backend_Props
begin

text \<open>
  \<open>security.py\<close>: crash-safe file replacement, the instance lock, the encrypted vault, and the
  administration password.  The file system is modelled as far as \<open>atomic_write\<close> relies on it;
  Fernet, scrypt and JSON are the record \<open>vault_lib\<close>.
\<close>

section \<open>A file system that can crash\<close>

text \<open>
  Names lead to inodes, inodes to octets.  \<open>dk_journal\<close> lists the directories a crash may leave
  behind: the last one known to be on disk, and every later one.  An inode that was not synced
  since it was written may come back with any octets.
\<close>

type_synonym directory = "string \<Rightarrow> nat option"

record disk =
  dk_names :: directory
  dk_journal :: "directory list"
  dk_data :: "nat \<Rightarrow> bytes"
  dk_synced :: "nat \<Rightarrow> bool"

datatype fs_op =
    Create string nat
  | Append nat bytes
  | Fsync nat
  | Rename string string
  | FsyncDir
  | Unlink string

definition set_names :: "directory \<Rightarrow> disk \<Rightarrow> disk" where
  "set_names n d = d\<lparr>dk_names := n, dk_journal := n # dk_journal d\<rparr>"

fun fs_step :: "fs_op \<Rightarrow> disk \<Rightarrow> disk" where
  "fs_step (Create p i) d = set_names ((dk_names d)(p := Some i))
     (d\<lparr>dk_data := (dk_data d)(i := []), dk_synced := (dk_synced d)(i := False)\<rparr>)"
| "fs_step (Append i b) d =
     d\<lparr>dk_data := (dk_data d)(i := dk_data d i @ b), dk_synced := (dk_synced d)(i := False)\<rparr>"
| "fs_step (Fsync i) d = d\<lparr>dk_synced := (dk_synced d)(i := True)\<rparr>"
| "fs_step (Rename p q) d = set_names ((dk_names d)(q := dk_names d p, p := None)) d"
| "fs_step FsyncDir d = d\<lparr>dk_journal := [dk_names d]\<rparr>"
| "fs_step (Unlink p) d = set_names ((dk_names d)(p := None)) d"

definition fs_run :: "fs_op list \<Rightarrow> disk \<Rightarrow> disk" where
  "fs_run ops d = fold fs_step ops d"

definition read_file :: "string \<Rightarrow> disk \<Rightarrow> bytes option" where
  "read_file p d = map_option (dk_data d) (dk_names d p)"

text \<open>Whether a process that starts after a crash may find \<open>x\<close> under a name.\<close>

definition crash_read :: "string \<Rightarrow> disk \<Rightarrow> bytes option \<Rightarrow> bool" where
  "crash_read p d x = list_ex (\<lambda>n.
     x = map_option (dk_data d) (n p) \<or>
     (x \<noteq> None \<and> n p \<noteq> None \<and> \<not> dk_synced d (the (n p)))) (dk_journal d)"

section \<open>\<open>atomic_write\<close>\<close>

text \<open>The steps; \<open>i\<close> and \<open>tmp\<close> are the fresh file that \<open>mkstemp\<close> gives.\<close>

definition atomic_write :: "string \<Rightarrow> nat \<Rightarrow> string \<Rightarrow> bytes \<Rightarrow> fs_op list" where
  "atomic_write tmp i path content =
     [Create tmp i, Append i content, Fsync i, Rename tmp path, FsyncDir]"

text \<open>
  An exception after \<open>k\<close> of the steps: the clean-up unlinks the temporary file if it is there.
\<close>

definition failed_write :: "nat \<Rightarrow> string \<Rightarrow> nat \<Rightarrow> string \<Rightarrow> bytes \<Rightarrow> disk \<Rightarrow> disk" where
  "failed_write k tmp i path content d =
     (let d1 = fs_run (take k (atomic_write tmp i path content)) d
      in if dk_names d1 tmp \<noteq> None then fs_step (Unlink tmp) d1 else d1)"

section \<open>The instance lock\<close>

text \<open>The lock file's holder, and the mode of the state directory.\<close>

record lock_state =
  lk_holder :: "nat option"
  lk_mode :: int

definition acquire_lock :: "nat \<Rightarrow> lock_state \<Rightarrow> lock_state res" where
  "acquire_lock p s =
     (if lk_mode s mod 64 \<noteq> 0
      then Inl (ValueError ''State directory must have permissions 0700'')
      else if lk_holder s \<noteq> None
      then Inl (RuntimeError
        ''Another gateway or administrative command is using this state directory'')
      else Inr (s\<lparr>lk_holder := Some p\<rparr>))"

definition release_lock :: "nat \<Rightarrow> lock_state \<Rightarrow> lock_state" where
  "release_lock p s = (if lk_holder s = Some p then s\<lparr>lk_holder := None\<rparr> else s)"

section \<open>The vault\<close>

text \<open>
  \<open>vl_encrypt\<close>, \<open>vl_decrypt\<close>: Fernet with the vault's key (\<open>None\<close>: \<open>InvalidToken\<close>); \<open>vl_dumps\<close>,
  \<open>vl_loads\<close>: JSON; \<open>vl_scrypt\<close>: the password hash of a password and a salt.
\<close>

record vault_lib =
  vl_encrypt :: "bytes \<Rightarrow> bytes \<Rightarrow> bytes"
  vl_decrypt :: "bytes \<Rightarrow> bytes \<Rightarrow> bytes option"
  vl_dumps :: "json \<Rightarrow> bytes"
  vl_loads :: "bytes \<Rightarrow> json option"
  vl_scrypt :: "string \<Rightarrow> bytes \<Rightarrow> bytes"

text \<open>Opening: a missing key file is created only by \<open>init\<close>; \<open>mode\<close> is the key file's.\<close>

definition open_vault :: "bool \<Rightarrow> bytes \<Rightarrow> string \<Rightarrow> nat \<Rightarrow> int \<Rightarrow> disk \<Rightarrow> (disk \<times> bytes) res" where
  "open_vault create fresh_key tmp i mode d =
     (let d1 = (if create \<and> read_file ''vault.key'' d = None
                then fs_run (atomic_write tmp i ''vault.key'' fresh_key) d else d)
      in case read_file ''vault.key'' d1 of
           None \<Rightarrow> Inl (ValueError ''Gateway is not initialized: run noreply-gateway init'')
         | Some key \<Rightarrow>
             if mode mod 64 \<noteq> 0 then Inl (ValueError ''vault.key must have permissions 0600'')
             else Inr (d1, key))"

definition record_file :: "string \<Rightarrow> string" where
  "record_file name = name @ ''.enc''"

text \<open>A missing record is the empty dictionary.\<close>

definition decode_record :: "vault_lib \<Rightarrow> bytes \<Rightarrow> bytes option \<Rightarrow> json res" where
  "decode_record lib key content =
     (case content of
        None \<Rightarrow> Inr (JObj [])
      | Some b \<Rightarrow>
          (case vl_decrypt lib key b of
             None \<Rightarrow> Inl (OtherExc ''InvalidToken'')
           | Some p \<Rightarrow> (case vl_loads lib p of
               None \<Rightarrow> Inl (ValueError ''JSONDecodeError'') | Some v \<Rightarrow> Inr v)))"

definition vault_read :: "vault_lib \<Rightarrow> bytes \<Rightarrow> string \<Rightarrow> disk \<Rightarrow> json res" where
  "vault_read lib key name d = decode_record lib key (read_file (record_file name) d)"

definition vault_write :: "vault_lib \<Rightarrow> bytes \<Rightarrow> string \<Rightarrow> nat \<Rightarrow> string \<Rightarrow> json \<Rightarrow> fs_op list" where
  "vault_write lib key tmp i name v =
     atomic_write tmp i (record_file name) (vl_encrypt lib key (vl_dumps lib v))"

section \<open>The administration password\<close>

text \<open>\<open>base64.b64decode(text, validate=True)\<close>; \<open>None\<close> for its error.\<close>

definition b64_valid :: "string \<Rightarrow> bool" where
  "b64_valid s =
     (let body = takeWhile (\<lambda>c. c \<noteq> CHR ''='') s
      in length s mod 4 = 0 \<and> set body \<subseteq> set b64_alphabet
         \<and> drop (length body) s \<in> {[], ''='', ''==''})"

definition b64_strict :: "string \<Rightarrow> bytes option" where
  "b64_strict s = (if b64_valid s then Some (b64decode s) else None)"

type_synonym password_record = "(string \<times> string) list"

definition hash_password :: "vault_lib \<Rightarrow> bytes \<Rightarrow> string \<Rightarrow> password_record res" where
  "hash_password lib salt password =
     (if length password < 12
      then Inl (ValueError ''Use an administration password of at least 12 characters'')
      else Inr [(''salt'', b64encode salt), (''hash'', b64encode (vl_scrypt lib password salt))])"

definition verify_password :: "vault_lib \<Rightarrow> string \<Rightarrow> password_record \<Rightarrow> bool" where
  "verify_password lib password stored =
     (if int (length password) > 1024 then False
      else case (map_of stored ''salt'', map_of stored ''hash'') of
          (Some s, Some h) \<Rightarrow>
            (case (b64_strict s, b64_strict h) of
               (Some salt, Some expected) \<Rightarrow> vl_scrypt lib password salt = expected
             | _ \<Rightarrow> False)
        | _ \<Rightarrow> False)"

end
