(* ===== verification/Gw_Vault_Props.thy ===== *)
theory Gw_Vault_Props
  imports Gw_Vault
begin

text \<open>
  \<open>security.py\<close>: replacing a file is atomic under crashes and failures, the vault gives back what
  it stored, and the password check accepts exactly the hashed password, if it is not too long.
\<close>

section \<open>Replacing a file\<close>

text \<open>The file is known to be on disk with these octets, or known not to exist.\<close>

definition durable :: "string \<Rightarrow> bytes option \<Rightarrow> disk \<Rightarrow> bool" where
  "durable p x d = (dk_journal d \<noteq> [] \<and> dk_names d \<in> set (dk_journal d) \<and>
     (\<forall>n \<in> set (dk_journal d). map_option (dk_data d) (n p) = x \<and>
        (n p \<noteq> None \<longrightarrow> dk_synced d (the (n p)))))"

text \<open>The inode of a new file is used by no directory a crash may leave.\<close>

definition fresh_inode :: "nat \<Rightarrow> disk \<Rightarrow> bool" where
  "fresh_inode i d = (\<forall>n \<in> insert (dk_names d) (set (dk_journal d)). \<forall>p. n p \<noteq> Some i)"

lemma durable_crash_read: "durable p x d \<Longrightarrow> crash_read p d y \<longleftrightarrow> y = x"
  by (cases "dk_journal d") (auto simp: durable_def crash_read_def list_ex_iff)

lemma durable_read: "durable p x d \<Longrightarrow> read_file p d = x"
  by (auto simp: durable_def read_file_def)

lemma map_option_upd: "x \<noteq> Some i \<Longrightarrow> map_option (f(i := b)) x = map_option f x"
  by (cases x) auto

lemma the_other: "x \<noteq> Some i \<Longrightarrow> x \<noteq> None \<Longrightarrow> the x \<noteq> i"
  by auto

text \<open>Each step keeps another file durable; the last two make the new octets so.\<close>

lemma create_durable:
  "durable p x d \<Longrightarrow> p \<noteq> q \<Longrightarrow> fresh_inode i d \<Longrightarrow> durable p x (fs_step (Create q i) d)"
  by (auto simp: durable_def set_names_def fresh_inode_def map_option_upd the_other)

lemma data_durable:
  "durable p x d \<Longrightarrow> (\<And>n. n \<in> set (dk_journal d) \<Longrightarrow> n p \<noteq> Some i) \<Longrightarrow> durable p x (fs_step (Append i b) d)"
  by (auto simp: durable_def map_option_upd the_other)

lemma fsync_durable: "durable p x d \<Longrightarrow> durable p x (fs_step (Fsync i) d)"
  by (auto simp: durable_def)

lemma fsyncdir_durable: "durable p x d \<Longrightarrow> durable p x (fs_step FsyncDir d)"
  by (auto simp: durable_def)

lemma unlink_durable: "durable p x d \<Longrightarrow> p \<noteq> q \<Longrightarrow> durable p x (fs_step (Unlink q) d)"
  by (auto simp: durable_def set_names_def)

lemma rename_durable:
  "durable p x d \<Longrightarrow> p \<noteq> q \<Longrightarrow> p \<noteq> r \<Longrightarrow> durable p x (fs_step (Rename q r) d)"
  by (auto simp: durable_def set_names_def)

lemma take_cases:
  "take k (atomic_write tmp i path content) \<in>
     {[], [Create tmp i], [Create tmp i, Append i content], [Create tmp i, Append i content, Fsync i],
      [Create tmp i, Append i content, Fsync i, Rename tmp path], atomic_write tmp i path content}"
  by (auto simp: atomic_write_def take_Cons split: nat.splits)

lemma before_rename:
  assumes "durable p x d" "p \<noteq> tmp" "fresh_inode i d"
  shows "durable p x (fs_run [Create tmp i] d)"
    and "durable p x (fs_run [Create tmp i, Append i b] d)"
    and "durable p x (fs_run [Create tmp i, Append i b, Fsync i] d)"
proof -
  show 1: "durable p x (fs_run [Create tmp i] d)"
    using create_durable [OF assms] by (simp add: fs_run_def)
  have "n p \<noteq> Some i" if "n \<in> set (dk_journal (fs_run [Create tmp i] d))" for n
    using that assms by (auto simp: fs_run_def set_names_def fresh_inode_def)
  with 1 have "durable p x (fs_step (Append i b) (fs_run [Create tmp i] d))" by (rule data_durable)
  then show 2: "durable p x (fs_run [Create tmp i, Append i b] d)" by (simp add: fs_run_def)
  from fsync_durable [OF 2, of i] show "durable p x (fs_run [Create tmp i, Append i b, Fsync i] d)"
    by (simp add: fs_run_def)
qed

lemma after_rename:
  assumes "durable path x d" "path \<noteq> tmp" "fresh_inode i d"
    and e0: "e = fs_run [Create tmp i, Append i b, Fsync i, Rename tmp path] d"
  shows "\<And>y. crash_read path e y \<Longrightarrow> y = x \<or> y = Some b" "read_file path e = Some b"
    "durable path (Some b) (fs_step FsyncDir e)"
proof -
  define d1 where "d1 = fs_run [Create tmp i, Append i b, Fsync i] d"
  have d1: "durable path x d1" using before_rename(3) [OF assms(1-3)] by (simp add: d1_def)
  have i: "dk_names d1 tmp = Some i" "dk_data d1 i = b" "dk_synced d1 i"
    by (simp_all add: d1_def fs_run_def set_names_def)
  have e: "e = fs_step (Rename tmp path) d1" by (simp add: e0 d1_def fs_run_def)
  show "y = x \<or> y = Some b" if "crash_read path e y" for y
  proof -
    have "y = Some b \<or> crash_read path d1 y"
      using that i assms(2) by (auto simp: e set_names_def crash_read_def)
    then show ?thesis using durable_crash_read [OF d1] by blast
  qed
  show "read_file path e = Some b" "durable path (Some b) (fs_step FsyncDir e)"
    using i assms(2) by (auto simp: e set_names_def read_file_def durable_def)
qed

lemma partial_write:
  assumes "durable path old d" "path \<noteq> tmp" "fresh_inode i d"
    and "crash_read path (fs_run (take k (atomic_write tmp i path content)) d) x"
  shows "x = old \<or> x = Some content"
proof -
  note b = before_rename(1) [OF assms(1-3)] before_rename(2,3) [OF assms(1-3), where b = content]
    after_rename [OF assms(1-3) refl, where b = content]
  have "durable path (Some content) (fs_run (atomic_write tmp i path content) d)"
    using b(6) by (simp add: fs_run_def atomic_write_def)
  then show ?thesis
    using take_cases [of k tmp i path content] b(1-3) assms(1,4)
    by (auto simp: durable_crash_read fs_run_def [of "[]"] dest: b(4))
qed

lemma finished_write:
  assumes "durable path old d" "path \<noteq> tmp" "fresh_inode i d"
  shows "durable path (Some content) (fs_run (atomic_write tmp i path content) d)"
  using after_rename(3) [OF assms refl, where b = content] by (simp add: fs_run_def atomic_write_def)

lemma failed_write_durable:
  assumes "durable path old d" "path \<noteq> tmp" "fresh_inode i d" "k \<le> 3"
  shows "durable path old (failed_write k tmp i path content d)"
proof -
  have "take k (atomic_write tmp i path content) \<in>
     {[], [Create tmp i], [Create tmp i, Append i content], [Create tmp i, Append i content, Fsync i]}"
    using assms(4) by (auto simp: atomic_write_def take_Cons numeral_eq_Suc split: nat.splits)
  then have "durable path old (fs_run (take k (atomic_write tmp i path content)) d)"
    using before_rename(1) [OF assms(1-3)] before_rename(2,3) [OF assms(1-3), where b = content] assms(1)
    by (auto simp: fs_run_def [of "[]"])
  then show ?thesis
    using unlink_durable [OF _ assms(2)] by (simp add: failed_write_def Let_def del: fs_step.simps)
qed

text \<open>
   Replacing a file is atomic.  Whatever the file was (or that it did not exist), a crash after
  any number of the steps leaves either the old octets or the new ones complete, never a mixture
  or a truncated file; once the write has returned, only the new octets can be found; and a write
  that fails before the rename leaves the old octets and no temporary file.
\<close>

theorem atomic_write_is_atomic:
  assumes "durable path old d" and "path \<noteq> tmp" and "fresh_inode i d"
  shows "(\<forall>x. crash_read path (fs_run (take k (atomic_write tmp i path content)) d) x \<longrightarrow>
       x = old \<or> x = Some content)
    \<and> (crash_read path (fs_run (atomic_write tmp i path content) d) y \<longleftrightarrow> y = Some content)
    \<and> (k \<le> 3 \<longrightarrow> read_file path (failed_write k tmp i path content d) = old
        \<and> (crash_read path (failed_write k tmp i path content d) y \<longleftrightarrow> y = old))
    \<and> dk_names (failed_write k tmp i path content d) tmp = None"
  using partial_write [OF assms] durable_crash_read [OF finished_write [OF assms]]
    durable_read [OF failed_write_durable [OF assms]]
    durable_crash_read [OF failed_write_durable [OF assms]]
  by (auto simp: failed_write_def Let_def set_names_def)

definition old_disk :: disk where
  "old_disk = \<lparr>dk_names = [''a.enc'' \<mapsto> 1], dk_journal = [[''a.enc'' \<mapsto> 1]],
     dk_data = (\<lambda>_. ''old''), dk_synced = (\<lambda>_. True)\<rparr>"

lemma old_disk_ok:
  "durable ''a.enc'' (Some ''old'') old_disk" "fresh_inode 2 old_disk"
  by (auto simp: durable_def fresh_inode_def old_disk_def)

theorem atomic_write_is_atomic_witness:
  "\<not> crash_read ''a.enc'' (fs_run (take 4 (atomic_write ''t'' 2 ''a.enc'' ''new'')) old_disk) (Some ''ne'')
   \<and> crash_read ''a.enc'' (fs_run (atomic_write ''t'' 2 ''a.enc'' ''new'') old_disk) (Some ''new'')"
  using atomic_write_is_atomic [OF old_disk_ok(1) _ old_disk_ok(2), of "''t''" 4 "''new''" "Some ''new''"]
  by (auto dest!: spec [of _ "Some ''ne''"])

section \<open>The vault\<close>

text \<open>What Fernet and JSON promise.\<close>

definition vault_lib_ok :: "vault_lib \<Rightarrow> json \<Rightarrow> bool" where
  "vault_lib_ok lib v = ((\<forall>k b. vl_decrypt lib k (vl_encrypt lib k b) = Some b) \<and>
     vl_loads lib (vl_dumps lib v) = Some v)"

lemma decode_written:
  "vault_lib_ok lib v \<Longrightarrow> decode_record lib key (Some (vl_encrypt lib key (vl_dumps lib v))) = Inr v"
  by (simp add: vault_lib_ok_def decode_record_def)

lemma other_file:
  "q \<noteq> path \<Longrightarrow> q \<noteq> tmp \<Longrightarrow> fresh_inode i d \<Longrightarrow>
     read_file q (fs_run (atomic_write tmp i path content) d) = read_file q d"
  by (cases "dk_names d q")
    (auto simp: read_file_def fs_run_def atomic_write_def set_names_def fresh_inode_def)

text \<open>
  C28: The vault gives back what it stored.  After a write, the record reads as the value written,
  every other record reads as before, and a process that starts after a crash at any point of the
  write reads the old value or the new one.
\<close>

theorem vault_roundtrip:
  assumes "vault_lib_ok lib v" and "durable (record_file name) old d" and "fresh_inode i d"
    and "record_file name \<noteq> tmp"
  shows "vault_read lib key name (fs_run (vault_write lib key tmp i name v) d) = Inr v
    \<and> (other \<noteq> name \<and> record_file other \<noteq> tmp \<longrightarrow>
         vault_read lib key other (fs_run (vault_write lib key tmp i name v) d) = vault_read lib key other d)
    \<and> (\<forall>x. crash_read (record_file name) (fs_run (take k (vault_write lib key tmp i name v)) d) x \<longrightarrow>
         decode_record lib key x \<in> {decode_record lib key old, Inr v})"
proof -
  define b where "b = vl_encrypt lib key (vl_dumps lib v)"
  have v: "decode_record lib key (Some b) = Inr v" unfolding b_def by (rule decode_written [OF assms(1)])
  have "read_file (record_file name) (fs_run (vault_write lib key tmp i name v) d) = Some b"
    unfolding vault_write_def b_def [symmetric] by (rule durable_read [OF finished_write [OF assms(2,4,3)]])
  moreover have "other \<noteq> name \<Longrightarrow> record_file other \<noteq> record_file name" by (simp add: record_file_def)
  ultimately show ?thesis
    using partial_write [OF assms(2,4,3), of k b] v
      other_file [of "record_file other" "record_file name" tmp i d b] assms(3)
    by (auto simp: vault_read_def vault_write_def b_def [symmetric])
qed

definition plain_vault :: vault_lib where
  "plain_vault = \<lparr>vl_encrypt = (\<lambda>k b. k @ b), vl_decrypt = (\<lambda>k b. Some (drop (length k) b)),
     vl_dumps = (\<lambda>v. case v of JStr s \<Rightarrow> s | _ \<Rightarrow> []), vl_loads = (\<lambda>b. Some (JStr b)),
     vl_scrypt = (\<lambda>p s. take 3 p @ s)\<rparr>"

theorem vault_roundtrip_witness:
  "vault_read plain_vault ''k'' ''a'' (fs_run (vault_write plain_vault ''k'' ''t'' 2 ''a'' (JStr ''v'')) old_disk)
     = Inr (JStr ''v'')"
proof -
  have "vault_lib_ok plain_vault (JStr ''v'')" by (simp add: vault_lib_ok_def plain_vault_def)
  moreover have "durable (record_file ''a'') (Some ''old'') old_disk"
    using old_disk_ok(1) by (simp add: record_file_def)
  ultimately show ?thesis
    using vault_roundtrip [of plain_vault "JStr ''v''" "''a''" "Some ''old''" old_disk 2 "''t''" "''k''"]
      old_disk_ok(2) by (simp add: record_file_def)
qed

section \<open>The password\<close>

lemma b64_alphabet_chars: "b64_char a b c d e f \<in> set b64_alphabet"
  by (cases a; cases b; cases c; cases d; cases e; cases f; simp add: b64_char_def b64_alphabet_def)

lemma b64_valid_cons:
  assumes "CHR ''='' \<notin> set q" "set q \<subseteq> set b64_alphabet" "length q = 4" "b64_valid s"
  shows "b64_valid (q @ s)"
proof -
  have "takeWhile (\<lambda>c. c \<noteq> CHR ''='') (q @ s) = q @ takeWhile (\<lambda>c. c \<noteq> CHR ''='') s"
    using assms(1) by (subst takeWhile_append2) auto
  then show ?thesis using assms by (auto simp: b64_valid_def Let_def)
qed

lemma b64_valid_encode: "b64_valid (b64encode m)"
proof (induction m rule: b64encode.induct)
  case (4 a0 a1 a2 a3 a4 a5 a6 a7 b0 b1 b2 b3 b4 b5 b6 b7 c0 c1 c2 c3 c4 c5 c6 c7 rest)
  have "b64_valid ([b64_char a7 a6 a5 a4 a3 a2, b64_char a1 a0 b7 b6 b5 b4,
      b64_char b3 b2 b1 b0 c7 c6, b64_char c5 c4 c3 c2 c1 c0] @ b64encode rest)"
    by (rule b64_valid_cons) (use 4 b64_char_ne(1) in \<open>auto simp: b64_alphabet_chars dest: sym\<close>)
  then show ?case by simp
qed (simp_all add: b64_valid_def Let_def b64_alphabet_chars)

text \<open>
   The administration password.  A record made by \<open>hash_password\<close> accepts a password exactly if
  it is at most 1024 characters long and has the same scrypt hash under the stored salt.  So the
  hashed password itself is accepted, unless it is longer than 1024 characters: \<open>init\<close> and
  \<open>reset-admin\<close> take such a password, and then no login succeeds with it.
\<close>

theorem password_check:
  assumes "hash_password lib salt password = Inr stored"
  shows "12 \<le> length password \<and> (verify_password lib attempt stored \<longleftrightarrow>
      int (length attempt) \<le> 1024 \<and> vl_scrypt lib attempt salt = vl_scrypt lib password salt)"
  using assms
  by (auto simp: hash_password_def verify_password_def b64_strict_def b64_valid_encode b64_roundtrip
      split: if_splits)

definition long_password :: string where
  "long_password = replicate 1025 CHR ''p''"

theorem password_check_witness:
  "\<exists>stored. hash_password plain_vault ''s'' long_password = Inr stored
     \<and> \<not> verify_password plain_vault long_password stored"
proof -
  have n: "length long_password = 1025" by (simp add: long_password_def)
  then obtain stored where "hash_password plain_vault ''s'' long_password = Inr stored"
    by (auto simp: hash_password_def)
  from this password_check [OF this, of long_password] show ?thesis using n by auto
qed

end
