(* ===== verification/Gw_Web_Auth.thy ===== *)
theory Gw_Web_Auth
  imports Gw_Vault
begin

text \<open>
  \<open>web.py\<close>, access to the administration page: sessions, the limiter of sign-in attempts, and the
  checks of the \<open>boundary\<close> middleware that every request passes.
\<close>

section \<open>Requests and responses\<close>

text \<open>
  A request as aiohttp hands it over.  \<open>hq_json\<close> is what \<open>await request.json()\<close> gives, or the
  exception it raises; \<open>hq_query\<close> lists the query's pairs in order.
\<close>

datatype failure = Http int string | Raised exn

record http_request =
  hq_method :: string
  hq_host :: string
  hq_path :: string
  hq_cookie :: string
  hq_origin :: "string option"
  hq_content_type :: string
  hq_csrf :: string
  hq_remote :: "string option"
  hq_forwarded :: string
  hq_query :: "(string \<times> string) list"
  hq_json :: "failure + json"

datatype http_body = BJson json | BBytes bytes string | BEmpty

datatype cookie = SetCookie string bool int string | DelCookie string

record http_response =
  hr_status :: int
  hr_body :: http_body
  hr_headers :: "(string \<times> string) list"
  hr_cookie :: "cookie option"

definition json_response :: "int \<Rightarrow> json \<Rightarrow> http_response" where
  "json_response st j = \<lparr>hr_status = st, hr_body = BJson j, hr_headers = [], hr_cookie = None\<rparr>"

definition error_response :: "int \<Rightarrow> string \<Rightarrow> http_response" where
  "error_response st t = json_response st (JObj [(''error'', JStr t)])"

text \<open>The \<open>except\<close> clauses of the middleware.\<close>

definition failure_response :: "failure \<Rightarrow> http_response" where
  "failure_response f = (case f of
      Http st t \<Rightarrow> error_response st t
    | Raised (ValueError t) \<Rightarrow> error_response 400 t
    | Raised (MessageRejected t) \<Rightarrow> error_response 400 t
    | Raised (AuthenticationRequired t) \<Rightarrow> error_response 400 t
    | Raised (AdditionalAuthenticationRequired t) \<Rightarrow> error_response 400 t
    | Raised (Retryable t d g) \<Rightarrow> error_response 503 t
    | Raised e \<Rightarrow> error_response 500 ''Administrative operation failed; check local service health'')"

section \<open>URLs\<close>

text \<open>
  \<open>wl_urlsplit\<close>: scheme, network location, path and query of a URL; \<open>wl_parse_qsl\<close>: the pairs of a
  query; \<open>wl_ip\<close>: \<open>str(ipaddress.ip_address(text))\<close>; \<open>wl_static\<close>: the page's files.
\<close>

record web_lib =
  wl_urlsplit :: "string \<Rightarrow> (string \<times> string \<times> string \<times> string) option"
  wl_parse_qsl :: "string \<Rightarrow> (string \<times> string) list"
  wl_ip :: "string \<Rightarrow> string option"
  wl_static :: "string \<Rightarrow> bytes"

definition base_parts :: "web_lib \<Rightarrow> config \<Rightarrow> string \<times> string \<times> string \<times> string" where
  "base_parts lib cfg = (case wl_urlsplit lib (web_base_url (cfg_web cfg)) of
     None \<Rightarrow> ([], [], [], []) | Some p \<Rightarrow> p)"

definition url_prefix :: "web_lib \<Rightarrow> config \<Rightarrow> string" where
  "url_prefix lib cfg = (case base_parts lib cfg of (s, n, p, q) \<Rightarrow> rstrip_char (CHR 0x2F) p)"

definition base_netloc :: "web_lib \<Rightarrow> config \<Rightarrow> string" where
  "base_netloc lib cfg = (case base_parts lib cfg of (s, n, p, q) \<Rightarrow> n)"

definition url_origin :: "web_lib \<Rightarrow> config \<Rightarrow> string" where
  "url_origin lib cfg = (case base_parts lib cfg of (s, n, p, q) \<Rightarrow> s @ ''://'' @ n)"

definition is_https :: "config \<Rightarrow> bool" where
  "is_https cfg = is_prefix ''https://'' (web_base_url (cfg_web cfg))"

section \<open>Sessions\<close>

record admin_session =
  sn_csrf :: string
  sn_expires :: rat
  sn_flow :: "login_flow option"
  sn_kind :: string

type_synonym sessions = "(string \<times> admin_session) list"

definition live_sessions :: "rat \<Rightarrow> sessions \<Rightarrow> sessions" where
  "live_sessions now ss = filter (\<lambda>p. sn_expires (snd p) > now) ss"

text \<open>A new session; with 64 of them, the oldest one goes.\<close>

definition add_session :: "string \<Rightarrow> admin_session \<Rightarrow> sessions \<Rightarrow> sessions" where
  "add_session i s ss = AList.update i s (if length ss \<ge> 64 then tl ss else ss)"

section \<open>The limiter\<close>

text \<open>\<open>attempts\<close>: client keys with the times of their attempts, in the order of the dictionary.\<close>

type_synonym attempts = "(string \<times> rat list) list"

definition login_window :: rat where "login_window = 900"
definition login_per_client :: nat where "login_per_client = 5"
definition login_global :: nat where "login_global = 40"

definition attempts_of :: "string \<Rightarrow> attempts \<Rightarrow> rat list" where
  "attempts_of k t = (case map_of t k of None \<Rightarrow> [] | Some l \<Rightarrow> l)"

definition purge_attempts :: "rat \<Rightarrow> attempts \<Rightarrow> attempts" where
  "purge_attempts now t = filter (\<lambda>p. snd p \<noteq> [])
     (map (\<lambda>p. (fst p, dropWhile (\<lambda>x. x < now - login_window) (snd p))) t)"

text \<open>Looking a key up in the \<open>defaultdict\<close> enters it.\<close>

definition touch :: "string \<Rightarrow> attempts \<Rightarrow> attempts" where
  "touch k t = (if map_of t k = None then t @ [(k, [])] else t)"

definition total_attempts :: "attempts \<Rightarrow> nat" where
  "total_attempts t = sum_list (map (\<lambda>p. length (snd p)) t)"

text \<open>\<open>min(attempts[0] for attempts in self.attempts.values())\<close>: an empty deque is an \<open>IndexError\<close>.\<close>

definition earliest_head :: "attempts \<Rightarrow> rat res" where
  "earliest_head t = (if list_ex (\<lambda>p. snd p = []) t then Inl IndexError
     else case map (\<lambda>p. hd (snd p)) t of
         [] \<Rightarrow> Inl (ValueError ''min() iterable argument is empty'')
       | x # xs \<Rightarrow> Inr (fold min xs x))"

text \<open>The times whose later one the client must wait for.\<close>

definition blocking_times :: "bool \<Rightarrow> bool \<Rightarrow> string \<Rightarrow> attempts \<Rightarrow> rat list res" where
  "blocking_times client global k t =
     (let mine = (if client then [hd (attempts_of k t)] else [])
      in if global then bind_res (earliest_head t) (\<lambda>x. Inr (mine @ [x])) else Inr mine)"

definition wait_seconds :: "rat \<Rightarrow> rat list \<Rightarrow> int" where
  "wait_seconds now xs = max 1 \<lceil>login_window - (now - fold max (tl xs) (hd xs))\<rceil>"

text \<open>The decision on an attempt: admitted (\<open>None\<close>), or refused with the time to wait.\<close>

definition limit_login :: "rat \<Rightarrow> string \<Rightarrow> attempts \<Rightarrow> attempts \<times> int option res" where
  "limit_login now k t0 =
     (let t = touch k t0;
          client = (length (attempts_of k t) \<ge> login_per_client);
          global = (total_attempts t \<ge> login_global)
      in if client \<or> global
         then (t, bind_res (blocking_times client global k t) (\<lambda>xs. Inr (Some (wait_seconds now xs))))
         else (AList.update k (attempts_of k t @ [now]) t, Inr None))"

definition client_key :: "web_lib \<Rightarrow> config \<Rightarrow> http_request \<Rightarrow> failure + string" where
  "client_key lib cfg req =
     (let peer = (case hq_remote req of Some (c # cs) \<Rightarrow> c # cs | _ \<Rightarrow> ''unknown'') in
      if peer \<notin> set (web_trusted_proxy_ips (cfg_web cfg)) then Inr peer
      else if hq_forwarded req = [] then Inr peer
      else case wl_ip lib (strip (rev (takeWhile (\<lambda>c. c \<noteq> CHR '','') (rev (hq_forwarded req))))) of
          None \<Rightarrow> Inl (Http 400 ''Invalid forwarded client address'')
        | Some a \<Rightarrow> Inr a)"

section \<open>The checks of \<open>boundary\<close>\<close>

definition public_paths :: "string \<Rightarrow> string list" where
  "public_paths prefix =
     map (\<lambda>p. prefix @ p) [''/'', ''/app.js'', ''/style.css'', ''/api/login'', ''/health/live'', ''/health/ready''] @
     (if prefix \<noteq> [] then [prefix] else [])"

definition safe_method :: "string \<Rightarrow> bool" where
  "safe_method m = (m = ''GET'' \<or> m = ''HEAD'')"

text \<open>Host and path, before the sessions are looked at.\<close>

definition check_target :: "web_lib \<Rightarrow> config \<Rightarrow> http_request \<Rightarrow> failure + unit" where
  "check_target lib cfg req =
     (let prefix = url_prefix lib cfg in
      if casefold (hq_host req) \<noteq> casefold (base_netloc lib cfg)
      then Inl (Http 400 ''Unexpected Host header'')
      else if prefix \<noteq> [] \<and> hq_path req \<noteq> prefix \<and> \<not> is_prefix (prefix @ ''/'') (hq_path req)
      then Inl (Http 404 ''Unknown administration path'')
      else Inr ())"

text \<open>Authentication, origin, content type and CSRF token; \<open>session\<close> is the live session of the
  cookie.  \<open>hmac.compare_digest\<close> raises on text that is not ASCII.\<close>

definition check_access ::
  "web_lib \<Rightarrow> config \<Rightarrow> http_request \<Rightarrow> admin_session option \<Rightarrow> failure + unit" where
  "check_access lib cfg req session =
     (let prefix = url_prefix lib cfg in
      if hq_path req \<notin> set (public_paths prefix) \<and> session = None
      then Inl (Http 401 ''Administration login required'')
      else if safe_method (hq_method req) then Inr ()
      else if hq_origin req \<noteq> Some (url_origin lib cfg)
      then Inl (Http 403 ''Same-origin request required'')
      else if hq_content_type req \<noteq> ''application/json''
      then Inl (Http 415 ''Use application/json'')
      else if hq_path req = prefix @ ''/api/login'' then Inr ()
      else case session of
          None \<Rightarrow> Inl (Http 403 ''CSRF validation failed'')
        | Some s \<Rightarrow>
            if list_ex non_ascii (hq_csrf req @ sn_csrf s) then Inl (Raised (OtherExc ''TypeError''))
            else if hq_csrf req \<noteq> sn_csrf s then Inl (Http 403 ''CSRF validation failed'')
            else Inr ())"

text \<open>\<open>_secure\<close>: headers every response gets.\<close>

definition in_quotes :: "string \<Rightarrow> string" where
  "in_quotes s = [CHR 0x27] @ s @ [CHR 0x27]"

definition page_policy :: string where
  "page_policy =
     ''default-src '' @ in_quotes ''none'' @ ''; script-src '' @ in_quotes ''self'' @
     ''; style-src '' @ in_quotes ''self'' @ ''; connect-src '' @ in_quotes ''self'' @
     ''; img-src '' @ in_quotes ''self'' @ ''; base-uri '' @ in_quotes ''none'' @
     ''; frame-ancestors '' @ in_quotes ''none'' @ ''; form-action '' @ in_quotes ''self''"

definition secure_headers :: "config \<Rightarrow> (string \<times> string) list" where
  "secure_headers cfg =
     [(''Cache-Control'', ''no-store''),
      (''Content-Security-Policy'', page_policy),
      (''X-Content-Type-Options'', ''nosniff''), (''Referrer-Policy'', ''no-referrer''),
      (''X-Frame-Options'', ''DENY''), (''X-Robots-Tag'', ''noindex, nofollow, noarchive'')] @
     (if is_https cfg then [(''Strict-Transport-Security'', ''max-age=31536000'')] else [])"

text \<open>\<open>response.headers.update\<close>: a header that is there already is replaced.\<close>

definition secure :: "config \<Rightarrow> http_response \<Rightarrow> http_response" where
  "secure cfg r = r\<lparr>hr_headers := fold (\<lambda>(k, v). AList.update k v) (secure_headers cfg) (hr_headers r)\<rparr>"

end
