(* ===== verification/Gw_Web.thy ===== *)
theory Gw_Web
  imports Gw_Web_Auth Gw_Additional Gw_Delivery Gw_Store_Reads Gw_Listener
begin

text \<open>
  \<open>web.py\<close>: the administration handlers, over the state of the whole gateway, and the dispatch of a
  request.  A handler is one function: its network calls, vault writes and random values are its
  environment.
\<close>

section \<open>The gateway's state\<close>

record gateway =
  gw_sessions :: sessions
  gw_attempts :: attempts
  gw_tokens :: token_state
  gw_additional :: "additional_state option"
  gw_dispatcher :: dispatcher
  gw_smtp :: listener
  gw_accepting :: bool
  gw_admin :: password_record

text \<open>
  What a handler gets from outside: the clock, free disk space and database size, fresh session
  ID and CSRF token, the random values and replies of a login, whether the vault can be written
  (for tokens and for the choice of the sender), and the SMTP port.
\<close>

record web_env =
  we_now :: rat
  we_free :: int
  we_db_bytes :: int
  we_session_id :: string
  we_csrf :: string
  we_random :: login_random
  we_login :: login_env
  we_write_ok :: bool
  we_choice_ok :: bool
  we_smtp_port :: int

record web_world =
  ww_web :: web_lib
  ww_oauth :: oauth_lib
  ww_vault :: vault_lib
  ww_cfg :: config

type_synonym handled = "gateway \<times> (failure + http_response)"

definition ok_response :: http_response where
  "ok_response = json_response 200 (JObj [(''ok'', JBool True)])"

section \<open>JSON access\<close>

text \<open>\<open>payload.get(key, default)\<close>; only a dictionary has \<open>get\<close>.\<close>

definition payload_get :: "string \<Rightarrow> json \<Rightarrow> json \<Rightarrow> failure + json" where
  "payload_get k d j = (case j of
      JObj kvs \<Rightarrow> Inr (case obj_get k kvs of None \<Rightarrow> d | Some v \<Rightarrow> v)
    | _ \<Rightarrow> Inl (Raised (OtherExc ''AttributeError'')))"

text \<open>\<open>key in payload\<close>, and then \<open>payload[key]\<close>: \<open>None\<close> if it is not in it.\<close>

definition payload_item :: "string \<Rightarrow> json \<Rightarrow> failure + json option" where
  "payload_item k j = (case j of
      JObj kvs \<Rightarrow> Inr (obj_get k kvs)
    | JList xs \<Rightarrow> if JStr k \<in> set xs then Inl (Raised (OtherExc ''TypeError'')) else Inr None
    | JStr s \<Rightarrow> if is_infix k s then Inl (Raised (OtherExc ''TypeError'')) else Inr None
    | _ \<Rightarrow> Inl (Raised (OtherExc ''TypeError'')))"

definition bind_fail :: "failure + 'a \<Rightarrow> ('a \<Rightarrow> failure + 'b) \<Rightarrow> failure + 'b" where
  "bind_fail m f = (case m of Inl e \<Rightarrow> Inl e | Inr x \<Rightarrow> f x)"

definition lift_res :: "'a res \<Rightarrow> failure + 'a" where
  "lift_res r = (case r of Inl e \<Rightarrow> Inl (Raised e) | Inr x \<Rightarrow> Inr x)"

section \<open>Signing in and out\<close>

text \<open>After the limiter: the password, and a new session.\<close>

definition check_password :: "web_world \<Rightarrow> http_request \<Rightarrow> password_record \<Rightarrow> failure + bool" where
  "check_password w req stored =
     bind_fail (hq_json req) (\<lambda>j.
     bind_fail (payload_get ''password'' (JStr []) j) (\<lambda>v. case v of
         JStr p \<Rightarrow> Inr (verify_password (ww_vault w) p stored)
       | _ \<Rightarrow> Inl (Raised (ValueError ''Password must be a string''))))"

definition open_session :: "web_world \<Rightarrow> web_env \<Rightarrow> gateway \<Rightarrow> handled" where
  "open_session w env g =
     (let s = \<lparr>sn_csrf = we_csrf env,
               sn_expires = we_now env + of_int (web_session_seconds (cfg_web (ww_cfg w))),
               sn_flow = None, sn_kind = ''original''\<rparr>
      in (g\<lparr>gw_sessions := add_session (we_session_id env) s (gw_sessions g)\<rparr>,
          Inr ((json_response 200 (JObj [(''csrf'', JStr (sn_csrf s))]))\<lparr>hr_cookie :=
            Some (SetCookie (we_session_id env) (is_https (ww_cfg w))
              (web_session_seconds (cfg_web (ww_cfg w))) (url_prefix (ww_web w) (ww_cfg w) @ ''/''))\<rparr>)))"

text \<open>Text of a positive integer, for \<open>Retry-After\<close>.\<close>

definition int_text :: "int \<Rightarrow> string" where
  "int_text n = dec_text n"

definition sign_in :: "web_world \<Rightarrow> web_env \<Rightarrow> http_request \<Rightarrow> gateway \<Rightarrow> handled" where
  "sign_in w env req g =
     (let g1 = g\<lparr>gw_attempts := purge_attempts (we_now env) (gw_attempts g)\<rparr> in
      case client_key (ww_web w) (ww_cfg w) req of
        Inl f \<Rightarrow> (g1, Inl f)
      | Inr key \<Rightarrow>
          (case limit_login (we_now env) key (gw_attempts g1) of
             (t, Inl e) \<Rightarrow> (g1\<lparr>gw_attempts := t\<rparr>, Inl (Raised e))
           | (t, Inr (Some wait)) \<Rightarrow> (g1\<lparr>gw_attempts := t\<rparr>,
                Inr ((error_response 429 ''Too many sign-in attempts; try again later'')
                       \<lparr>hr_headers := [(''Retry-After'', int_text wait)]\<rparr>))
           | (t, Inr None) \<Rightarrow>
               let g2 = g1\<lparr>gw_attempts := t\<rparr> in
               (case check_password w req (gw_admin g2) of
                  Inl f \<Rightarrow> (g2, Inl f)
                | Inr False \<Rightarrow> (g2, Inr (error_response 401 ''Invalid administration password''))
                | Inr True \<Rightarrow> open_session w env g2)))"

definition sign_out :: "web_world \<Rightarrow> http_request \<Rightarrow> gateway \<Rightarrow> handled" where
  "sign_out w req g =
     (g\<lparr>gw_sessions := AList.delete (hq_cookie req) (gw_sessions g)\<rparr>,
      Inr (ok_response\<lparr>hr_cookie := Some (DelCookie (url_prefix (ww_web w) (ww_cfg w) @ ''/''))\<rparr>))"

definition session_info :: "admin_session \<Rightarrow> gateway \<Rightarrow> handled" where
  "session_info s g = (g, Inr (json_response 200 (JObj [(''csrf'', JStr (sn_csrf s))])))"

section \<open>The queue\<close>

definition known_statuses :: "string list" where
  "known_statuses = ['''', ''queued'', ''sending'', ''submitted'', ''retry'', ''failed'', ''uncertain'', ''cancelled'']"

definition query_get :: "string \<Rightarrow> string \<Rightarrow> http_request \<Rightarrow> string" where
  "query_get k d req = (case map_of (hq_query req) k of None \<Rightarrow> d | Some v \<Rightarrow> v)"

definition is_finite :: "pyfloat \<Rightarrow> bool" where
  "is_finite x = (case x of Fin r \<Rightarrow> True | _ \<Rightarrow> False)"

text \<open>The page the query asks for.\<close>

definition page_query :: "http_request \<Rightarrow> failure + string \<times> pyfloat option \<times> string" where
  "page_query req =
     (let st = query_get ''status'' [] req in
      if st \<notin> set known_statuses then Inl (Raised (ValueError ''Unknown message status''))
      else case map_of (hq_query req) ''before'' of
          None \<Rightarrow> Inr (st, None, query_get ''before_id'' [] req)
        | Some t \<Rightarrow>
            (case parse_float t of
               None \<Rightarrow> Inl (Raised (ValueError ''could not convert string to float''))
             | Some x \<Rightarrow> if \<not> is_finite x then Inl (Raised (ValueError ''Invalid pagination cursor''))
                 else Inr (st, Some x, query_get ''before_id'' [] req)))"

definition num :: "int \<Rightarrow> json" where "num n = JNum (Fin (of_int n))"
definition real_num :: "rat \<Rightarrow> json" where "real_num x = JNum (Fin x)"

definition view_json :: "message_view \<Rightarrow> json" where
  "view_json v = JObj [(''id'', JStr (mv_id v)), (''created'', real_num (mv_created v)),
     (''updated'', real_num (mv_updated v)), (''status'', JStr (mv_status v)),
     (''attempts'', num (int (mv_attempts v))), (''original_from'', JStr (mv_original_from v)),
     (''recipient_count'', num (int (mv_recipient_count v))), (''subject'', JStr (mv_subject v)),
     (''message_id'', JStr (mv_message_id v)), (''nat'', num (of_bool (mv_nat v))),
     (''size'', num (int (mv_size v))), (''error'', JStr (mv_error v)),
     (''next_attempt'', JNum (mv_next_attempt v))]"

definition list_messages :: "http_request \<Rightarrow> gateway \<Rightarrow> handled" where
  "list_messages req g =
     (g, bind_fail (page_query req) (\<lambda>(st, before, bid). Inr (json_response 200
           (JList (map view_json (message_page st 100 before bid (dp_db (gw_dispatcher g))))))))"

definition export_message :: "string \<Rightarrow> gateway \<Rightarrow> handled" where
  "export_message i g =
     (g, case export_mime i (dp_db (gw_dispatcher g)) of
           None \<Rightarrow> Inl (Http 404 ''Message body is unavailable; submitted/cancelled bodies are removed'')
         | Some m \<Rightarrow> Inr \<lparr>hr_status = 200, hr_body = BBytes m ''message/rfc822'',
             hr_headers = [(''Content-Disposition'',
               ''attachment; filename='' @ dq @ ''queued-message.eml'' @ dq)], hr_cookie = None\<rparr>)"

definition act_on_message :: "web_env \<Rightarrow> string \<Rightarrow> string \<Rightarrow> http_request \<Rightarrow> gateway \<Rightarrow> handled" where
  "act_on_message env i action req g =
     (case bind_fail (hq_json req) (\<lambda>j. bind_fail (payload_get ''acknowledge_duplicate'' JNull j)
            (\<lambda>v. lift_res (act (we_now env) i action (v = JBool True) (dp_db (gw_dispatcher g))))) of
        Inl f \<Rightarrow> (g, Inl f)
      | Inr d \<Rightarrow> (g\<lparr>gw_dispatcher := (gw_dispatcher g)\<lparr>dp_db := d\<rparr>\<rparr>, Inr ok_response))"

text \<open>\<open>control\<close>: the rate takes effect before the pause is looked at.\<close>

definition control_rate :: "json \<Rightarrow> dispatcher \<Rightarrow> failure + dispatcher" where
  "control_rate j s =
     bind_fail (payload_item ''rate'' j) (\<lambda>r. case r of
        None \<Rightarrow> Inr s
      | Some (JBool b) \<Rightarrow> Inl (Raised (ValueError ''Invalid rate''))
      | Some v \<Rightarrow> bind_fail (lift_res (json_float v)) (\<lambda>x. lift_res (set_rate x s)))"

definition control_pause :: "json \<Rightarrow> dispatcher \<Rightarrow> failure + dispatcher" where
  "control_pause j s =
     bind_fail (payload_item ''paused'' j) (\<lambda>r. case r of
        None \<Rightarrow> Inr s
      | Some (JBool b) \<Rightarrow> Inr (pause b s)
      | Some v \<Rightarrow> Inl (Raised (ValueError ''paused must be a boolean'')))"

definition control :: "http_request \<Rightarrow> gateway \<Rightarrow> handled" where
  "control req g =
     (case hq_json req of
        Inl f \<Rightarrow> (g, Inl f)
      | Inr j \<Rightarrow>
          (case control_rate j (gw_dispatcher g) of
             Inl f \<Rightarrow> (g, Inl f)
           | Inr s1 \<Rightarrow>
               (case control_pause j s1 of
                  Inl f \<Rightarrow> (g\<lparr>gw_dispatcher := s1\<rparr>, Inl f)
                | Inr s2 \<Rightarrow> (g\<lparr>gw_dispatcher := s2\<rparr>, Inr ok_response))))"

section \<open>The accounts\<close>

text \<open>The session object of a request, changed.\<close>

definition set_flow :: "string \<Rightarrow> login_flow option \<Rightarrow> string \<Rightarrow> gateway \<Rightarrow> gateway" where
  "set_flow i flow kind g = g\<lparr>gw_sessions := map (\<lambda>(k, s).
      (k, if k = i then s\<lparr>sn_flow := flow, sn_kind := kind\<rparr> else s)) (gw_sessions g)\<rparr>"

text \<open>The response's \<open>authorization_url\<close>: the address and its parameters.\<close>

definition login_response :: "string \<times> (string \<times> string) list \<Rightarrow> string \<Rightarrow> http_response" where
  "login_response url redirect = json_response 200 (JObj [
     (''authorization_url'', JObj ((''url'', JStr (fst url)) # map (\<lambda>(k, v). (k, JStr v)) (snd url))),
     (''redirect_uri'', JStr redirect)])"

definition begin_account_login :: "web_world \<Rightarrow> web_env \<Rightarrow> http_request \<Rightarrow> gateway \<Rightarrow> handled" where
  "begin_account_login w env req g =
     (if sender_of (ww_cfg w) = [] then (g, Inl (Raised (ValueError ''No legacy sender is configured'')))
      else let (url, flow) = begin_login (ww_cfg w) False (we_random env) (we_now env)
           in (set_flow (hq_cookie req) (Some flow) ''original'' g,
               Inr (login_response url (acc_redirect_uri (cfg_account (ww_cfg w))))))"

definition unavailable :: failure where
  "unavailable = Raised (ValueError ''Additional sending account is unavailable'')"

definition begin_additional_login :: "web_world \<Rightarrow> web_env \<Rightarrow> http_request \<Rightarrow> gateway \<Rightarrow> handled" where
  "begin_additional_login w env req g =
     (let c = additional_config_of (ww_cfg w) in
      case gw_additional g of
        None \<Rightarrow> (g, Inl unavailable)
      | Some st \<Rightarrow>
          (let (url, flow) = begin_login c True (we_random env) (we_now env)
           in (set_flow (hq_cookie req) (Some flow) ''additional'' g,
               Inr (login_response url (acc_redirect_uri (cfg_account c))))))"

text \<open>\<open>_finish\<close>: the flow is taken out of the session before anything else.\<close>

definition finish_login :: "web_world \<Rightarrow> web_env \<Rightarrow> http_request \<Rightarrow> admin_session
    \<Rightarrow> (string \<times> string) list \<Rightarrow> gateway \<Rightarrow> gateway \<times> (failure + unit)" where
  "finish_login w env req s resp g0 =
     (let g = set_flow (hq_cookie req) None (sn_kind s) g0 in
      case sn_flow s of
        None \<Rightarrow> (g, Inl (Raised (ValueError ''Start a new Microsoft login in this browser session'')))
      | Some flow \<Rightarrow>
          if sn_kind s = ''additional'' then
            (case gw_additional g of
               None \<Rightarrow> (g, Inl (Raised (OtherExc ''AttributeError'')))
             | Some st \<Rightarrow>
                 (let (st1, r) = login_additional (ww_oauth w) (ww_cfg w) (we_login env)
                        (we_choice_ok env) flow resp st
                  in (g\<lparr>gw_additional := Some st1\<rparr>, lift_res r)))
          else
            (let (tk, r) = complete_login (ww_oauth w) (ww_cfg w) False (we_login env) flow resp
                   (gw_tokens g)
             in (g\<lparr>gw_tokens := tk\<rparr>, bind_fail (lift_res r) (\<lambda>a. Inr ()))))"

text \<open>The redirect URI the session's login was begun with.\<close>

definition session_redirect :: "web_world \<Rightarrow> admin_session \<Rightarrow> gateway \<Rightarrow> failure + string" where
  "session_redirect w s g =
     (if sn_kind s = ''additional''
      then (case gw_additional g of None \<Rightarrow> Inl (Raised (OtherExc ''AttributeError''))
            | Some st \<Rightarrow> Inr (acc_redirect_uri (cfg_account (additional_config_of (ww_cfg w)))))
      else Inr (acc_redirect_uri (cfg_account (ww_cfg w))))"

definition pasted_url :: "http_request \<Rightarrow> failure + string" where
  "pasted_url req =
     bind_fail (hq_json req) (\<lambda>j.
     bind_fail (payload_get ''redirect_url'' (JStr []) j) (\<lambda>v. case v of
         JStr u \<Rightarrow> if int (length u) > 24000 then Inl (Raised (ValueError ''Invalid redirect URL'')) else Inr u
       | _ \<Rightarrow> Inl (Raised (ValueError ''Invalid redirect URL''))))"

definition split_url :: "web_lib \<Rightarrow> string \<Rightarrow> failure + string \<times> string \<times> string \<times> string" where
  "split_url lib u = (case wl_urlsplit lib u of None \<Rightarrow> Inl (Raised (ValueError ''Invalid URL''))
     | Some p \<Rightarrow> Inr p)"

text \<open>The parameters of the pasted URL, if it is the redirect URI's.\<close>

definition pasted_params ::
  "web_world \<Rightarrow> http_request \<Rightarrow> admin_session \<Rightarrow> gateway \<Rightarrow> failure + (string \<times> string) list" where
  "pasted_params w req s g =
     bind_fail (pasted_url req) (\<lambda>u.
     bind_fail (split_url (ww_web w) u) (\<lambda>(s1, n1, p1, q1).
     bind_fail (session_redirect w s g) (\<lambda>r.
     bind_fail (split_url (ww_web w) r) (\<lambda>(s2, n2, p2, q2).
       if (s1, n1, p1) \<noteq> (s2, n2, p2)
       then Inl (Raised (ValueError
         ''Paste the complete final URL from the configured Microsoft redirect page''))
       else let items = wl_parse_qsl (ww_web w) q1 in
         if \<not> distinct (map fst items)
         then Inl (Raised (ValueError ''Duplicate OAuth callback parameters'')) else Inr items))))"

text \<open>\<open>additional.status()\<close> in a response: the account's status and the addresses.\<close>

definition opt_num :: "rat option \<Rightarrow> json" where
  "opt_num x = (case x of None \<Rightarrow> JNull | Some r \<Rightarrow> real_num r)"

definition account_json :: "account_status \<Rightarrow> json" where
  "account_json s = JObj [(''credential_present'', JBool (as_credential_present s)),
     (''needs_login'', JBool (as_needs_login s)), (''username'', JStr (as_username s)),
     (''credential_origin'', JStr (as_origin s)), (''last_refresh'', opt_num (as_last_refresh s)),
     (''last_error'', JStr (as_last_error s)),
     (''access_expires_at'', case as_access_expires s of None \<Rightarrow> JNull | Some x \<Rightarrow> JNum x)]"

definition sender_json :: "config \<Rightarrow> additional_state option \<Rightarrow> json" where
  "sender_json cfg a = (case a of None \<Rightarrow> JNull
     | Some st \<Rightarrow> (let s = sender_status_of cfg st in JObj [
         (''account'', account_json (sd_account s)),
         (''default_sender'', JStr (sd_default_sender s)),
         (''selected_sender'', JStr (sd_selected_sender s)), (''mode'', JStr (sd_mode s)),
         (''choice_needed'', JBool (sd_choice_needed s))]))"

definition additional_response :: "web_world \<Rightarrow> gateway \<Rightarrow> http_response" where
  "additional_response w g = json_response 200 (JObj [(''ok'', JBool True),
     (''additional'', sender_json (ww_cfg w) (gw_additional g))])"

definition complete_account_login ::
  "web_world \<Rightarrow> web_env \<Rightarrow> http_request \<Rightarrow> admin_session \<Rightarrow> gateway \<Rightarrow> handled" where
  "complete_account_login w env req s g =
     (case pasted_params w req s g of
        Inl f \<Rightarrow> (g, Inl f)
      | Inr items \<Rightarrow>
          (let (g1, r) = finish_login w env req s items g
           in (g1, bind_fail r (\<lambda>u. Inr (additional_response w g1)))))"

definition login_callback ::
  "web_world \<Rightarrow> web_env \<Rightarrow> http_request \<Rightarrow> admin_session \<Rightarrow> gateway \<Rightarrow> handled" where
  "login_callback w env req s g =
     (case session_redirect w s g of
        Inl f \<Rightarrow> (g, Inl f)
      | Inr r \<Rightarrow>
          if r \<noteq> web_base_url (cfg_web (ww_cfg w)) @ ''/oauth/callback''
          then (g, Inl (Raised (ValueError ''This callback is not the configured redirect URI'')))
          else if \<not> distinct (map fst (hq_query req))
          then (g, Inl (Raised (ValueError ''Duplicate OAuth callback parameters'')))
          else (let (g1, u) = finish_login w env req s (hq_query req) g
                in (g1, bind_fail u (\<lambda>x. Inr \<lparr>hr_status = 303, hr_body = BEmpty,
                     hr_headers = [(''Location'', url_prefix (ww_web w) (ww_cfg w) @ ''/'')],
                     hr_cookie = None\<rparr>))))"

text \<open>
  \<open>additional.choose(payload.get("mode"), payload.get("custom_sender", ""))\<close>.  A mode that is a list
  or a dictionary cannot be looked up in a set, and a custom address that is not a string breaks
  the mailbox check; both come after the check for a connected account.
\<close>

definition choice_request :: "http_request \<Rightarrow> failure + json \<times> json" where
  "choice_request req =
     bind_fail (hq_json req) (\<lambda>j.
     bind_fail (payload_get ''mode'' JNull j) (\<lambda>m.
     bind_fail (payload_get ''custom_sender'' (JStr []) j) (\<lambda>c. Inr (m, c))))"

definition json_text :: "json \<Rightarrow> string" where
  "json_text j = (case j of JStr s \<Rightarrow> s | _ \<Rightarrow> [])"

definition is_text :: "json \<Rightarrow> bool" where
  "is_text j = (case j of JStr s \<Rightarrow> True | _ \<Rightarrow> False)"

definition unhashable :: "json \<Rightarrow> bool" where
  "unhashable j = (case j of JList xs \<Rightarrow> True | JObj kvs \<Rightarrow> True | _ \<Rightarrow> False)"

definition choose_additional :: "web_world \<Rightarrow> web_env \<Rightarrow> http_request \<Rightarrow> gateway \<Rightarrow> handled" where
  "choose_additional w env req g =
     (case gw_additional g of
        None \<Rightarrow> (g, Inl unavailable)
      | Some st \<Rightarrow>
          (case choice_request req of
             Inl f \<Rightarrow> (g, Inl f)
           | Inr (m, c) \<Rightarrow>
               if default_sender (ww_cfg w) st \<noteq> [] \<and>
                 (unhashable m \<or> (m = JStr ''custom'' \<and> \<not> is_text c))
               then (g, Inl (Raised (OtherExc ''TypeError'')))
               else (let (st1, r) = choose_sender (ww_oauth w) (ww_cfg w) (we_choice_ok env)
                            (json_text m) (json_text c) st;
                         g1 = g\<lparr>gw_additional := Some st1\<rparr>
                     in (g1, bind_fail (lift_res r) (\<lambda>a. Inr (additional_response w g1))))))"

definition drop_additional :: "web_world \<Rightarrow> web_env \<Rightarrow> gateway \<Rightarrow> handled" where
  "drop_additional w env g =
     (case gw_additional g of
        None \<Rightarrow> (g, Inl unavailable)
      | Some st \<Rightarrow>
          (let (st1, r) = disconnect_additional (we_write_ok env) (we_choice_ok env) st;
               g1 = g\<lparr>gw_additional := Some st1\<rparr>
           in (g1, bind_fail (lift_res r) (\<lambda>u. Inr (additional_response w g1)))))"

definition disconnect_account :: "web_world \<Rightarrow> web_env \<Rightarrow> gateway \<Rightarrow> handled" where
  "disconnect_account w env g =
     (if sender_of (ww_cfg w) = [] then (g, Inl (Raised (ValueError ''No legacy sender is configured'')))
      else
        (let g1 = g\<lparr>gw_dispatcher := pause True (gw_dispatcher g)\<rparr>;
             (tk, r) = token_disconnect (we_write_ok env) (gw_tokens g1)
         in (g1\<lparr>gw_tokens := tk\<rparr>, bind_fail (lift_res r) (\<lambda>u. Inr ok_response))))"

section \<open>Status\<close>

definition counters_json :: "listener \<Rightarrow> json" where
  "counters_json sv = JObj (map (\<lambda>(k, n). (k, num (int n))) (filter (\<lambda>p. snd p > 0)
     [(''denied_connections'', sv_denied sv), (''connections'', sv_admitted sv),
      (''rejected_messages'', sv_rejected sv), (''deferred_messages'', sv_deferred sv),
      (''accepted_messages'', sv_accepted sv)]))"

definition busy_workers :: "dispatcher \<Rightarrow> nat" where
  "busy_workers s = length (filter (\<lambda>x. case x of Attempting r \<Rightarrow> True | Reporting r a \<Rightarrow> True | _ \<Rightarrow> False)
     (dp_workers s))"

definition queue_json :: "queue_stats \<Rightarrow> (string \<times> json) list" where
  "queue_json q =
     [(''counters'', JObj (map (\<lambda>(k, n). (k, num n)) (qs_counters q))),
      (''states'', JObj (map (\<lambda>(k, n). (k, num (int n))) (qs_states q))),
      (''buckets'', JList (map (\<lambda>((m, k), v). JObj [(''minute'', num m), (''name'', JStr k), (''value'', num v)])
          (qs_buckets q))),
      (''oldest_pending_seconds'', real_num (qs_oldest_pending q)),
      (''recipient_budget_used_24h'', num (qs_recipient_budget q)),
      (''disk_free_bytes'', num (qs_disk_free q)), (''database_bytes'', num (qs_database_bytes q)),
      (''healthy'', JBool (qs_healthy q))]"

definition gateway_stats :: "web_world \<Rightarrow> web_env \<Rightarrow> gateway \<Rightarrow> queue_stats" where
  "gateway_stats w env g = stats (ww_cfg w) (dp_healthy (gw_dispatcher g)) (we_free env)
     (we_db_bytes env) (we_now env) (dp_db (gw_dispatcher g))"

definition texts :: "string list \<Rightarrow> json" where "texts xs = JList (map JStr xs)"

definition show_stats :: "web_world \<Rightarrow> web_env \<Rightarrow> gateway \<Rightarrow> handled" where
  "show_stats w env g =
     (let cfg = ww_cfg w; a = cfg_account cfg; d = gw_dispatcher g in
      (g, Inr (json_response 200 (JObj (queue_json (gateway_stats w env g) @
        [(''account'', account_json (token_status cfg (gw_tokens g))),
         (''sender'', JStr (acc_sender a)), (''login_username'', JStr (username a)),
         (''backend'', JStr (acc_backend a)), (''client_id'', JStr (acc_client_id a)),
         (''tenant_id'', JStr (acc_tenant_id a)), (''redirect_uri'', JStr (acc_redirect_uri a)),
         (''save_in_sent'', JBool (acc_save_in_sent a)), (''nat_marker'', JStr (acc_nat_marker a)),
         (''recipient_policy'', JStr (acc_recipient_policy a)),
         (''paused'', JBool (dp_paused d)), (''rate'', JNum (dp_rate d)),
         (''cooldown_remaining'', JNum (py_max (Fin 0) (py_sub (dp_cooldown d) (Fin (we_now env))))),
         (''upstream_inflight'', num (int (busy_workers d))),
         (''smtp_connections'', num (int (length (sv_connections (gw_smtp g))))),
         (''smtp_counters'', counters_json (gw_smtp g)),
         (''smtp_buffer_bytes'', num (sv_buffered (gw_smtp g))), (''smtp_port'', num (we_smtp_port env)),
         (''smtp_host'', JStr (smtp_host (cfg_smtp cfg))),
         (''allowed_networks'', texts (smtp_allowed_networks (cfg_smtp cfg))),
         (''max_queue_messages'', num (q_max_messages (cfg_queue cfg))),
         (''max_queue_bytes'', num (q_max_bytes (cfg_queue cfg))),
         (''recipient_limit_24h'', num (d_recipient_limit_24h (cfg_delivery cfg))),
         (''additional'', sender_json cfg (gw_additional g))])))))"

text \<open>Whether an account can send: it has a credential and needs no sign-in.\<close>

definition account_ready :: "account_status \<Rightarrow> bool" where
  "account_ready s = (as_credential_present s \<and> \<not> as_needs_login s)"

definition senders_ready :: "web_world \<Rightarrow> gateway \<Rightarrow> bool" where
  "senders_ready w g =
     ((sender_of (ww_cfg w) \<noteq> [] \<and> account_ready (token_status (ww_cfg w) (gw_tokens g))) \<or>
      (case gw_additional g of None \<Rightarrow> False
       | Some st \<Rightarrow> selected_sender (ww_cfg w) st \<noteq> [] \<and> account_ready (additional_status (ww_cfg w) st)))"

definition is_ready :: "web_world \<Rightarrow> web_env \<Rightarrow> gateway \<Rightarrow> bool" where
  "is_ready w env g =
     (let q = cfg_queue (ww_cfg w); c = qs_counters (gateway_stats w env g) in
      dp_healthy (gw_dispatcher g) \<and> gw_accepting g \<and> \<not> dp_paused (gw_dispatcher g)
      \<and> senders_ready w g
      \<and> tab_get 0 ''retained_messages'' c < q_max_messages q
      \<and> tab_get 0 ''retained_bytes'' c < q_max_bytes q
      \<and> we_free env \<ge> q_min_free_bytes q)"

definition ready_response :: "web_world \<Rightarrow> web_env \<Rightarrow> gateway \<Rightarrow> http_response" where
  "ready_response w env g =
     (if is_ready w env g then json_response 200 (JObj [(''status'', JStr ''ready'')])
      else json_response 503 (JObj [(''status'', JStr ''not_ready'')]))"

section \<open>Dispatch\<close>

datatype endpoint =
    Index | Script | Style | SignIn | SignOut | SessionInfo | ShowStats | ListMessages
  | ExportMessage string | ActOnMessage string string | Control
  | BeginLogin | CompleteLogin | Disconnect
  | BeginAdditional | ChooseSender | DropAdditional | Callback | Live | Ready | RedirectIndex

text \<open>The fixed routes, and the two with a queue ID.\<close>

definition fixed_routes :: "(string \<times> string \<times> endpoint) list" where
  "fixed_routes =
     [(''GET'', ''/'', Index), (''GET'', ''/app.js'', Script), (''GET'', ''/style.css'', Style),
      (''POST'', ''/api/login'', SignIn), (''POST'', ''/api/logout'', SignOut),
      (''GET'', ''/api/session'', SessionInfo), (''GET'', ''/api/stats'', ShowStats),
      (''GET'', ''/api/messages'', ListMessages), (''POST'', ''/api/control'', Control),
      (''POST'', ''/api/account/login'', BeginLogin), (''POST'', ''/api/account/complete'', CompleteLogin),
      (''POST'', ''/api/account/disconnect'', Disconnect),
      (''POST'', ''/api/additional/login'', BeginAdditional),
      (''POST'', ''/api/additional/sender'', ChooseSender),
      (''POST'', ''/api/additional/disconnect'', DropAdditional),
      (''GET'', ''/oauth/callback'', Callback), (''GET'', ''/health/live'', Live),
      (''GET'', ''/health/ready'', Ready)]"

definition message_route :: "string \<Rightarrow> (string \<times> string) option" where
  "message_route p =
     (if \<not> is_prefix ''/api/messages/'' p then None
      else let rest = drop 14 p; i = takeWhile (\<lambda>c. c \<noteq> CHR 0x2F) rest; action = drop (Suc (length i)) rest
           in if i = [] \<or> action = [] \<or> CHR 0x2F \<in> set action then None else Some (i, action))"

text \<open>A GET route also answers HEAD.\<close>

definition method_fits :: "string \<Rightarrow> string \<Rightarrow> bool" where
  "method_fits route m = (m = route \<or> (route = ''GET'' \<and> m = ''HEAD''))"

definition routes_of :: "string \<Rightarrow> (string \<times> endpoint) list" where
  "routes_of p = map (\<lambda>(m, q, e). (m, e)) (filter (\<lambda>(m, q, e). q = p) fixed_routes) @
     (case message_route p of None \<Rightarrow> []
      | Some (i, a) \<Rightarrow> (if a = ''eml'' then [(''GET'', ExportMessage i)] else []) @ [(''POST'', ActOnMessage i a)])"

definition resolve :: "string \<Rightarrow> string \<Rightarrow> string \<Rightarrow> failure + endpoint" where
  "resolve prefix m path =
     (let routes = (if prefix \<noteq> [] \<and> path = prefix then [(''GET'', RedirectIndex)]
                    else if is_prefix prefix path then routes_of (drop (length prefix) path) else [])
      in if routes = [] then Inl (Http 404 ''404: Not Found'')
         else case filter (\<lambda>r. method_fits (fst r) m) routes of
             [] \<Rightarrow> Inl (Http 405 ''405: Method Not Allowed'') | r # rs \<Rightarrow> Inr (snd r))"

definition page_file :: "web_world \<Rightarrow> string \<Rightarrow> string \<Rightarrow> http_response" where
  "page_file w name ctype = \<lparr>hr_status = 200, hr_body = BBytes (wl_static (ww_web w) name) ctype,
     hr_headers = [], hr_cookie = None\<rparr>"

text \<open>\<open>request["admin_session"]\<close> of a request without a session is \<open>None\<close>.\<close>

definition with_session ::
  "admin_session option \<Rightarrow> gateway \<Rightarrow> (admin_session \<Rightarrow> handled) \<Rightarrow> handled" where
  "with_session s g f = (case s of
      None \<Rightarrow> (g, Inl (Raised (OtherExc ''AttributeError''))) | Some x \<Rightarrow> f x)"

fun run_endpoint :: "web_world \<Rightarrow> web_env \<Rightarrow> http_request \<Rightarrow> admin_session option \<Rightarrow> endpoint
    \<Rightarrow> gateway \<Rightarrow> handled" where
  "run_endpoint w env req s Index g = (g, Inr (page_file w ''index.html'' ''text/html''))"
| "run_endpoint w env req s Script g = (g, Inr (page_file w ''app.js'' ''application/javascript''))"
| "run_endpoint w env req s Style g = (g, Inr (page_file w ''style.css'' ''text/css''))"
| "run_endpoint w env req s SignIn g = sign_in w env req g"
| "run_endpoint w env req s SignOut g = sign_out w req g"
| "run_endpoint w env req s SessionInfo g = with_session s g (\<lambda>x. session_info x g)"
| "run_endpoint w env req s ShowStats g = show_stats w env g"
| "run_endpoint w env req s ListMessages g = list_messages req g"
| "run_endpoint w env req s (ExportMessage i) g = export_message i g"
| "run_endpoint w env req s (ActOnMessage i a) g = act_on_message env i a req g"
| "run_endpoint w env req s Control g = control req g"
| "run_endpoint w env req s BeginLogin g = with_session s g (\<lambda>x. begin_account_login w env req g)"
| "run_endpoint w env req s CompleteLogin g =
     with_session s g (\<lambda>x. complete_account_login w env req x g)"
| "run_endpoint w env req s Disconnect g = disconnect_account w env g"
| "run_endpoint w env req s BeginAdditional g = with_session s g (\<lambda>x. begin_additional_login w env req g)"
| "run_endpoint w env req s ChooseSender g = choose_additional w env req g"
| "run_endpoint w env req s DropAdditional g = drop_additional w env g"
| "run_endpoint w env req s Callback g = with_session s g (\<lambda>x. login_callback w env req x g)"
| "run_endpoint w env req s Live g = (g, Inr (json_response 200 (JObj [(''status'', JStr ''alive'')])))"
| "run_endpoint w env req s Ready g = (g, Inr (ready_response w env g))"
| "run_endpoint w env req s RedirectIndex g =
     (g, Inr \<lparr>hr_status = 308, hr_body = BEmpty,
        hr_headers = [(''Location'', url_prefix (ww_web w) (ww_cfg w) @ ''/'')], hr_cookie = None\<rparr>)"

definition request_session :: "http_request \<Rightarrow> gateway \<Rightarrow> admin_session option" where
  "request_session req g = map_of (gw_sessions g) (hq_cookie req)"

definition answer :: "web_world \<Rightarrow> web_env \<Rightarrow> http_request \<Rightarrow> gateway \<Rightarrow> handled" where
  "answer w env req g =
     (case check_target (ww_web w) (ww_cfg w) req of
        Inl f \<Rightarrow> (g, Inl f)
      | Inr u \<Rightarrow>
          let g1 = g\<lparr>gw_sessions := live_sessions (we_now env) (gw_sessions g)\<rparr>;
              s = request_session req g1
          in (case check_access (ww_web w) (ww_cfg w) req s of
                Inl f \<Rightarrow> (g1, Inl f)
              | Inr v \<Rightarrow>
                  (case resolve (url_prefix (ww_web w) (ww_cfg w)) (hq_method req) (hq_path req) of
                     Inl f \<Rightarrow> (g1, Inl f)
                   | Inr e \<Rightarrow> run_endpoint w env req s e g1)))"

text \<open>The whole request: \<open>boundary\<close> around the handler.\<close>

definition handle_request ::
  "web_world \<Rightarrow> web_env \<Rightarrow> http_request \<Rightarrow> gateway \<Rightarrow> gateway \<times> http_response" where
  "handle_request w env req g =
     (let (g1, r) = answer w env req g
      in (g1, secure (ww_cfg w) (case r of Inl f \<Rightarrow> failure_response f | Inr x \<Rightarrow> x)))"

end
