(* ===== verification/Gw_Limit_Props.thy ===== *)
theory Gw_Limit_Props
  imports Gw_Web Gw_Vault_Props "HOL-Library.Multiset"
begin

text \<open>
  The limiter of sign-in attempts (\<open>web.py\<close>, \<open>login\<close>): how many passwords can be tried in its
  window, and the case in which it fails.
\<close>

section \<open>The table as a multiset of attempts\<close>

definition flat :: "attempts \<Rightarrow> (rat \<times> string) multiset" where
  "flat t = mset (concat (map (\<lambda>p. map (\<lambda>x. (x, fst p)) (snd p)) t))"

definition table_ok :: "attempts \<Rightarrow> bool" where
  "table_ok t = (distinct (map fst t) \<and> (\<forall>p \<in> set t. sorted (snd p)))"

lemma flat_simps [simp]:
  "flat [] = {#}" "flat (p # t) = mset (map (\<lambda>x. (x, fst p)) (snd p)) + flat t"
  "flat (s @ t) = flat s + flat t"
  by (simp_all add: flat_def)

lemma block_filter:
  "filter_mset P (image_mset (\<lambda>x. (x, k)) (mset l)) = image_mset (\<lambda>x. (x, k)) (mset (filter (\<lambda>x. P (x, k)) l))"
  by (induction l) auto

lemma size_flat: "size_class.size (flat t) = total_attempts t"
  by (induction t) (simp_all add: total_attempts_def)

lemma dropWhile_sorted:
  "sorted l \<Longrightarrow> dropWhile (\<lambda>x. x < (a :: rat)) l = filter (\<lambda>x. a \<le> x) l"
proof (induction l)
  case (Cons x l)
  show ?case
  proof (cases "x < a")
    case False
    then have "\<forall>y \<in> set l. a \<le> y" using Cons.prems by auto
    then show ?thesis using False by (simp add: filter_id_conv)
  qed (use Cons in simp)
qed simp

lemma flat_filter: "flat (filter (\<lambda>p. snd p \<noteq> []) t) = flat t"
  by (induction t) auto

lemma flat_purge:
  "table_ok t \<Longrightarrow> flat (purge_attempts now t) = filter_mset (\<lambda>p. now - 900 \<le> fst p) (flat t)"
  unfolding purge_attempts_def flat_filter
  by (induction t) (simp_all add: table_ok_def dropWhile_sorted login_window_def block_filter)

lemma purge_ok: "table_ok t \<Longrightarrow> table_ok (purge_attempts now t)"
  unfolding table_ok_def purge_attempts_def
  by (auto simp: distinct_map_filter o_def sorted_dropWhile)

lemma touch_ok: "table_ok t \<Longrightarrow> table_ok (touch k t)"
  by (auto simp: table_ok_def touch_def map_of_eq_None_iff)

lemma flat_touch [simp]: "flat (touch k t) = flat t"
  by (simp add: touch_def)

lemma touch_has: "map_of (touch k t) k \<noteq> None"
  by (auto simp: touch_def map_add_def split: option.split)

lemma attempts_of_Cons [simp]:
  "attempts_of k (p # t) = (if fst p = k then snd p else attempts_of k t)"
  by (cases p) (simp add: attempts_of_def)

lemma absent_flat:
  "k \<notin> fst ` set t \<Longrightarrow> filter_mset (\<lambda>p. snd p = k) (flat t) = {#} \<and> attempts_of k t = []"
proof (induction t)
  case (Cons p t)
  then have "fst p \<noteq> k" "k \<notin> fst ` set t" by auto
  then show ?case using Cons.IH by (auto simp: block_filter)
qed (simp add: attempts_of_def)

lemma mine_flat:
  "distinct (map fst t) \<Longrightarrow> size_class.size (filter_mset (\<lambda>p. snd p = k) (flat t)) = length (attempts_of k t)"
proof (induction t)
  case (Cons p t)
  show ?case
  proof (cases "fst p = k")
    case True
    then show ?thesis using Cons.prems absent_flat [of k t]
      by (simp add: block_filter del: mset_filter)
  next
    case False
    then show ?thesis using Cons by (simp add: block_filter)
  qed
qed (simp add: attempts_of_def)

lemma update_attempts:
  assumes "table_ok t" "map_of t k \<noteq> None" "\<forall>x \<in># flat t. fst x \<le> now"
  shows "table_ok (AList.update k (attempts_of k t @ [now]) t)
    \<and> flat (AList.update k (attempts_of k t @ [now]) t) = add_mset (now, k) (flat t)"
  using assms
proof (induction t)
  case (Cons p t)
  show ?case
  proof (cases "fst p = k")
    case True
    have "\<forall>x \<in> set (snd p). x \<le> now" using Cons.prems(3) by (cases p) force
    then show ?thesis using True Cons.prems
      by (cases p) (auto simp: table_ok_def sorted_append)
  next
    case False
    then have "table_ok t" "map_of t k \<noteq> None" "\<forall>x \<in># flat t. fst x \<le> now"
      using Cons.prems by (cases p; auto simp: table_ok_def)+
    from Cons.IH [OF this] show ?thesis using False Cons.prems(1)
      by (cases p) (auto simp: table_ok_def dom_update)
  qed
qed simp

section \<open>A sequence of attempts\<close>

text \<open>\<open>login\<close> up to the password: purge, then decide.  The log has the attempts admitted.\<close>

definition attempt_login :: "rat \<Rightarrow> string \<Rightarrow> attempts \<Rightarrow> attempts \<times> int option res" where
  "attempt_login now k t = limit_login now k (purge_attempts now t)"

fun attempt_all :: "(rat \<times> string) list \<Rightarrow> attempts \<times> (rat \<times> string) list
    \<Rightarrow> attempts \<times> (rat \<times> string) list" where
  "attempt_all [] p = p"
| "attempt_all ((now, k) # es) (t, lg) =
     (let (t1, r) = attempt_login now k t
      in attempt_all es (t1, if r = Inr None then (now, k) # lg else lg))"

definition in_window :: "rat \<Rightarrow> rat \<times> string \<Rightarrow> bool" where
  "in_window t0 p = (t0 \<le> fst p \<and> fst p \<le> t0 + 900)"

definition limits_kept :: "(rat \<times> string) list \<Rightarrow> bool" where
  "limits_kept lg = (\<forall>t0. length (filter (in_window t0) lg) \<le> 40 \<and>
     (\<forall>k. length (filter (\<lambda>p. in_window t0 p \<and> snd p = k) lg) \<le> 5))"

text \<open>The invariant after a decision at time \<open>now\<close>: the table has the admitted attempts of the last
  900 seconds.\<close>

definition limiter_inv :: "rat \<Rightarrow> attempts \<Rightarrow> (rat \<times> string) list \<Rightarrow> bool" where
  "limiter_inv now t lg = (table_ok t \<and> limits_kept lg \<and> (\<forall>p \<in> set lg. fst p \<le> now) \<and>
     flat t = mset (filter (\<lambda>p. now - 900 \<le> fst p) lg))"

lemma limit_login_cases:
  assumes "limit_login now k t = (t1, r)"
  shows "(r = Inr None \<and> length (attempts_of k (touch k t)) < 5 \<and> total_attempts (touch k t) < 40
       \<and> t1 = AList.update k (attempts_of k (touch k t) @ [now]) (touch k t))
     \<or> (r \<noteq> Inr None \<and> t1 = touch k t)"
  using assms by (auto simp: limit_login_def Let_def login_per_client_def login_global_def bind_res_Inr
      split: if_splits)

lemma window_admitted:
  assumes "limits_kept lg" and "length (filter (\<lambda>p. now - 900 \<le> fst p) lg) < 40"
    and "length (filter (\<lambda>p. now - 900 \<le> fst p \<and> snd p = k) lg) < 5"
  shows "limits_kept ((now, k) # lg)"
  unfolding limits_kept_def
proof (intro allI conjI)
  fix t0 k'
  have sub: "length (filter (\<lambda>p. in_window t0 p \<and> Q p) lg) \<le> length (filter (\<lambda>p. now - 900 \<le> fst p \<and> Q p) lg)"
    if "in_window t0 (now, k)" for Q
  proof -
    have "filter (\<lambda>p. in_window t0 p \<and> Q p) lg =
        filter (\<lambda>p. in_window t0 p \<and> Q p) (filter (\<lambda>p. now - 900 \<le> fst p \<and> Q p) lg)"
      using that by (auto simp: in_window_def intro!: filter_cong)
    then show ?thesis by (metis length_filter_le)
  qed
  show "length (filter (in_window t0) ((now, k) # lg)) \<le> 40"
    using assms(1,2) sub [of "\<lambda>_. True"] by (auto simp: limits_kept_def)
  show "length (filter (\<lambda>p. in_window t0 p \<and> snd p = k') ((now, k) # lg)) \<le> 5"
    using assms(1,3) sub [of "\<lambda>p. snd p = k"] by (auto simp: limits_kept_def)
qed

lemma attempt_inv:
  assumes inv: "limiter_inv t0 t lg" and le: "t0 \<le> now" and a: "attempt_login now k t = (t1, r)"
  shows "limiter_inv now t1 (if r = Inr None then (now, k) # lg else lg)"
proof -
  have ok: "table_ok t" and lk: "limits_kept lg" and old: "\<forall>p \<in> set lg. fst p \<le> t0"
    and f: "flat t = mset (filter (\<lambda>p. t0 - 900 \<le> fst p) lg)"
    using inv by (simp_all add: limiter_inv_def)
  define u where "u = touch k (purge_attempts now t)"
  have u: "table_ok u" "map_of u k \<noteq> None"
    using touch_ok [OF purge_ok [OF ok]] touch_has by (simp_all add: u_def)
  have "flat u = mset (filter (\<lambda>p. now - 900 \<le> fst p) (filter (\<lambda>p. t0 - 900 \<le> fst p) lg))"
    using flat_purge [OF ok, of now] by (simp add: u_def f flip: mset_filter)
  moreover have "filter (\<lambda>p. now - 900 \<le> fst p) (filter (\<lambda>p. t0 - 900 \<le> fst p) lg) =
      filter (\<lambda>p. now - 900 \<le> fst p) lg"
    unfolding filter_filter by (rule filter_cong) (use le in auto)
  ultimately have fu: "flat u = mset (filter (\<lambda>p. now - 900 \<le> fst p) lg)" by (simp only:)
  from limit_login_cases [OF a [unfolded attempt_login_def]] show ?thesis
  proof (elim disjE conjE)
    assume r: "r = Inr None" and m: "length (attempts_of k (touch k (purge_attempts now t))) < 5"
      and g: "total_attempts (touch k (purge_attempts now t)) < 40"
      and t1: "t1 = AList.update k (attempts_of k (touch k (purge_attempts now t)) @ [now])
        (touch k (purge_attempts now t))"
    have "length (filter (\<lambda>p. now - 900 \<le> fst p) lg) < 40"
      using g fu by (metis size_flat size_mset u_def)
    moreover have "length (filter (\<lambda>p. now - 900 \<le> fst p \<and> snd p = k) lg) < 5"
    proof -
      have "size_class.size (filter_mset (\<lambda>p. snd p = k) (flat u)) < 5"
        using m [folded u_def] u(1) mine_flat [of u k] by (simp add: table_ok_def)
      then show ?thesis by (simp add: fu conj_commute flip: mset_filter)
    qed
    ultimately have "limits_kept ((now, k) # lg)" by (rule window_admitted [OF lk])
    moreover have "\<forall>x \<in># flat u. fst x \<le> now" using old le fu by auto
    from update_attempts [OF u this] have "table_ok t1" "flat t1 = add_mset (now, k) (flat u)"
      by (simp_all add: t1 u_def)
    ultimately show ?thesis using r old le fu by (auto simp: limiter_inv_def)
  next
    assume "r \<noteq> Inr None" "t1 = touch k (purge_attempts now t)"
    then show ?thesis using u fu lk old le by (auto simp: limiter_inv_def u_def)
  qed
qed

lemma attempt_all_inv:
  "limiter_inv t0 t lg \<Longrightarrow> sorted (t0 # map fst es) \<Longrightarrow> limits_kept (snd (attempt_all es (t, lg)))"
proof (induction es arbitrary: t0 t lg)
  case (Cons e es)
  obtain now k where e: "e = (now, k)" by (cases e)
  obtain t1 r where a: "attempt_login now k t = (t1, r)" by (cases "attempt_login now k t")
  have "limiter_inv now t1 (if r = Inr None then (now, k) # lg else lg)"
    using attempt_inv [OF Cons.prems(1) _ a] Cons.prems(2) e by simp
  from Cons.IH [OF this] show ?case using Cons.prems(2) by (simp add: e a)
qed (simp add: limiter_inv_def)

text \<open>
  C26: The sign-in limits hold.  Over any sequence of attempts with a clock that does not go back,
  and in every window of 900 seconds, wherever it starts, at most five passwords of one client and
  at most 40 passwords in all are tried.
\<close>

theorem login_limits_hold:
  assumes "sorted (map fst es)"
  shows "length (filter (in_window t0) (snd (attempt_all es ([], [])))) \<le> 40
    \<and> length (filter (\<lambda>p. in_window t0 p \<and> snd p = k) (snd (attempt_all es ([], [])))) \<le> 5"
proof (cases es)
  case Nil
  then show ?thesis by simp
next
  case (Cons e es')
  have "limiter_inv (fst e) [] []" by (simp add: limiter_inv_def table_ok_def limits_kept_def)
  from attempt_all_inv [OF this, of es] assms Cons have "limits_kept (snd (attempt_all es ([], [])))"
    by simp
  then show ?thesis by (simp add: limits_kept_def)
qed

definition six_attempts :: "(rat \<times> string) list" where
  "six_attempts = map (\<lambda>i. (of_nat i, ''c'')) [0..<6]"

theorem login_limits_hold_witness:
  "snd (attempt_all six_attempts ([], [])) = rev (take 5 six_attempts)
   \<and> length (filter (\<lambda>p. in_window 0 p \<and> snd p = ''c'') (snd (attempt_all six_attempts ([], [])))) \<le> 5"
proof -
  have "sorted (map fst six_attempts)" by (simp add: six_attempts_def upt_rec)
  moreover have "snd (attempt_all six_attempts ([], [])) = rev (take 5 six_attempts)" by code_simp
  ultimately show ?thesis using login_limits_hold by blast
qed

section \<open>A new client at the global limit\<close>

lemma earliest_head_empty: "(k, []) \<in> set t \<Longrightarrow> earliest_head t = Inl IndexError"
  by (force simp: earliest_head_def list_ex_iff)

text \<open>
   At the global limit a client without an attempt of its own gets no "429 Too Many Requests"
  with a \<open>Retry-After\<close> header: looking it up entered an empty deque, whose first element the
  computation of the waiting time reads.  The request ends in an \<open>IndexError\<close> and a response 500.
\<close>

theorem new_client_at_global_limit_fails:
  assumes "client_key (ww_web w) (ww_cfg w) req = Inr k"
    and "map_of (purge_attempts (we_now env) (gw_attempts g)) k = None"
    and "total_attempts (purge_attempts (we_now env) (gw_attempts g)) \<ge> 40"
  shows "snd (sign_in w env req g) = Inl (Raised IndexError)
    \<and> hr_status (failure_response (Raised IndexError)) = 500"
proof -
  define t where "t = purge_attempts (we_now env) (gw_attempts g)"
  have t: "touch k t = t @ [(k, [])]" "attempts_of k (t @ [(k, [])]) = []"
    using assms(2) by (auto simp: t_def touch_def attempts_of_def map_add_def)
  have "total_attempts (t @ [(k, [])]) \<ge> login_global"
    using assms(3) by (simp add: t_def total_attempts_def login_global_def)
  moreover have "earliest_head (t @ [(k, [])]) = Inl IndexError" by (rule earliest_head_empty [of k]) simp
  ultimately have "snd (limit_login (we_now env) k t) = Inl IndexError"
    by (simp add: limit_login_def t login_per_client_def blocking_times_def)
  then have "\<exists>u. limit_login (we_now env) k t = (u, Inl IndexError)" by (metis prod.collapse)
  then show ?thesis
    using assms(1) by (auto simp: sign_in_def t_def failure_response_def error_response_def json_response_def)
qed

definition busy_table :: attempts where
  "busy_table = map (\<lambda>i. (replicate i CHR ''c'', replicate 5 (1000 + of_nat i))) [1..<9]"

definition web_cfg :: config where
  "web_cfg = oauth_cfg\<lparr>cfg_web := default_web\<lparr>web_base_url := ''http://h/p''\<rparr>\<rparr>"

definition demo_web :: web_lib where
  "demo_web = \<lparr>wl_urlsplit = (\<lambda>u. if u = ''http://h/p'' then Some (''http'', ''h'', ''/p'', [])
       else if u = acc_redirect_uri default_account then Some (''https'', ''m'', ''/c'', [])
       else if u = ''paste'' then Some (''https'', ''m'', ''/c'', ''q'') else None),
     wl_parse_qsl = (\<lambda>_. [(''state'', ''s''), (''code'', ''c'')]), wl_ip = Some, wl_static = (\<lambda>_. [])\<rparr>"

definition demo_world :: web_world where
  "demo_world = \<lparr>ww_web = demo_web, ww_oauth = demo_oauth, ww_vault = plain_vault, ww_cfg = web_cfg\<rparr>"

definition demo_admin :: password_record where
  "demo_admin = projr (hash_password plain_vault ''s'' ''passpasspass'')"

definition demo_gateway :: gateway where
  "demo_gateway = \<lparr>gw_sessions = [], gw_attempts = [], gw_tokens = demo_tokens, gw_additional = None,
     gw_dispatcher = projr (dispatcher_start web_cfg True empty_db), gw_smtp = listener_start,
     gw_accepting = True, gw_admin = demo_admin\<rparr>"

definition demo_wenv :: web_env where
  "demo_wenv = \<lparr>we_now = 1100, we_free = 0, we_db_bytes = 0, we_session_id = ''i1'', we_csrf = ''c1'',
     we_random = \<lparr>lr_state = ''s'', lr_nonce = ''n'', lr_verifier = ''v'', lr_challenge = ''x''\<rparr>,
     we_login = demo_lenv True, we_write_ok = True, we_choice_ok = True, we_smtp_port = 25\<rparr>"

definition demo_request :: "string \<Rightarrow> string \<Rightarrow> json \<Rightarrow> http_request" where
  "demo_request m p j = \<lparr>hq_method = m, hq_host = ''H'', hq_path = ''/p'' @ p, hq_cookie = ''i1'',
     hq_origin = Some ''http://h'', hq_content_type = ''application/json'', hq_csrf = ''c1'',
     hq_remote = Some ''client'', hq_forwarded = [], hq_query = [], hq_json = Inr j\<rparr>"

theorem new_client_at_global_limit_fails_witness:
  "snd (sign_in demo_world demo_wenv (demo_request ''POST'' ''/api/login'' JNull)
      (demo_gateway\<lparr>gw_attempts := busy_table\<rparr>)) = Inl (Raised IndexError)"
proof -
  have "client_key (ww_web demo_world) (ww_cfg demo_world)
      (demo_request ''POST'' ''/api/login'' JNull) = Inr ''client''" by code_simp
  moreover have "map_of (purge_attempts (we_now demo_wenv)
      (gw_attempts (demo_gateway\<lparr>gw_attempts := busy_table\<rparr>))) ''client'' = None" by code_simp
  moreover have "total_attempts (purge_attempts (we_now demo_wenv)
      (gw_attempts (demo_gateway\<lparr>gw_attempts := busy_table\<rparr>))) \<ge> 40" by code_simp
  ultimately show ?thesis
    using new_client_at_global_limit_fails [of demo_world "demo_request ''POST'' ''/api/login'' JNull"] by blast
qed

end
