(* ===== verification/Gw_Web_Props.thy ===== *)
theory Gw_Web_Props
  imports Gw_Web Gw_Limit_Props Gw_Listener_Inv
begin

text \<open>
  What the administration interface (\<open>web.py\<close>) guarantees: who can change anything, how a session
  comes to exist, that a login flow is used once and by its own session, and that no response
  shows a credential.
\<close>

section \<open>Routes\<close>

text \<open>The endpoints that may change the accounts, the queue or the dispatcher.\<close>

fun mutating :: "endpoint \<Rightarrow> bool" where
  "mutating (ActOnMessage i a) = True"
| "mutating Control = True"
| "mutating CompleteLogin = True"
| "mutating Disconnect = True"
| "mutating ChooseSender = True"
| "mutating DropAdditional = True"
| "mutating Callback = True"
| "mutating _ = False"

definition protected :: "gateway \<Rightarrow> token_state \<times> additional_state option \<times> dispatcher" where
  "protected g = (gw_tokens g, gw_additional g, gw_dispatcher g)"

lemma routes_of_cases:
  assumes "(m, e) \<in> set (routes_of p)"
  obtains (fixed) "(m, p, e) \<in> set fixed_routes"
  | (export) i where "e = ExportMessage i" "m = ''GET''" "message_route p \<noteq> None"
  | (action) i a where "e = ActOnMessage i a" "m = ''POST''" "message_route p \<noteq> None"
  using assms by (cases "message_route p") (auto simp: routes_of_def split: if_splits)

text \<open>What the table of the fixed routes has, read off it.\<close>

definition route_fact :: "string \<times> string \<times> endpoint \<Rightarrow> bool" where
  "route_fact r = (case r of (m, q, e) \<Rightarrow>
     (mutating e \<and> e \<noteq> Callback \<longrightarrow> m = ''POST'') \<and> (e = Callback \<longrightarrow> q = ''/oauth/callback'' \<and> m = ''GET'')
     \<and> (e = SignIn \<longleftrightarrow> q = ''/api/login'') \<and> (e = SignIn \<longrightarrow> m = ''POST''))"

lemma route_facts: "(m, q, e) \<in> set fixed_routes \<Longrightarrow> route_fact (m, q, e)"
proof -
  have "list_all route_fact fixed_routes" by code_simp
  then show "(m, q, e) \<in> set fixed_routes \<Longrightarrow> route_fact (m, q, e)" by (simp add: list_all_iff)
qed

lemma routes_of_post:
  "(m, e) \<in> set (routes_of p) \<Longrightarrow> mutating e \<Longrightarrow> e \<noteq> Callback \<Longrightarrow> m = ''POST''"
  by (erule routes_of_cases) (auto dest!: route_facts simp: route_fact_def)

lemma routes_of_callback: "(m, Callback) \<in> set (routes_of p) \<Longrightarrow> p = ''/oauth/callback'' \<and> m = ''GET''"
  by (erule routes_of_cases) (auto dest!: route_facts simp: route_fact_def)

lemma login_no_message: "message_route ''/api/login'' = None"
  by code_simp

lemma routes_of_login: "(m, e) \<in> set (routes_of ''/api/login'') \<Longrightarrow> e = SignIn \<and> m = ''POST''"
  by (erule routes_of_cases) (auto dest!: route_facts simp: route_fact_def login_no_message)

lemma routes_of_SignIn: "(m, SignIn) \<in> set (routes_of p) \<Longrightarrow> p = ''/api/login'' \<and> m = ''POST''"
  by (erule routes_of_cases) (auto dest!: route_facts simp: route_fact_def)

lemma resolve_Inr:
  assumes "resolve prefix m path = Inr e"
  obtains (redirect) "e = RedirectIndex"
  | (route) r q where "path = prefix @ q" "(r, e) \<in> set (routes_of q)" "method_fits r m"
proof (cases "prefix \<noteq> [] \<and> path = prefix")
  case True
  then show ?thesis using assms redirect by (auto simp: resolve_def Let_def split: if_splits)
next
  case False
  then have p: "is_prefix prefix path" using assms by (auto simp: resolve_def Let_def split: if_splits)
  then obtain q where q: "path = prefix @ q" by (auto simp: is_prefix_iff)
  define rs where "rs = filter (\<lambda>r. method_fits (fst r) m) (routes_of q)"
  have "(case rs of [] \<Rightarrow> Inl (Http 405 ''405: Method Not Allowed'') | r # rs \<Rightarrow> Inr (snd r)) = Inr e"
    using assms False p q by (simp add: resolve_def rs_def Let_def split: if_splits)
  then obtain r x where "rs = (r, e) # x" by (cases rs) (auto simp: prod_eq_iff)
  then have "(r, e) \<in> set rs" by simp
  then show ?thesis using q by (auto simp: rs_def intro: route)
qed

section \<open>What the handlers leave alone\<close>

lemma set_flow_protected [simp]: "protected (set_flow i f k g) = protected g"
  by (simp add: protected_def set_flow_def)

lemma set_flow_fields [simp]:
  "gw_tokens (set_flow i f k g) = gw_tokens g" "gw_additional (set_flow i f k g) = gw_additional g"
  "gw_dispatcher (set_flow i f k g) = gw_dispatcher g"
  by (simp_all add: set_flow_def)

lemma set_flow_keys [simp]: "map fst (gw_sessions (set_flow i f k g)) = map fst (gw_sessions g)"
  by (auto simp: set_flow_def)

lemma protected_sessions [simp]:
  "protected (g\<lparr>gw_sessions := ss\<rparr>) = protected g" "protected (g\<lparr>gw_attempts := t\<rparr>) = protected g"
  by (simp_all add: protected_def)

lemma sign_in_protected: "protected (fst (sign_in w env req g)) = protected g"
  by (auto simp: sign_in_def open_session_def Let_def split: sum.splits prod.splits option.splits bool.splits)

lemma begin_protected:
  "protected (fst (begin_account_login w env req g)) = protected g"
  "protected (fst (begin_additional_login w env req g)) = protected g"
  by (auto simp: begin_account_login_def begin_additional_login_def Let_def split: option.splits prod.splits)

lemma with_session_fst: "fst (with_session s g f) = (case s of None \<Rightarrow> g | Some x \<Rightarrow> fst (f x))"
  by (simp add: with_session_def split: option.split)

lemma run_endpoint_protected: "\<not> mutating e \<Longrightarrow> protected (fst (run_endpoint w env req s e g)) = protected g"
  by (cases e) (simp_all add: sign_in_protected begin_protected sign_out_def session_info_def
      show_stats_def Let_def list_messages_def export_message_def with_session_fst split: option.split)

text \<open>Without a flow, a callback changes only the session.\<close>

lemma finish_no_flow: "sn_flow s = None \<Longrightarrow> protected (fst (finish_login w env req s resp g)) = protected g"
  by (simp add: finish_login_def)

lemma callback_no_flow:
  "sn_flow s = None \<Longrightarrow> protected (fst (login_callback w env req s g)) = protected g"
  using finish_no_flow [of s w env req "hq_query req" g]
  by (auto simp: login_callback_def split: sum.splits prod.splits)

section \<open>The checks\<close>

lemma live_session:
  "map_of (live_sessions now ss) i = Some s \<Longrightarrow> now < sn_expires s"
  by (auto simp: live_sessions_def dest!: map_of_SomeD)

lemma check_target_host:
  "check_target lib cfg req = Inr u \<Longrightarrow> casefold (hq_host req) = casefold (base_netloc lib cfg)"
  by (auto simp: check_target_def Let_def split: if_splits)

lemma check_access_post:
  assumes "check_access lib cfg req session = Inr u" "\<not> safe_method (hq_method req)"
  shows "hq_origin req = Some (url_origin lib cfg) \<and> hq_content_type req = ''application/json''
    \<and> (hq_path req = url_prefix lib cfg @ ''/api/login'' \<or>
       (\<exists>s. session = Some s \<and> hq_csrf req = sn_csrf s))"
  using assms by (auto simp: check_access_def Let_def split: if_splits option.splits)

lemma callback_not_public: "prefix @ ''/oauth/callback'' \<notin> set (public_paths prefix)"
  by (auto simp: public_paths_def)

lemma check_access_private:
  "check_access lib cfg req session = Inr u \<Longrightarrow>
     hq_path req \<notin> set (public_paths (url_prefix lib cfg)) \<Longrightarrow> session \<noteq> None"
  by (auto simp: check_access_def Let_def split: if_splits)

lemma answer_cases:
  assumes "answer w env req g = (g', r)"
  obtains (refused) "protected g' = protected g"
      "gw_sessions g' = gw_sessions g \<or> gw_sessions g' = live_sessions (we_now env) (gw_sessions g)"
  | (run) u v e g1 where "check_target (ww_web w) (ww_cfg w) req = Inr u"
      "g1 = g\<lparr>gw_sessions := live_sessions (we_now env) (gw_sessions g)\<rparr>"
      "check_access (ww_web w) (ww_cfg w) req (request_session req g1) = Inr v"
      "resolve (url_prefix (ww_web w) (ww_cfg w)) (hq_method req) (hq_path req) = Inr e"
      "run_endpoint w env req (request_session req g1) e g1 = (g', r)"
  using assms by (auto simp: answer_def Let_def split: sum.splits)

text \<open>
  C24: Only the administrator changes anything.  If a request changes an account, the second
  account, the queue, the pause or the rate, then it was sent to the configured host with the
  cookie of a live session; and either it was a POST from the page's own origin, with JSON and the
  session's CSRF token, or it was the OAuth callback of a login that this session has begun.
\<close>

theorem only_the_administrator_acts:
  assumes "handle_request w env req g = (g', resp)" and "protected g' \<noteq> protected g"
  shows "\<exists>s. map_of (live_sessions (we_now env) (gw_sessions g)) (hq_cookie req) = Some s
     \<and> we_now env < sn_expires s
     \<and> casefold (hq_host req) = casefold (base_netloc (ww_web w) (ww_cfg w))
     \<and> (hq_method req = ''POST'' \<and> hq_origin req = Some (url_origin (ww_web w) (ww_cfg w))
          \<and> hq_content_type req = ''application/json'' \<and> hq_csrf req = sn_csrf s
        \<or> safe_method (hq_method req) \<and> sn_flow s \<noteq> None
          \<and> hq_path req = url_prefix (ww_web w) (ww_cfg w) @ ''/oauth/callback'')"
proof -
  obtain r where "answer w env req g = (g', r)"
    using assms(1) by (cases "answer w env req g") (auto simp: handle_request_def)
  then show ?thesis
  proof (cases rule: answer_cases)
    case (run u v e g1)
    have g1: "protected g1 = protected g" "request_session req g1 =
        map_of (live_sessions (we_now env) (gw_sessions g)) (hq_cookie req)"
      by (simp_all add: run(2) request_session_def)
    have m: "mutating e" using run_endpoint_protected [of e w env req "request_session req g1" g1]
        run(5) assms(2) g1(1) by auto
    from run(4) obtain m' q where q: "hq_path req = url_prefix (ww_web w) (ww_cfg w) @ q"
      "(m', e) \<in> set (routes_of q)" "method_fits m' (hq_method req)"
      using m by (cases rule: resolve_Inr) auto
    show ?thesis
    proof (cases "e = Callback")
      case True
      have c: "q = ''/oauth/callback'' \<and> m' = ''GET''"
        by (rule routes_of_callback) (use q(2) True in simp)
      obtain s where s: "request_session req g1 = Some s"
        using check_access_private [OF run(3)] callback_not_public c q(1) by auto
      have "sn_flow s \<noteq> None"
        using callback_no_flow [of s w env req g1] run(5) True s assms(2) g1(1)
        by (auto simp: with_session_def)
      then show ?thesis
        using s g1(2) live_session check_target_host [OF run(1)] c q
        by (auto simp: method_fits_def safe_method_def)
    next
      case False
      have p: "m' = ''POST''" by (rule routes_of_post [OF q(2) m False])
      then have h: "hq_method req = ''POST''" using q(3) by (simp add: method_fits_def)
      have "q \<noteq> ''/api/login''" using routes_of_login q(2) m by fastforce
      then obtain s where s: "request_session req g1 = Some s" "hq_csrf req = sn_csrf s"
        "hq_origin req = Some (url_origin (ww_web w) (ww_cfg w))"
        "hq_content_type req = ''application/json''"
        using check_access_post [OF run(3)] h q(1) by (auto simp: safe_method_def)
      then show ?thesis using g1(2) live_session check_target_host [OF run(1)] h by auto
    qed
  qed (use assms(2) in simp)
qed

definition admin_session_1 :: admin_session where
  "admin_session_1 = \<lparr>sn_csrf = ''c1'', sn_expires = 2000, sn_flow = None, sn_kind = ''original''\<rparr>"

definition signed_in :: gateway where
  "signed_in = demo_gateway\<lparr>gw_sessions := [(''i1'', admin_session_1)]\<rparr>"

definition pause_request :: http_request where
  "pause_request = demo_request ''POST'' ''/api/control'' (JObj [(''paused'', JBool True)])"

definition paused_gateway :: gateway where
  "paused_gateway = fst (handle_request demo_world demo_wenv pause_request signed_in)"

theorem only_the_administrator_acts_witness:
  "dp_paused (gw_dispatcher paused_gateway) \<and> \<not> dp_paused (gw_dispatcher signed_in)
   \<and> (\<exists>s. map_of (live_sessions 1100 (gw_sessions signed_in)) ''i1'' = Some s \<and> hq_csrf pause_request = sn_csrf s)"
proof -
  have p: "dp_paused (gw_dispatcher paused_gateway)" "\<not> dp_paused (gw_dispatcher signed_in)" by code_simp+
  then have d: "protected paused_gateway \<noteq> protected signed_in" by (auto simp: protected_def)
  have h: "handle_request demo_world demo_wenv pause_request signed_in =
      (paused_gateway, snd (handle_request demo_world demo_wenv pause_request signed_in))"
    by (simp add: paused_gateway_def)
  have r: "\<not> safe_method (hq_method pause_request)" "hq_cookie pause_request = ''i1''"
    "we_now demo_wenv = 1100" by code_simp+
  from only_the_administrator_acts [OF h d] obtain s where
    "map_of (live_sessions 1100 (gw_sessions signed_in)) ''i1'' = Some s \<and> hq_csrf pause_request = sn_csrf s"
    unfolding r(2,3) using r(1) by blast
  then show ?thesis using p by blast
qed

section \<open>Sessions\<close>

lemma add_session_keys: "fst ` set (add_session i s ss) \<subseteq> insert i (fst ` set ss)"
  by (cases ss) (auto simp: add_session_def dom_update)

lemma add_session_length: "length (add_session i s ss) \<le> max 64 (length ss)"
  by (auto simp: add_session_def length_update)

definition session_keys :: "gateway \<Rightarrow> string set" where
  "session_keys g = fst ` set (gw_sessions g)"

text \<open>Every other endpoint has no new session, and none more.\<close>

definition no_new_session :: "gateway \<Rightarrow> gateway \<Rightarrow> bool" where
  "no_new_session g g' = (session_keys g' \<subseteq> session_keys g \<and>
     length (gw_sessions g') \<le> length (gw_sessions g))"

lemma no_new_refl [simp]: "no_new_session g g"
  by (simp add: no_new_session_def)

lemma no_new_same: "gw_sessions g' = gw_sessions g \<Longrightarrow> no_new_session g g'"
  by (simp add: no_new_session_def session_keys_def)

lemma no_new_flow: "no_new_session g (set_flow i f k g)"
proof -
  have "session_keys (set_flow i f k g) = session_keys g"
    unfolding session_keys_def by (metis set_flow_keys set_map)
  moreover have "length (gw_sessions (set_flow i f k g)) = length (gw_sessions g)"
    by (simp add: set_flow_def)
  ultimately show ?thesis by (simp add: no_new_session_def)
qed

lemma sessions_simps [simp]:
  "no_new_session g (h\<lparr>gw_tokens := tk\<rparr>) = no_new_session g h"
  "no_new_session g (h\<lparr>gw_additional := a\<rparr>) = no_new_session g h"
  "no_new_session g (h\<lparr>gw_dispatcher := d\<rparr>) = no_new_session g h"
  by (simp_all add: no_new_session_def session_keys_def)

lemma finish_no_new: "no_new_session g (fst (finish_login w env req s resp g))"
  by (auto simp: finish_login_def Let_def no_new_flow split: option.split prod.split)

lemma complete_no_new:
  "no_new_session g (fst (complete_account_login w env req s g))"
  "no_new_session g (fst (login_callback w env req s g))"
proof -
  show "no_new_session g (fst (complete_account_login w env req s g))"
    using finish_no_new [of g w env req s] by (auto simp: complete_account_login_def split: sum.split prod.split)
       (metis fst_conv)
  show "no_new_session g (fst (login_callback w env req s g))"
    using finish_no_new [of g w env req s] by (auto simp: login_callback_def split: sum.split prod.split)
       (metis fst_conv)
qed

lemma sign_out_no_new: "no_new_session g (fst (sign_out w req g))"
  by (auto simp: sign_out_def no_new_session_def session_keys_def AList.delete_eq)

lemma other_no_new:
  "no_new_session g (fst (act_on_message env i a req g))" "no_new_session g (fst (control req g))"
  "no_new_session g (fst (disconnect_account w env g))" "no_new_session g (fst (choose_additional w env req g))"
  "no_new_session g (fst (drop_additional w env g))"
  "no_new_session g (fst (begin_account_login w env req g))"
  "no_new_session g (fst (begin_additional_login w env req g))"
  by (auto simp: act_on_message_def control_def disconnect_account_def choose_additional_def
      drop_additional_def begin_account_login_def begin_additional_login_def Let_def no_new_flow
      split: sum.split option.split prod.split)

lemma run_endpoint_no_new: "e \<noteq> SignIn \<Longrightarrow> no_new_session g (fst (run_endpoint w env req s e g))"
  by (cases e) (simp_all add: sign_out_no_new other_no_new complete_no_new session_info_def show_stats_def
      Let_def list_messages_def export_message_def with_session_fst split: option.split)

lemma sign_in_cases:
  assumes "sign_in w env req g = (g', r)"
  obtains (rejected) "gw_sessions g' = gw_sessions g"
  | (opened) p j s where "hq_json req = Inr j" "payload_get ''password'' (JStr []) j = Inr (JStr p)"
      "verify_password (ww_vault w) p (gw_admin g)"
      "gw_sessions g' = add_session (we_session_id env) s (gw_sessions g)"
proof (cases "gw_sessions g' = gw_sessions g")
  case False
  then have "check_password w req (gw_admin g) = Inr True"
    and s: "\<exists>s. gw_sessions g' = add_session (we_session_id env) s (gw_sessions g)"
    using assms by (auto simp: sign_in_def open_session_def Let_def
        split: sum.splits prod.splits option.splits bool.splits)
  then obtain j p where "hq_json req = Inr j" "payload_get ''password'' (JStr []) j = Inr (JStr p)"
    "verify_password (ww_vault w) p (gw_admin g)"
    by (auto simp: check_password_def bind_fail_def split: sum.splits json.splits)
  then show ?thesis using s opened by blast
qed (rule rejected)

lemma live_sub: "fst ` set (live_sessions now ss) \<subseteq> fst ` set ss"
  by (auto simp: live_sessions_def)

text \<open>
  C25: A session needs the password.  The only way a session ID enters the table is a same-origin
  JSON request to the sign-in path whose password passes the check against the stored hash, and it
  is the fresh random ID; there are never more than 64 sessions.
\<close>

theorem session_needs_the_password:
  assumes "handle_request w env req g = (g', resp)" and "i \<in> session_keys g'" and "i \<notin> session_keys g"
  shows "i = we_session_id env \<and> hq_method req = ''POST''
    \<and> hq_origin req = Some (url_origin (ww_web w) (ww_cfg w))
    \<and> hq_path req = url_prefix (ww_web w) (ww_cfg w) @ ''/api/login''
    \<and> (\<exists>j p. hq_json req = Inr j \<and> payload_get ''password'' (JStr []) j = Inr (JStr p)
         \<and> verify_password (ww_vault w) p (gw_admin g))
    \<and> length (gw_sessions g') \<le> max 64 (length (gw_sessions g))"
proof -
  obtain r where "answer w env req g = (g', r)"
    using assms(1) by (cases "answer w env req g") (auto simp: handle_request_def)
  then show ?thesis
  proof (cases rule: answer_cases)
    case refused
    then have "session_keys g' \<subseteq> session_keys g"
      unfolding session_keys_def using live_sub [of "we_now env" "gw_sessions g"] refused(2) by (elim disjE) simp_all
    then show ?thesis using assms(2,3) by blast
  next
    case (run u v e g1)
    have sub: "session_keys g1 \<subseteq> session_keys g" "length (gw_sessions g1) \<le> length (gw_sessions g)"
      using live_sub [of "we_now env" "gw_sessions g"]
      by (auto simp: run(2) session_keys_def live_sessions_def)
    have e: "e = SignIn"
    proof (rule ccontr)
      assume "e \<noteq> SignIn"
      then have "no_new_session g1 g'" using run_endpoint_no_new run(5) by (metis fst_conv)
      then show False using assms(2,3) sub(1) by (auto simp: no_new_session_def)
    qed
    obtain m' q where q: "hq_path req = url_prefix (ww_web w) (ww_cfg w) @ q"
      "(m', SignIn) \<in> set (routes_of q)" "method_fits m' (hq_method req)"
      using run(4) e by (cases rule: resolve_Inr) auto
    have p: "q = ''/api/login''" "hq_method req = ''POST''"
      using routes_of_SignIn [OF q(2)] q(3) by (auto simp: method_fits_def)
    have o: "hq_origin req = Some (url_origin (ww_web w) (ww_cfg w))"
      using check_access_post [OF run(3)] p(2) by (simp add: safe_method_def)
    have "sign_in w env req g1 = (g', r)" using run(5) e by simp
    then show ?thesis
    proof (cases rule: sign_in_cases)
      case rejected
      then show ?thesis using assms(2,3) sub(1) by (auto simp: session_keys_def)
    next
      case (opened pw j s)
      have "session_keys g' \<subseteq> insert (we_session_id env) (session_keys g1)"
        unfolding session_keys_def opened(4) by (rule add_session_keys)
      then have "i = we_session_id env" using assms(2,3) sub(1) by blast
      moreover have "length (gw_sessions g') \<le> max 64 (length (gw_sessions g))"
        using add_session_length [of "we_session_id env" s "gw_sessions g1"] opened(4) sub(2) by simp
      ultimately show ?thesis using opened p q(1) o by (auto simp: run(2))
    qed
  qed
qed

definition sign_in_request :: http_request where
  "sign_in_request = demo_request ''POST'' ''/api/login'' (JObj [(''password'', JStr ''passpasspass'')])"

theorem session_needs_the_password_witness:
  "session_keys (fst (handle_request demo_world demo_wenv sign_in_request demo_gateway)) = {''i1''}
   \<and> (\<exists>p. verify_password plain_vault p demo_admin)"
proof -
  have k: "session_keys (fst (handle_request demo_world demo_wenv sign_in_request demo_gateway)) = {''i1''}"
    "session_keys demo_gateway = {}" by code_simp+
  from session_needs_the_password [of demo_world demo_wenv sign_in_request demo_gateway _ _ "''i1''",
      OF surjective_pairing]
  have "\<exists>p. verify_password (ww_vault demo_world) p (gw_admin demo_gateway)" using k by auto
  then show ?thesis using k by (simp add: demo_world_def demo_gateway_def)
qed

section \<open>Login flows\<close>

lemma login_needs_callback:
  "fst (complete_login lib cfg any env flow resp tk) \<noteq> tk \<Longrightarrow> check_callback flow (le_now env) resp = Inr ()"
  by (cases "check_callback flow (le_now env) resp") (auto simp: complete_login_def)

lemma additional_needs_callback:
  assumes "fst (login_additional ol cfg env ok flow resp st) \<noteq> st"
  shows "check_callback flow (le_now env) resp = Inr ()"
proof (cases "check_callback flow (le_now env) resp")
  case (Inl e)
  then show ?thesis using assms by (simp add: login_additional_def complete_login_def)
qed simp

lemma request_session_flow:
  "request_session req (set_flow (hq_cookie req) f k g) =
     map_option (\<lambda>s. s\<lparr>sn_flow := f, sn_kind := k\<rparr>) (request_session req g)"
proof -
  have "map_of (map (\<lambda>(j, s). (j, if j = i then h s else s)) ss) i = map_option h (map_of ss i)"
    for i and h :: "admin_session \<Rightarrow> admin_session" and ss
    by (induction ss) auto
  then show ?thesis by (simp add: request_session_def set_flow_def)
qed

lemma request_session_fields [simp]:
  "request_session req (g\<lparr>gw_tokens := tk\<rparr>) = request_session req g"
  "request_session req (g\<lparr>gw_additional := a\<rparr>) = request_session req g"
  by (simp_all add: request_session_def)

text \<open>
  C27: A login flow belongs to one session and is used once.  Whatever the outcome of a completion,
  the session has no flow afterwards, so a second completion is refused; and a completion changes
  the accounts only if the session had a flow and the response carries that flow's state and a
  code in time, and then only the account that the flow was begun for.
\<close>

theorem login_flow_is_single_use:
  assumes "request_session req g = Some s" and "finish_login w env req s resp g = (g1, r)"
  shows "(\<exists>s1. request_session req g1 = Some s1 \<and> sn_flow s1 = None \<and> sn_kind s1 = sn_kind s
        \<and> snd (finish_login w env2 req s1 resp2 g1) =
            Inl (Raised (ValueError ''Start a new Microsoft login in this browser session'')))
    \<and> gw_dispatcher g1 = gw_dispatcher g
    \<and> (protected g1 \<noteq> protected g \<longrightarrow>
         (\<exists>flow. sn_flow s = Some flow \<and> check_callback flow (le_now (we_login env)) resp = Inr ())
         \<and> (if sn_kind s = ''additional'' then gw_tokens g1 = gw_tokens g
            else gw_additional g1 = gw_additional g))"
proof (intro conjI)
  have "request_session req g1 = Some (s\<lparr>sn_flow := None\<rparr>)"
    using assms by (auto simp: finish_login_def Let_def request_session_flow
        split: option.splits if_splits prod.splits)
  then show "\<exists>s1. request_session req g1 = Some s1 \<and> sn_flow s1 = None \<and> sn_kind s1 = sn_kind s
        \<and> snd (finish_login w env2 req s1 resp2 g1) =
            Inl (Raised (ValueError ''Start a new Microsoft login in this browser session''))"
    by (simp add: finish_login_def)
  show "gw_dispatcher g1 = gw_dispatcher g"
    using assms by (auto simp: finish_login_def Let_def split: option.splits if_splits prod.splits)
  show "protected g1 \<noteq> protected g \<longrightarrow>
         (\<exists>flow. sn_flow s = Some flow \<and> check_callback flow (le_now (we_login env)) resp = Inr ())
         \<and> (if sn_kind s = ''additional'' then gw_tokens g1 = gw_tokens g
            else gw_additional g1 = gw_additional g)"
  proof
    assume p: "protected g1 \<noteq> protected g"
    obtain flow where f: "sn_flow s = Some flow"
      using p finish_no_flow [of s w env req resp g] assms(2) by (cases "sn_flow s") auto
    show "(\<exists>flow. sn_flow s = Some flow \<and> check_callback flow (le_now (we_login env)) resp = Inr ())
         \<and> (if sn_kind s = ''additional'' then gw_tokens g1 = gw_tokens g
            else gw_additional g1 = gw_additional g)"
    proof (cases "sn_kind s = ''additional''")
      case True
      obtain st st1 u where a: "gw_additional g = Some st"
        "login_additional (ww_oauth w) (ww_cfg w) (we_login env) (we_choice_ok env) flow resp st = (st1, u)"
        using assms(2) p f True by (auto simp: finish_login_def Let_def split: option.splits prod.splits)
      have "g1 = (set_flow (hq_cookie req) None (sn_kind s) g)\<lparr>gw_additional := Some st1\<rparr>"
        using assms(2) f True a by (simp add: finish_login_def)
      then have g: "protected g1 = (gw_tokens g, Some st1, gw_dispatcher g)" "gw_tokens g1 = gw_tokens g"
        by (simp_all add: protected_def)
      then have "st1 \<noteq> st" using p a(1) by (auto simp: protected_def)
      then have "check_callback flow (le_now (we_login env)) resp = Inr ()"
        using additional_needs_callback a(2) by (metis fst_conv)
      then show ?thesis using f g(2) True by simp
    next
      case False
      obtain tk u where a:
        "complete_login (ww_oauth w) (ww_cfg w) False (we_login env) flow resp (gw_tokens g) = (tk, u)"
        by (cases "complete_login (ww_oauth w) (ww_cfg w) False (we_login env) flow resp (gw_tokens g)")
      have "g1 = (set_flow (hq_cookie req) None (sn_kind s) g)\<lparr>gw_tokens := tk\<rparr>"
        using assms(2) f False a by (simp add: finish_login_def)
      then have g: "protected g1 = (tk, gw_additional g, gw_dispatcher g)"
        "gw_additional g1 = gw_additional g" by (simp_all add: protected_def)
      then have "tk \<noteq> gw_tokens g" using p by (auto simp: protected_def)
      then have "check_callback flow (le_now (we_login env)) resp = Inr ()"
        using login_needs_callback a by (metis fst_conv)
      then show ?thesis using f g(2) False by simp
    qed
  qed
qed

definition flow_gateway :: gateway where
  "flow_gateway = demo_gateway\<lparr>gw_sessions :=
     [(''i1'', admin_session_1\<lparr>sn_flow := Some demo_flow\<rparr>)]\<rparr>"

theorem login_flow_is_single_use_witness:
  "\<exists>s1. request_session pause_request (fst (finish_login demo_world demo_wenv pause_request
        (admin_session_1\<lparr>sn_flow := Some demo_flow\<rparr>) demo_resp flow_gateway)) = Some s1 \<and> sn_flow s1 = None"
proof -
  have "request_session pause_request flow_gateway = Some (admin_session_1\<lparr>sn_flow := Some demo_flow\<rparr>)"
    by (simp add: request_session_def flow_gateway_def pause_request_def demo_request_def)
  from login_flow_is_single_use [OF this surjective_pairing] show ?thesis by blast
qed

section \<open>Credentials\<close>

text \<open>What the status of an account shows: everything but the tokens themselves.\<close>

definition visible_record :: "account_record \<Rightarrow> string \<times> string \<times> string option \<times> rat option \<times> bool \<times> bool" where
  "visible_record r = (ar_mode r, ar_username r, ar_default_sender r, ar_last_refresh r,
     truthy (ar_refresh r), ar_refresh r = JNull)"

definition alike :: "token_state \<Rightarrow> token_state \<Rightarrow> bool" where
  "alike a b = (map_option visible_record (tk_record a) = map_option visible_record (tk_record b)
     \<and> tk_expires a = tk_expires b \<and> tk_last_error a = tk_last_error b
     \<and> tk_needs_login a = tk_needs_login b)"

definition alike_additional :: "additional_state option \<Rightarrow> additional_state option \<Rightarrow> bool" where
  "alike_additional a b = (case (a, b) of
      (None, None) \<Rightarrow> True
    | (Some x, Some y) \<Rightarrow> ad_choice x = ad_choice y \<and> alike (ad_tokens x) (ad_tokens y)
    | _ \<Rightarrow> False)"

lemma alike_status: "alike a b \<Longrightarrow> token_status cfg a = token_status cfg b"
  by (cases "tk_record a"; cases "tk_record b")
    (auto simp: alike_def visible_record_def token_status_def refresh_of_def record_username_def)

lemma alike_sender:
  assumes "ad_choice x = ad_choice y" "alike (ad_tokens x) (ad_tokens y)"
  shows "additional_status cfg x = additional_status cfg y" "default_sender cfg x = default_sender cfg y"
    "selected_sender cfg x = selected_sender cfg y" "sender_status_of cfg x = sender_status_of cfg y"
proof -
  show s: "additional_status cfg x = additional_status cfg y"
    using alike_status [OF assms(2)] by (simp add: additional_status_def)
  show d: "default_sender cfg x = default_sender cfg y"
    using assms(2) s by (cases "tk_record (ad_tokens x)"; cases "tk_record (ad_tokens y)")
      (auto simp: default_sender_def alike_def visible_record_def)
  show e: "selected_sender cfg x = selected_sender cfg y"
    using s d assms(1) by (simp add: selected_sender_def split: option.split)
  show "sender_status_of cfg x = sender_status_of cfg y"
    using s d e assms(1) by (simp add: sender_status_of_def)
qed

lemma alike_json: "alike_additional a b \<Longrightarrow> sender_json cfg a = sender_json cfg b"
  by (auto simp: alike_additional_def sender_json_def alike_sender(4) split: option.splits)

text \<open>
   The pages show no credential.  For two gateways that differ only in the tokens themselves
  (access tokens, refresh tokens, their digests and counters, cached keys), the status page, the
  readiness probe, the message list and the exports answer the same, so no response of theirs can
  depend on a token.
\<close>

theorem pages_show_no_credential:
  assumes "e \<in> {ShowStats, Ready, ListMessages, ExportMessage i, SessionInfo, Live}"
    and "alike (gw_tokens g) tk" and "alike_additional (gw_additional g) a"
  shows "snd (run_endpoint w env req s e (g\<lparr>gw_tokens := tk, gw_additional := a\<rparr>)) =
    snd (run_endpoint w env req s e g)"
proof -
  have st: "token_status cfg tk = token_status cfg (gw_tokens g)" for cfg
    using alike_status [OF assms(2)] by simp
  have j: "sender_json cfg a = sender_json cfg (gw_additional g)" for cfg
    using alike_json [OF assms(3)] by simp
  have r: "senders_ready w (g\<lparr>gw_tokens := tk, gw_additional := a\<rparr>) = senders_ready w g"
    using assms(3) by (auto simp: senders_ready_def st alike_additional_def alike_sender split: option.splits)
  have q: "gateway_stats w env (g\<lparr>gw_tokens := tk, gw_additional := a\<rparr>) = gateway_stats w env g"
    by (simp add: gateway_stats_def)
  have "ready_response w env (g\<lparr>gw_tokens := tk, gw_additional := a\<rparr>) = ready_response w env g"
    unfolding ready_response_def is_ready_def q r by simp
  moreover have "snd (show_stats w env (g\<lparr>gw_tokens := tk, gw_additional := a\<rparr>)) = snd (show_stats w env g)"
    unfolding show_stats_def Let_def q by (simp add: st j)
  ultimately show ?thesis using assms(1)
    by (auto simp: list_messages_def export_message_def with_session_def session_info_def split: option.split)
qed

definition other_secret :: token_state where
  "other_secret = demo_tokens\<lparr>tk_access := ''top secret'',
     tk_record := Some (demo_record\<lparr>ar_refresh := JStr ''another''\<rparr>)\<rparr>"

theorem pages_show_no_credential_witness:
  "snd (run_endpoint demo_world demo_wenv pause_request None ShowStats
      (demo_gateway\<lparr>gw_tokens := other_secret, gw_additional := None\<rparr>)) =
   snd (run_endpoint demo_world demo_wenv pause_request None ShowStats demo_gateway)"
proof (rule pages_show_no_credential)
  show "alike (gw_tokens demo_gateway) other_secret" by code_simp
qed (simp_all add: alike_additional_def demo_gateway_def)

end
