(* ===== verification/Gw_Validate.thy ===== *)
theory Gw_Validate
  imports Gw_Message Gw_Values Gw_Net "HOL-Library.List_Lexorder" "HOL-Library.Char_ord"
begin

text \<open>
  \<open>config.py\<close>, the checks: \<open>Config.validate\<close> as the list of its checks in the order of the code,
  and \<open>load_config\<close> over the tables that \<open>tomllib\<close> reads.  \<open>cli.config_text\<close>, which writes a
  configuration that \<open>load_config\<close> reads, is here too, since both go through the field tables.
\<close>

section \<open>What the libraries provide\<close>

text \<open>
  \<open>cl_urlsplit\<close>: \<open>urllib.parse.urlsplit\<close> with the attributes the checks look at (\<open>None\<close> where it
  raises \<open>ValueError\<close>); \<open>cl_network\<close>, \<open>cl_address\<close>: \<open>ipaddress.ip_network\<close>, \<open>ip_address\<close>;
  \<open>cl_expanduser\<close>, \<open>cl_resolve\<close>: \<open>Path.expanduser\<close>, and the absolute path of a path relative to the
  directory of the configuration file; \<open>cl_dumps\<close>: the text \<open>json.dumps\<close> gives; \<open>cl_loads\<close>:
  \<open>tomllib.loads\<close>.
\<close>

datatype toml =
    TStr string
  | TInt int
  | TFloat pyfloat
  | TBool bool
  | TList "toml list"
  | TTable "(string \<times> toml) list"

type_synonym toml_table = "(string \<times> toml) list"

record url_parts =
  up_scheme :: string
  up_host :: "string option"
  up_user :: "string option"
  up_password :: "string option"
  up_path :: string
  up_query :: string
  up_fragment :: string

record config_lib =
  cl_email :: email_lib
  cl_urlsplit :: "string \<Rightarrow> url_parts option"
  cl_network :: "string \<Rightarrow> network option"
  cl_address :: "string \<Rightarrow> ip option"
  cl_expanduser :: "string \<Rightarrow> string"
  cl_is_absolute :: "string \<Rightarrow> bool"
  cl_resolve :: "string \<Rightarrow> string"
  cl_dumps :: "toml \<Rightarrow> string"
  cl_loads :: "string \<Rightarrow> toml_table option"

section \<open>Pieces of the checks\<close>

fun first_error :: "unit res list \<Rightarrow> unit res" where
  "first_error [] = Inr ()"
| "first_error (r # rs) = (case r of Inl e \<Rightarrow> Inl e | Inr u \<Rightarrow> first_error rs)"

text \<open>\<open>re.fullmatch(r"[A-Za-z0-9.-]+", s)\<close>, \<open>re.fullmatch(r"[0-9a-fA-F-]{36}", s)\<close>, and
  \<open>re.search(r"[\r\n\x00]", s)\<close>.\<close>

definition plain_name :: "string \<Rightarrow> bool" where
  "plain_name s = (s \<noteq> [] \<and> list_all (\<lambda>c. is_alnum c \<or> c = CHR ''.'' \<or> c = CHR ''-'') s)"

definition is_hex :: "char \<Rightarrow> bool" where
  "is_hex c = (is_digit c \<or> (97 \<le> code (fold_char c) \<and> code (fold_char c) \<le> 102))"

definition uuid_like :: "string \<Rightarrow> bool" where
  "uuid_like s = (length s = 36 \<and> list_all (\<lambda>c. is_hex c \<or> c = CHR ''-'') s)"

definition breaks_line :: "string \<Rightarrow> bool" where
  "breaks_line s = list_ex (\<lambda>c. c = CR \<or> c = LF \<or> c = CHR 0x00) s"

text \<open>\<open>re.fullmatch(r"/[A-Za-z0-9_-]+(?:/[A-Za-z0-9_-]+)*", path)\<close>: the parts between slashes.\<close>

fun split_on :: "char \<Rightarrow> string \<Rightarrow> string list" where
  "split_on x [] = [[]]"
| "split_on x (c # cs) = (if c = x then [] # split_on x cs
     else (case split_on x cs of [] \<Rightarrow> [[c]] | p # ps \<Rightarrow> (c # p) # ps))"

definition simple_path :: "string \<Rightarrow> bool" where
  "simple_path p = (case p of
      [] \<Rightarrow> False
    | c # cs \<Rightarrow> c = CHR 0x2F \<and> list_all (\<lambda>s. s \<noteq> [] \<and>
        list_all (\<lambda>x. is_alnum x \<or> x = CHR ''_'' \<or> x = CHR ''-'') s) (split_on (CHR 0x2F) cs))"

definition present :: "string option \<Rightarrow> bool" where
  "present x = (x \<noteq> None \<and> x \<noteq> Some [])"

definition loopback_hosts :: "string list" where
  "loopback_hosts = [''localhost'', ''127.0.0.1'', ''::1'']"

definition plain_http_remote :: "url_parts \<Rightarrow> bool" where
  "plain_http_remote u = (up_scheme u = ''http'' \<and> up_host u \<notin> set (map Some loopback_hosts))"

fun prefix_length :: "network \<Rightarrow> nat" where
  "prefix_length (Net4 a n) = n"
| "prefix_length (Net6 a n) = n"

text \<open>A float that is finite and positive.\<close>

definition positive_float :: "pyfloat \<Rightarrow> bool" where
  "positive_float x = (case x of Fin r \<Rightarrow> 0 < r | _ \<Rightarrow> False)"

text \<open>A check on a URL that may not even be one.\<close>

definition with_url :: "config_lib \<Rightarrow> string \<Rightarrow> (url_parts \<Rightarrow> unit res) \<Rightarrow> unit res" where
  "with_url lib s f = (case cl_urlsplit lib s of None \<Rightarrow> Inl (ValueError ''Invalid URL'') | Some u \<Rightarrow> f u)"

definition refuse :: "bool \<Rightarrow> string \<Rightarrow> unit res" where
  "refuse b t = guard_res b (ValueError t)"

definition ignore :: "'a res \<Rightarrow> unit res" where
  "ignore r = bind_res r (\<lambda>x. Inr ())"

section \<open>\<open>Config.validate\<close>\<close>

definition sender_checks :: "config_lib \<Rightarrow> account_config \<Rightarrow> unit res list" where
  "sender_checks lib a =
     (if acc_sender a \<noteq> []
      then [ignore (mailbox (cl_email lib) (acc_sender a) False),
            ignore (mailbox (cl_email lib) (username a) False)]
      else [refuse (acc_login_username a \<noteq> []) ''account.login_username requires account.sender''])"

definition account_checks :: "account_config \<Rightarrow> unit res list" where
  "account_checks a =
     [refuse (acc_backend a \<notin> {''ews'', ''graph''}) ''account.backend must be ews or graph'',
      refuse (acc_send_shared a \<and> acc_backend a \<noteq> ''graph'')
        ''account.send_shared must be a boolean and requires Graph'',
      refuse (acc_recipient_policy a \<notin> {''davmail_union'', ''envelope_strict''})
        ''Invalid recipient_policy'',
      refuse (acc_nat_marker a = [] \<or> breaks_line (acc_nat_marker a)) ''Invalid NAT marker'']"

definition name_checks :: "config \<Rightarrow> unit res list" where
  "name_checks cfg =
     (let a = cfg_account cfg; x = cfg_additional cfg in
      [refuse (\<not> plain_name (smtp_hostname (cfg_smtp cfg))) ''Invalid SMTP hostname'',
       refuse (\<not> plain_name (acc_tenant_id a)) ''Invalid tenant_id'',
       refuse (\<not> uuid_like (acc_client_id a)) ''client_id must be an application UUID'',
       refuse (add_tenant_id x \<noteq> [] \<and> \<not> plain_name (add_tenant_id x)) ''additional.tenant_id is invalid'',
       refuse (add_client_id x \<noteq> [] \<and> \<not> uuid_like (add_client_id x))
         ''additional.client_id must be an application UUID''])"

definition network_checks :: "config_lib \<Rightarrow> smtp_config \<Rightarrow> unit res list" where
  "network_checks lib s =
     (let ns = map (cl_network lib) (smtp_allowed_networks s) in
      [refuse (None \<in> set ns) ''does not appear to be an IPv4 or IPv6 network'',
       refuse (ns = [] \<or> list_ex (\<lambda>n. prefix_length (the n) = 0) ns)
         ''Explicit, non-world SMTP client CIDRs are required''])"

definition domain_checks :: "account_config \<Rightarrow> unit res list" where
  "domain_checks a =
     [refuse (list_ex (\<lambda>d. \<not> plain_name d) (acc_allowed_recipient_domains a))
        ''Recipient domains must be plain DNS names'']"

definition counts_of :: "config \<Rightarrow> int list" where
  "counts_of cfg =
     (let s = cfg_smtp cfg; q = cfg_queue cfg; d = cfg_delivery cfg in
      [smtp_max_connections s, smtp_max_message_bytes s, smtp_max_recipients s, smtp_max_header_bytes s,
       smtp_max_buffer_bytes s, q_max_messages q, q_max_bytes q, q_batch_size q, q_pending_submissions q,
       q_history_days q, d_workers d, d_max_attempts d, web_session_seconds (cfg_web cfg)])"

definition floats_of :: "config \<Rightarrow> pyfloat list" where
  "floats_of cfg =
     (let s = cfg_smtp cfg; q = cfg_queue cfg; d = cfg_delivery cfg in
      [smtp_command_timeout s, smtp_data_timeout s, q_batch_seconds q, d_messages_per_second d,
       d_max_age_hours d, d_request_timeout d, d_connect_timeout d, d_retry_base_seconds d,
       d_retry_max_seconds d, d_shutdown_seconds d])"

definition valid_port :: "int \<Rightarrow> bool" where
  "valid_port p = (1 \<le> p \<and> p \<le> 65535)"

definition number_checks :: "config \<Rightarrow> unit res list" where
  "number_checks cfg =
     (let s = cfg_smtp cfg; a = cfg_account cfg; d = cfg_delivery cfg in
      [refuse (\<not> valid_port (smtp_port s) \<or> \<not> valid_port (web_port (cfg_web cfg)))
         ''Ports must be in 1..65535'',
       refuse (list_ex (\<lambda>n. n \<le> 0) (counts_of cfg)) ''Capacity and count values must be positive'',
       refuse (list_ex (\<lambda>x. \<not> positive_float x) (floats_of cfg))
         ''Rates and timeouts must be finite and positive'',
       refuse (d_recipient_limit_24h d < 0 \<or> q_min_free_bytes (cfg_queue cfg) < 0)
         ''Quota/minimum free space cannot be negative'',
       refuse (d_workers d > 4) ''This single-mailbox gateway allows at most four upstream workers'',
       refuse (acc_backend a = ''graph'' \<and> (\<not> acc_save_in_sent a \<or> smtp_max_message_bytes s > 2500000))
         ''Graph MIME mode requires save_in_sent=true and max_message_bytes<=2500000'',
       refuse ((smtp_tls_cert s \<noteq> []) \<noteq> (smtp_tls_key s \<noteq> []))
         ''Supply both SMTP TLS certificate and key''])"

definition bad_base :: "url_parts \<Rightarrow> bool" where
  "bad_base u =
     (let path = rstrip_char (CHR 0x2F) (up_path u) in
      up_scheme u \<notin> {''http'', ''https''} \<or> up_host u = None \<or> up_query u \<noteq> [] \<or> up_fragment u \<noteq> []
      \<or> present (up_user u) \<or> present (up_password u) \<or> ends_with ''//'' (up_path u)
      \<or> path \<noteq> [] \<and> \<not> simple_path path)"

definition bad_redirect :: "url_parts \<Rightarrow> bool" where
  "bad_redirect u =
     (up_scheme u \<notin> {''https'', ''http''} \<or> up_host u = None \<or> up_query u \<noteq> [] \<or> up_fragment u \<noteq> []
      \<or> present (up_user u))"

definition url_checks :: "config_lib \<Rightarrow> config \<Rightarrow> unit res list" where
  "url_checks lib cfg =
     (let a = cfg_account cfg; w = cfg_web cfg; x = cfg_additional cfg in
      [with_url lib (acc_ews_url a) (\<lambda>u. refuse (up_scheme u \<noteq> ''https'' \<or> up_host u = None \<or> up_user u \<noteq> None)
         ''The EWS endpoint must be HTTPS without embedded credentials''),
       with_url lib (web_base_url w) (\<lambda>u. refuse (bad_base u)
         ''web.base_url must be an HTTP(S) URL with an optional simple path prefix''),
       with_url lib (web_base_url w) (\<lambda>u. refuse (plain_http_remote u)
         ''Remote WebUI requires HTTPS through a reverse proxy''),
       refuse (list_ex (\<lambda>p. cl_address lib p = None) (web_trusted_proxy_ips w))
         ''does not appear to be an IPv4 or IPv6 address'',
       with_url lib (acc_redirect_uri a) (\<lambda>u. refuse (bad_redirect u) ''Invalid OAuth redirect URI''),
       with_url lib (acc_redirect_uri a) (\<lambda>u. refuse (plain_http_remote u)
         ''Plain HTTP OAuth callbacks must be loopback'')] @
      (if add_redirect_uri x = [] then []
       else
        [with_url lib (add_redirect_uri x) (\<lambda>u. refuse (bad_redirect u \<or> present (up_password u))
           ''Invalid additional OAuth redirect URI''),
         with_url lib (add_redirect_uri x) (\<lambda>u. refuse (plain_http_remote u)
           ''Plain HTTP additional OAuth callbacks must be loopback'')]))"

text \<open>All checks, in order; then the base URL loses its trailing slashes.\<close>

definition config_checks :: "config_lib \<Rightarrow> config \<Rightarrow> unit res list" where
  "config_checks lib cfg =
     sender_checks lib (cfg_account cfg) @ account_checks (cfg_account cfg) @ name_checks cfg @
     network_checks lib (cfg_smtp cfg) @ domain_checks (cfg_account cfg) @ number_checks cfg @
     url_checks lib cfg"

definition stripped_base :: "config \<Rightarrow> config" where
  "stripped_base cfg = cfg\<lparr>cfg_web := (cfg_web cfg)\<lparr>web_base_url := rstrip_char (CHR 0x2F) (web_base_url (cfg_web cfg))\<rparr>\<rparr>"

definition validate :: "config_lib \<Rightarrow> config \<Rightarrow> config res" where
  "validate lib cfg = bind_res (first_error (config_checks lib cfg)) (\<lambda>u. Inr (stripped_base cfg))"

section \<open>Field tables\<close>

text \<open>
  A field of a dataclass: its name, its value as \<open>asdict\<close> gives it, and how a value read from the
  file sets it; \<open>None\<close> for a value that is not of the declared type.
\<close>

type_synonym 'r fld = "string \<times> ('r \<Rightarrow> toml) \<times> (toml \<Rightarrow> 'r \<Rightarrow> 'r option)"

definition str_fld :: "string \<Rightarrow> ('r \<Rightarrow> string) \<Rightarrow> ((string \<Rightarrow> string) \<Rightarrow> 'r \<Rightarrow> 'r) \<Rightarrow> 'r fld" where
  "str_fld n get upd = (n, \<lambda>r. TStr (get r),
     \<lambda>v r. case v of TStr s \<Rightarrow> Some (upd (\<lambda>_. s) r) | _ \<Rightarrow> None)"

definition int_fld :: "string \<Rightarrow> ('r \<Rightarrow> int) \<Rightarrow> ((int \<Rightarrow> int) \<Rightarrow> 'r \<Rightarrow> 'r) \<Rightarrow> 'r fld" where
  "int_fld n get upd = (n, \<lambda>r. TInt (get r),
     \<lambda>v r. case v of TInt i \<Rightarrow> Some (upd (\<lambda>_. i) r) | _ \<Rightarrow> None)"

definition bool_fld :: "string \<Rightarrow> ('r \<Rightarrow> bool) \<Rightarrow> ((bool \<Rightarrow> bool) \<Rightarrow> 'r \<Rightarrow> 'r) \<Rightarrow> 'r fld" where
  "bool_fld n get upd = (n, \<lambda>r. TBool (get r),
     \<lambda>v r. case v of TBool b \<Rightarrow> Some (upd (\<lambda>_. b) r) | _ \<Rightarrow> None)"

text \<open>An integer is as good as a float.\<close>

definition float_fld :: "string \<Rightarrow> ('r \<Rightarrow> pyfloat) \<Rightarrow> ((pyfloat \<Rightarrow> pyfloat) \<Rightarrow> 'r \<Rightarrow> 'r) \<Rightarrow> 'r fld" where
  "float_fld n get upd = (n, \<lambda>r. TFloat (get r),
     \<lambda>v r. case v of TFloat x \<Rightarrow> Some (upd (\<lambda>_. x) r) | TInt i \<Rightarrow> Some (upd (\<lambda>_. Fin (of_int i)) r) | _ \<Rightarrow> None)"

fun text_of :: "toml \<Rightarrow> string option" where
  "text_of (TStr s) = Some s"
| "text_of _ = None"

fun texts_of :: "toml list \<Rightarrow> string list option" where
  "texts_of [] = Some []"
| "texts_of (v # vs) = (case (text_of v, texts_of vs) of (Some s, Some ss) \<Rightarrow> Some (s # ss) | _ \<Rightarrow> None)"

definition list_fld ::
  "string \<Rightarrow> ('r \<Rightarrow> string list) \<Rightarrow> ((string list \<Rightarrow> string list) \<Rightarrow> 'r \<Rightarrow> 'r) \<Rightarrow> 'r fld" where
  "list_fld n get upd = (n, \<lambda>r. TList (map TStr (get r)),
     \<lambda>v r. case v of TList vs \<Rightarrow> map_option (\<lambda>ss. upd (\<lambda>_. ss) r) (texts_of vs) | _ \<Rightarrow> None)"

definition smtp_fields :: "smtp_config fld list" where
  "smtp_fields =
     [str_fld ''host'' smtp_host smtp_host_update,
      int_fld ''port'' smtp_port smtp_port_update,
      str_fld ''hostname'' smtp_hostname smtp_hostname_update,
      list_fld ''allowed_networks'' smtp_allowed_networks smtp_allowed_networks_update,
      int_fld ''max_connections'' smtp_max_connections smtp_max_connections_update,
      int_fld ''max_message_bytes'' smtp_max_message_bytes smtp_max_message_bytes_update,
      int_fld ''max_recipients'' smtp_max_recipients smtp_max_recipients_update,
      int_fld ''max_header_bytes'' smtp_max_header_bytes smtp_max_header_bytes_update,
      int_fld ''max_buffer_bytes'' smtp_max_buffer_bytes smtp_max_buffer_bytes_update,
      float_fld ''command_timeout'' smtp_command_timeout smtp_command_timeout_update,
      float_fld ''data_timeout'' smtp_data_timeout smtp_data_timeout_update,
      str_fld ''tls_cert'' smtp_tls_cert smtp_tls_cert_update,
      str_fld ''tls_key'' smtp_tls_key smtp_tls_key_update]"

definition web_fields :: "web_config fld list" where
  "web_fields =
     [str_fld ''host'' web_host web_host_update,
      int_fld ''port'' web_port web_port_update,
      str_fld ''base_url'' web_base_url web_base_url_update,
      int_fld ''session_seconds'' web_session_seconds web_session_seconds_update,
      list_fld ''trusted_proxy_ips'' web_trusted_proxy_ips web_trusted_proxy_ips_update]"

definition account_fields :: "account_config fld list" where
  "account_fields =
     [str_fld ''sender'' acc_sender acc_sender_update,
      str_fld ''login_username'' acc_login_username acc_login_username_update,
      str_fld ''backend'' acc_backend acc_backend_update,
      str_fld ''tenant_id'' acc_tenant_id acc_tenant_id_update,
      str_fld ''client_id'' acc_client_id acc_client_id_update,
      str_fld ''redirect_uri'' acc_redirect_uri acc_redirect_uri_update,
      str_fld ''ews_url'' acc_ews_url acc_ews_url_update,
      bool_fld ''save_in_sent'' acc_save_in_sent acc_save_in_sent_update,
      str_fld ''client_secret_env'' acc_client_secret_env acc_client_secret_env_update,
      str_fld ''nat_marker'' acc_nat_marker acc_nat_marker_update,
      str_fld ''recipient_policy'' acc_recipient_policy acc_recipient_policy_update,
      list_fld ''allowed_recipient_domains'' acc_allowed_recipient_domains acc_allowed_recipient_domains_update,
      bool_fld ''send_shared'' acc_send_shared acc_send_shared_update]"

definition additional_fields :: "additional_config fld list" where
  "additional_fields =
     [str_fld ''tenant_id'' add_tenant_id add_tenant_id_update,
      str_fld ''client_id'' add_client_id add_client_id_update,
      str_fld ''redirect_uri'' add_redirect_uri add_redirect_uri_update,
      str_fld ''client_secret_env'' add_client_secret_env add_client_secret_env_update]"

definition queue_fields :: "queue_config fld list" where
  "queue_fields =
     [int_fld ''max_messages'' q_max_messages q_max_messages_update,
      int_fld ''max_bytes'' q_max_bytes q_max_bytes_update,
      int_fld ''min_free_bytes'' q_min_free_bytes q_min_free_bytes_update,
      int_fld ''batch_size'' q_batch_size q_batch_size_update,
      float_fld ''batch_seconds'' q_batch_seconds q_batch_seconds_update,
      int_fld ''pending_submissions'' q_pending_submissions q_pending_submissions_update,
      int_fld ''history_days'' q_history_days q_history_days_update]"

definition delivery_fields :: "delivery_config fld list" where
  "delivery_fields =
     [int_fld ''workers'' d_workers d_workers_update,
      float_fld ''messages_per_second'' d_messages_per_second d_messages_per_second_update,
      int_fld ''recipient_limit_24h'' d_recipient_limit_24h d_recipient_limit_24h_update,
      int_fld ''max_attempts'' d_max_attempts d_max_attempts_update,
      float_fld ''max_age_hours'' d_max_age_hours d_max_age_hours_update,
      float_fld ''request_timeout'' d_request_timeout d_request_timeout_update,
      float_fld ''connect_timeout'' d_connect_timeout d_connect_timeout_update,
      float_fld ''retry_base_seconds'' d_retry_base_seconds d_retry_base_seconds_update,
      float_fld ''retry_max_seconds'' d_retry_max_seconds d_retry_max_seconds_update,
      float_fld ''shutdown_seconds'' d_shutdown_seconds d_shutdown_seconds_update]"

text \<open>\<open>asdict\<close>, and \<open>cls( ** table)\<close>.\<close>

definition write_fields :: "'r fld list \<Rightarrow> 'r \<Rightarrow> toml_table" where
  "write_fields fs r = map (\<lambda>(n, g, u). (n, g r)) fs"

fun read_fields :: "'r fld list \<Rightarrow> toml_table \<Rightarrow> 'r \<Rightarrow> 'r option" where
  "read_fields fs [] r = Some r"
| "read_fields fs ((k, v) # t) r =
     (case map_of fs k of
        None \<Rightarrow> None
      | Some (g, u) \<Rightarrow> (case u v r of None \<Rightarrow> None | Some r1 \<Rightarrow> read_fields fs t r1))"

section \<open>\<open>load_config\<close>\<close>

text \<open>The keys outside a set, as the message lists them.\<close>

definition unknown_keys :: "string list \<Rightarrow> toml_table \<Rightarrow> string list" where
  "unknown_keys known t = sort (filter (\<lambda>k. k \<notin> set known) (map fst t))"

definition section_names :: "string list" where
  "section_names = [''smtp'', ''web'', ''account'', ''additional'', ''queue'', ''delivery'']"

text \<open>
  One section.  The code does not look at the types of values; the records here hold values of the
  declared types only, so \<open>Inr None\<close> says that the file is outside the model.
\<close>

definition load_section :: "string \<Rightarrow> 'r fld list \<Rightarrow> 'r \<Rightarrow> toml_table \<Rightarrow> 'r option res" where
  "load_section name fs initial raw =
     (case map_of raw name of
        None \<Rightarrow> Inr (Some initial)
      | Some (TTable t) \<Rightarrow>
          (let unknown = unknown_keys (map fst fs) t in
           if unknown \<noteq> []
           then Inl (ValueError (''Unknown ['' @ name @ ''] keys: '' @ join_with '', '' unknown))
           else Inr (read_fields fs t initial))
      | Some v \<Rightarrow> Inr None)"

definition bind_typed :: "'a option res \<Rightarrow> ('a \<Rightarrow> 'b option res) \<Rightarrow> 'b option res" where
  "bind_typed m f = bind_res m (\<lambda>x. case x of None \<Rightarrow> Inr None | Some y \<Rightarrow> f y)"

definition load_data_dir :: "config_lib \<Rightarrow> toml_table \<Rightarrow> string option" where
  "load_data_dir lib raw =
     map_option (\<lambda>s. let d = cl_expanduser lib s in if cl_is_absolute lib d then d else cl_resolve lib d)
       (case map_of raw ''data_dir'' of None \<Rightarrow> Some ''./state'' | Some v \<Rightarrow> text_of v)"

definition load_tables :: "config_lib \<Rightarrow> toml_table \<Rightarrow> config option res" where
  "load_tables lib raw =
     (let unknown = unknown_keys (''data_dir'' # section_names) raw in
      if unknown \<noteq> [] then Inl (ValueError (''Unknown configuration keys: '' @ join_with '', '' unknown))
      else bind_typed (Inr (load_data_dir lib raw)) (\<lambda>dir.
        bind_typed (load_section ''smtp'' smtp_fields default_smtp raw) (\<lambda>s.
        bind_typed (load_section ''web'' web_fields default_web raw) (\<lambda>w.
        bind_typed (load_section ''account'' account_fields default_account raw) (\<lambda>a.
        bind_typed (load_section ''additional'' additional_fields default_additional raw) (\<lambda>x.
        bind_typed (load_section ''queue'' queue_fields default_queue raw) (\<lambda>q.
        bind_typed (load_section ''delivery'' delivery_fields default_delivery raw) (\<lambda>d.
          Inr (Some \<lparr>cfg_data_dir = dir, cfg_smtp = s, cfg_web = w, cfg_account = a,
            cfg_additional = x, cfg_queue = q, cfg_delivery = d\<rparr>)))))))))"

definition load_config :: "config_lib \<Rightarrow> string \<Rightarrow> config option res" where
  "load_config lib text =
     (case cl_loads lib text of
        None \<Rightarrow> Inl (ValueError ''TOMLDecodeError'')
      | Some raw \<Rightarrow> bind_typed (load_tables lib raw) (\<lambda>cfg.
          bind_res (validate lib cfg) (\<lambda>c. Inr (Some c))))"

section \<open>\<open>config_text\<close>\<close>

definition config_tables :: "config \<Rightarrow> (string \<times> toml_table) list" where
  "config_tables cfg =
     [(''smtp'', write_fields smtp_fields (cfg_smtp cfg)), (''web'', write_fields web_fields (cfg_web cfg)),
      (''account'', write_fields account_fields (cfg_account cfg)),
      (''additional'', write_fields additional_fields (cfg_additional cfg)),
      (''queue'', write_fields queue_fields (cfg_queue cfg)),
      (''delivery'', write_fields delivery_fields (cfg_delivery cfg))]"

definition setting_line :: "config_lib \<Rightarrow> string \<times> toml \<Rightarrow> string" where
  "setting_line lib kv = fst kv @ '' = '' @ cl_dumps lib (snd kv)"

definition section_lines :: "config_lib \<Rightarrow> string \<times> toml_table \<Rightarrow> string list" where
  "section_lines lib s = ((CHR 0x5B # fst s) @ '']'') # map (setting_line lib) (snd s) @ [[]]"

definition config_text :: "config_lib \<Rightarrow> config \<Rightarrow> string" where
  "config_text lib cfg = join_with [LF]
     ([''# SMTP has no AUTH. Restrict trusted clients with CIDRs AND a firewall.'',
       ''# The WebUI password is separate. Never put Microsoft tokens in this file.'',
       setting_line lib (''data_dir'', TStr (cfg_data_dir cfg)), []] @
      concat (map (section_lines lib) (config_tables cfg)))"

end
