(* ===== verification/Gw_Validate_Claims.thy ===== *)
theory Gw_Validate_Claims
  imports Gw_Validate_Props Gw_Message_Policy
begin

text \<open>
  The guarantees of \<open>load_config\<close> (\<open>config.py\<close>): settings of the file take effect or are refused, a
  validated configuration is within the limits the other components rely on, and a configuration
  that \<open>init\<close> writes is read back.
\<close>

section \<open>Settings take effect\<close>

text \<open>The value of a setting in a configuration.\<close>

definition setting :: "config \<Rightarrow> string \<Rightarrow> string \<Rightarrow> toml option" where
  "setting cfg s k = Option.bind (map_of (config_tables cfg) s) (\<lambda>t. map_of t k)"

lemma load_tables_Inr:
  assumes "load_tables lib raw = Inr (Some cfg)"
  shows "unknown_keys (''data_dir'' # section_names) raw = []"
    "load_data_dir lib raw = Some (cfg_data_dir cfg)"
    "load_section ''smtp'' smtp_fields default_smtp raw = Inr (Some (cfg_smtp cfg))"
    "load_section ''web'' web_fields default_web raw = Inr (Some (cfg_web cfg))"
    "load_section ''account'' account_fields default_account raw = Inr (Some (cfg_account cfg))"
    "load_section ''additional'' additional_fields default_additional raw = Inr (Some (cfg_additional cfg))"
    "load_section ''queue'' queue_fields default_queue raw = Inr (Some (cfg_queue cfg))"
    "load_section ''delivery'' delivery_fields default_delivery raw = Inr (Some (cfg_delivery cfg))"
  using assms by (auto simp: load_tables_def bind_typed_def bind_res_def Let_def
      split: sum.splits option.splits if_splits)

lemma setting_section:
  "setting cfg ''smtp'' k = map_of (write_fields smtp_fields (cfg_smtp cfg)) k"
  "setting cfg ''web'' k = map_of (write_fields web_fields (cfg_web cfg)) k"
  "setting cfg ''account'' k = map_of (write_fields account_fields (cfg_account cfg)) k"
  "setting cfg ''additional'' k = map_of (write_fields additional_fields (cfg_additional cfg)) k"
  "setting cfg ''queue'' k = map_of (write_fields queue_fields (cfg_queue cfg)) k"
  "setting cfg ''delivery'' k = map_of (write_fields delivery_fields (cfg_delivery cfg)) k"
  by (simp_all add: setting_def config_tables_def)

lemma default_sections [simp]:
  "cfg_smtp default_config = default_smtp" "cfg_web default_config = default_web"
  "cfg_account default_config = default_account" "cfg_additional default_config = default_additional"
  "cfg_queue default_config = default_queue" "cfg_delivery default_config = default_delivery"
  by (simp_all add: default_config_def)

lemma loaded_settings:
  assumes "load_tables lib raw = Inr (Some cfg)" and "unique_keys raw" and "s \<in> set section_names"
  shows "takes_effect (given raw s k) (setting default_config s k) (setting cfg s k)"
proof -
  note l = load_tables_Inr [OF assms(1)]
  have "\<forall>s \<in> set section_names.
      takes_effect (given raw s k) (setting default_config s k) (setting cfg s k)"
    unfolding section_names_def list.set ball_simps
    using smtp_section.section_takes_effect [OF l(3) assms(2), of k]
      web_section.section_takes_effect [OF l(4) assms(2), of k]
      account_section.section_takes_effect [OF l(5) assms(2), of k]
      additional_section.section_takes_effect [OF l(6) assms(2), of k]
      queue_section.section_takes_effect [OF l(7) assms(2), of k]
      delivery_section.section_takes_effect [OF l(8) assms(2), of k]
    unfolding setting_section default_sections by blast
  then show ?thesis using assms(3) by blast
qed

text \<open>An instance: a library that reads the addresses of the default configuration.\<close>

definition plain_url :: "string \<Rightarrow> string \<Rightarrow> string \<Rightarrow> url_parts" where
  "plain_url s h p = \<lparr>up_scheme = s, up_host = Some h, up_user = None, up_password = None, up_path = p,
     up_query = [], up_fragment = []\<rparr>"

definition plain_config_lib :: config_lib where
  "plain_config_lib = \<lparr>cl_email = plain_lib,
     cl_urlsplit = (\<lambda>s. if is_prefix ''https://login'' s
         then Some (plain_url ''https'' ''login.microsoftonline.com'' ''/common/oauth2/nativeclient'')
       else if is_prefix ''https://outlook'' s
         then Some (plain_url ''https'' ''outlook.office365.com'' ''/EWS/Exchange.asmx'')
       else if is_prefix ''http://127.0.0.1'' s then Some (plain_url ''http'' ''127.0.0.1'' [])
       else None),
     cl_network = (\<lambda>s. if s = ''127.0.0.0/8'' then Some (Net4 0x7F000000 8)
       else if s = ''::1/128'' then Some (Net6 1 128)
       else if s = ''0.0.0.0/1'' then Some (Net4 0 1)
       else if s = ''128.0.0.0/1'' then Some (Net4 0x80000000 1) else None),
     cl_address = (\<lambda>s. None), cl_expanduser = (\<lambda>s. s), cl_is_absolute = is_prefix ''/'',
     cl_resolve = (\<lambda>s. ''/srv/'' @ s), cl_dumps = (\<lambda>v. []),
     cl_loads = (\<lambda>s. if s = ''max_connections'' then Some [(''smtp'', TTable [(''max_connections'', TInt 9)])]
       else None)\<rparr>"

lemma default_is_valid: "first_error (config_checks plain_config_lib default_config) = Inr ()"
  by code_simp

definition limited_config :: config where
  "limited_config = default_config\<lparr>cfg_data_dir := ''/srv/./state'',
     cfg_smtp := default_smtp\<lparr>smtp_max_connections := 9\<rparr>\<rparr>"

lemma limited_loaded: "load_config plain_config_lib ''max_connections'' = Inr (Some limited_config)"
  by code_simp

text \<open>
  C33: Settings take effect or are refused.  When a configuration file is loaded, every key in it is
  a known one; each setting that the file has is the value of its field, every other field has its
  default, and nothing but the trailing slashes of the base URL is changed afterwards.
\<close>

theorem settings_take_effect:
  assumes "load_config lib text = Inr (Some cfg)" and "cl_loads lib text = Some raw" and "unique_keys raw"
  shows "\<exists>cfg0. validate lib cfg0 = Inr cfg \<and> cfg = stripped_base cfg0
    \<and> load_data_dir lib raw = Some (cfg_data_dir cfg)
    \<and> fst ` set raw \<subseteq> insert ''data_dir'' (set section_names)
    \<and> (\<forall>s \<in> set section_names. \<forall>k.
         takes_effect (given raw s k) (setting default_config s k) (setting cfg0 s k))"
proof -
  obtain cfg0 where c: "load_tables lib raw = Inr (Some cfg0)" "validate lib cfg0 = Inr cfg"
    using assms(1,2) by (auto simp: load_config_def bind_typed_def bind_res_def split: sum.splits option.splits)
  then have "cfg = stripped_base cfg0" by (simp add: validate_def bind_res_Inr)
  moreover have "cfg_data_dir cfg = cfg_data_dir cfg0" unfolding calculation by (simp add: stripped_base_def)
  ultimately show ?thesis
    using c load_tables_Inr(1,2) [OF c(1)] loaded_settings [OF c(1) assms(3)]
    by (intro exI [of _ cfg0]) (simp add: unknown_keys_Nil)
qed

theorem settings_take_effect_witness:
  "setting limited_config ''smtp'' ''max_connections'' = Some (TInt 9)"
proof -
  let ?raw = "[(''smtp'', TTable [(''max_connections'', TInt 9)])]"
  have r: "cl_loads plain_config_lib ''max_connections'' = Some ?raw" by (simp add: plain_config_lib_def)
  have "unique_keys ?raw" by (simp add: unique_keys_def)
  from settings_take_effect [OF limited_loaded r this] obtain cfg0 where
    s: "limited_config = stripped_base cfg0" "takes_effect (given ?raw ''smtp'' ''max_connections'')
      (setting default_config ''smtp'' ''max_connections'') (setting cfg0 ''smtp'' ''max_connections'')"
    unfolding section_names_def by auto
  have "setting cfg0 ''smtp'' x = setting limited_config ''smtp'' x" for x
    by (simp add: s(1) setting_section stripped_base_def)
  from s(2) [unfolded this] show ?thesis
    by (auto simp: takes_effect_def given_def stored_as_def setting_section write_fields_def smtp_fields_def fld_defs)
qed

section \<open>Validation\<close>

lemma first_error_Inr: "first_error rs = Inr u \<longleftrightarrow> (\<forall>r \<in> set rs. r = Inr ())"
  by (induction rs) (auto split: sum.splits)

lemma refuse_Inr [simp]: "refuse b t = Inr u \<longleftrightarrow> \<not> b"
  by (simp add: refuse_def)

lemma validate_Inr:
  "validate lib cfg0 = Inr cfg \<longleftrightarrow> (\<forall>r \<in> set (config_checks lib cfg0). r = Inr ()) \<and> cfg = stripped_base cfg0"
  by (auto simp: validate_def bind_res_Inr first_error_Inr)

lemma with_url_Inr: "with_url lib s f = Inr () \<longleftrightarrow> (\<exists>u. cl_urlsplit lib s = Some u \<and> f u = Inr ())"
  by (auto simp: with_url_def split: option.splits)

text \<open>A network that is not the whole address space leaves an address out.\<close>

lemma netmask_leaves_out:
  fixes net :: "'a::len word"
  assumes "0 < n"
  shows "NOT net AND netmask n \<noteq> net"
proof
  assume "NOT net AND netmask n = net"
  then have "bit (NOT net AND netmask n) (LENGTH('a) - 1) = bit net (LENGTH('a) - 1)" by simp
  moreover have "bit (netmask n :: 'a word) (LENGTH('a) - 1)"
    using diff_less [OF assms len_gt_0 [where 'a = 'a]] by (simp add: netmask_def bit_not_iff bit_mask_iff)
  ultimately show False by (auto simp: bit_and_iff bit_not_iff)
qed

definition covers_family :: "network \<Rightarrow> bool" where
  "covers_family n = (case n of
      Net4 a k \<Rightarrow> (\<forall>x. in_network (V4 x) n) | Net6 a k \<Rightarrow> (\<forall>x. in_network (V6 x) n))"

lemma prefix_leaves_out: "prefix_length n \<noteq> 0 \<Longrightarrow> \<not> covers_family n"
  by (cases n; simp add: covers_family_def; metis netmask_leaves_out)

lemma b64encode_length: "length (b64encode m) = 4 * ((length m + 2) div 3)"
proof (induction m rule: b64encode.induct)
  case (4 a0 a1 a2 a3 a4 a5 a6 a7 b0 b1 b2 b3 b4 b5 b6 b7 c0 c1 c2 c3 c4 c5 c6 c7 rest)
  have "(length rest + 3 + 2) div 3 = (length rest + 2) div 3 + 1" by presburger
  with 4 show ?case by simp
qed simp_all

lemma rstrip_char_last: "rstrip_char c s = [] \<or> last (rstrip_char c s) \<noteq> c"
proof -
  have "dropWhile (\<lambda>x. x = c) (rev s) = [] \<or> hd (dropWhile (\<lambda>x. x = c) (rev s)) \<noteq> c"
    using hd_dropWhile [of "\<lambda>x. x = c" "rev s"] by blast
  then show ?thesis by (auto simp: rstrip_char_def last_rev)
qed

lemma rstrip_char_Nil [simp]: "rstrip_char c [] = []"
  by (simp add: rstrip_char_def)

lemma rstrip_char_idem [simp]: "rstrip_char c (rstrip_char c s) = rstrip_char c s"
  by (simp add: rstrip_char_def dropWhile_idem)

text \<open>
  C32: What a validated configuration promises to the other components: one to four workers; every
  capacity, rate and time-out positive and finite; an SMTP allowlist that is not empty and none of
  whose networks is the whole address space; a NAT marker that is not empty and a host name of
  plain characters, so that no reply line is broken; an encrypted way to the mailbox; for Graph, a
  message whose base64 form is below 3.34 million octets; and a base URL to which a path can be
  appended.
\<close>

theorem validated_config_is_safe:
  assumes "validate lib cfg0 = Inr cfg"
  shows "d_workers (cfg_delivery cfg) \<in> {1..4}
    \<and> (\<forall>n \<in> set (counts_of cfg). 0 < n) \<and> (\<forall>x \<in> set (floats_of cfg). \<exists>r > 0. x = Fin r)
    \<and> smtp_allowed_networks (cfg_smtp cfg) \<noteq> []
    \<and> (\<forall>t \<in> set (smtp_allowed_networks (cfg_smtp cfg)).
         \<exists>n. cl_network lib t = Some n \<and> \<not> covers_family n)
    \<and> acc_nat_marker (cfg_account cfg) \<noteq> []
    \<and> (\<forall>c \<in> set (smtp_hostname (cfg_smtp cfg)). c \<noteq> CR \<and> c \<noteq> LF \<and> c \<noteq> CHR '' '')
    \<and> (\<exists>u. cl_urlsplit lib (acc_ews_url (cfg_account cfg)) = Some u \<and> up_scheme u = ''https'')
    \<and> (acc_backend (cfg_account cfg) = ''graph'' \<longrightarrow> acc_save_in_sent (cfg_account cfg)
         \<and> (\<forall>m. int (length m) \<le> smtp_max_message_bytes (cfg_smtp cfg) \<longrightarrow> length (b64encode m) \<le> 3333336))
    \<and> (web_base_url (cfg_web cfg) = [] \<or> last (web_base_url (cfg_web cfg)) \<noteq> CHR 0x2F)"
proof -
  from assms have c: "\<forall>r \<in> set (config_checks lib cfg0). r = Inr ()" and cfg: "cfg = stripped_base cfg0"
    by (simp_all add: validate_Inr)
  note parts = c [unfolded config_checks_def set_append ball_Un]
  from parts have num: "\<forall>r \<in> set (number_checks cfg0). r = Inr ()"
    and net: "\<forall>r \<in> set (network_checks lib (cfg_smtp cfg0)). r = Inr ()"
    and acc: "\<forall>r \<in> set (account_checks (cfg_account cfg0)). r = Inr ()"
    and nam: "\<forall>r \<in> set (name_checks cfg0). r = Inr ()"
    and url: "\<forall>r \<in> set (url_checks lib cfg0). r = Inr ()" by blast+
  have same: "cfg_smtp cfg = cfg_smtp cfg0" "cfg_account cfg = cfg_account cfg0"
    "cfg_delivery cfg = cfg_delivery cfg0" "counts_of cfg = counts_of cfg0" "floats_of cfg = floats_of cfg0"
    by (simp_all add: cfg stripped_base_def counts_of_def floats_of_def)
  have counts: "\<forall>n \<in> set (counts_of cfg). 0 < n" "\<forall>x \<in> set (floats_of cfg). positive_float x"
      "d_workers (cfg_delivery cfg) \<le> 4"
      "acc_backend (cfg_account cfg) = ''graph'' \<longrightarrow> acc_save_in_sent (cfg_account cfg)
         \<and> smtp_max_message_bytes (cfg_smtp cfg) \<le> 2500000"
    using num by (auto simp: same number_checks_def Let_def list_ex_iff not_le)
  then have "0 < d_workers (cfg_delivery cfg)" by (simp add: counts_of_def Let_def)
  moreover have "\<exists>r > 0. x = Fin r" if "positive_float x" for x
    using that by (cases x) (auto simp: positive_float_def)
  moreover have "smtp_allowed_networks (cfg_smtp cfg) \<noteq> []
      \<and> (\<forall>t \<in> set (smtp_allowed_networks (cfg_smtp cfg)).
         \<exists>n. cl_network lib t = Some n \<and> \<not> covers_family n)"
  proof (intro conjI ballI)
    show "smtp_allowed_networks (cfg_smtp cfg) \<noteq> []" using net by (simp add: same network_checks_def Let_def)
    fix t assume t: "t \<in> set (smtp_allowed_networks (cfg_smtp cfg))"
    from net have "None \<notin> cl_network lib ` set (smtp_allowed_networks (cfg_smtp cfg))"
      by (simp add: same network_checks_def Let_def)
    with t have "cl_network lib t \<noteq> None" by (metis image_eqI)
    moreover from net t have "prefix_length (the (cl_network lib t)) \<noteq> 0"
      by (simp add: same network_checks_def Let_def list_ex_iff)
    ultimately show "\<exists>n. cl_network lib t = Some n \<and> \<not> covers_family n" using prefix_leaves_out by auto
  qed
  moreover have "acc_nat_marker (cfg_account cfg) \<noteq> []" using acc by (simp add: same account_checks_def)
  moreover have "\<forall>c \<in> set (smtp_hostname (cfg_smtp cfg)). c \<noteq> CR \<and> c \<noteq> LF \<and> c \<noteq> CHR '' ''"
    using nam by (auto simp: same name_checks_def Let_def plain_name_def list_all_iff is_alnum_def is_digit_def code_def)
  moreover have "\<exists>u. cl_urlsplit lib (acc_ews_url (cfg_account cfg)) = Some u \<and> up_scheme u = ''https''"
    using url by (auto simp: same url_checks_def Let_def with_url_Inr)
  moreover have "length (b64encode m) \<le> 3333336" if "int (length m) \<le> 2500000" for m
    using that by (simp add: b64encode_length)
  moreover have "web_base_url (cfg_web cfg) = [] \<or> last (web_base_url (cfg_web cfg)) \<noteq> CHR 0x2F"
    using rstrip_char_last by (simp add: cfg stripped_base_def)
  ultimately show ?thesis using counts by fastforce
qed

theorem validated_config_is_safe_witness:
  "validate plain_config_lib default_config = Inr (stripped_base default_config)
   \<and> (\<exists>n. cl_network plain_config_lib ''127.0.0.0/8'' = Some n \<and> \<not> covers_family n)"
proof -
  have v: "validate plain_config_lib default_config = Inr (stripped_base default_config)"
    by (simp add: validate_def default_is_valid)
  have "''127.0.0.0/8'' \<in> set (smtp_allowed_networks (cfg_smtp (stripped_base default_config)))"
    by (simp add: stripped_base_def default_smtp_def)
  with v validated_config_is_safe [OF v] show ?thesis by blast
qed

text \<open>Two networks together can still be the whole address space.\<close>

definition two_halves :: config where
  "two_halves = default_config\<lparr>cfg_smtp := default_smtp\<lparr>smtp_allowed_networks :=
     [''0.0.0.0/1'', ''128.0.0.0/1'']\<rparr>\<rparr>"

lemma and_exp_cases: "(a :: 'a::len word) AND 2 ^ n = 0 \<or> a AND 2 ^ n = 2 ^ n"
proof (cases "bit a n")
  case True
  then have "a AND 2 ^ n = 2 ^ n" by (intro bit_eqI) (auto simp: bit_and_iff bit_exp_iff)
  then show ?thesis ..
next
  case False
  then have "a AND 2 ^ n = 0" by (intro bit_eqI) (auto simp: bit_and_iff bit_exp_iff)
  then show ?thesis ..
qed

lemma top_bit: "(a :: 32 word) AND netmask 1 = 0 \<or> a AND netmask 1 = 0x80000000"
proof -
  have m: "netmask 1 = (2 ^ 31 :: 32 word)" by (simp add: netmask_def mask_eq_exp_minus_1)
  show ?thesis using and_exp_cases [of a 31] unfolding m by simp
qed

text \<open>
  The check for a world-wide allowlist looks at one network at a time: an allowlist of the two
  halves of the address space passes, and admits every IPv4 client.
\<close>

theorem two_halves_admit_everyone:
  "validate plain_config_lib two_halves = Inr (stripped_base two_halves)
   \<and> allowed (\<lambda>_. Some (V4 a)) (map (\<lambda>t. the (cl_network plain_config_lib t))
        (smtp_allowed_networks (cfg_smtp two_halves))) host"
proof
  have "first_error (config_checks plain_config_lib two_halves) = Inr ()" by code_simp
  then show "validate plain_config_lib two_halves = Inr (stripped_base two_halves)"
    by (simp add: validate_def)
  show "allowed (\<lambda>_. Some (V4 a)) (map (\<lambda>t. the (cl_network plain_config_lib t))
        (smtp_allowed_networks (cfg_smtp two_halves))) host"
    using top_bit [of a] by (auto simp: allowed_def unmap_def two_halves_def plain_config_lib_def default_smtp_def)
qed

section \<open>Writing and reading\<close>

text \<open>What \<open>urlsplit\<close> makes of a URL without query and fragment that loses its trailing slashes.\<close>

definition base_url_law :: "config_lib \<Rightarrow> string \<Rightarrow> bool" where
  "base_url_law lib s = (\<forall>u. cl_urlsplit lib s = Some u \<and> up_query u = [] \<and> up_fragment u = [] \<longrightarrow>
     (\<exists>p \<in> {up_path u, rstrip_char (CHR 0x2F) (up_path u)}.
        cl_urlsplit lib (rstrip_char (CHR 0x2F) s) = Some (u\<lparr>up_path := p\<rparr>)))"

lemma ends_with_last: "ends_with [c, c] s \<Longrightarrow> s \<noteq> [] \<and> last s = c"
  by (cases s rule: rev_cases) (auto simp: ends_with_def)

lemma bad_base_path:
  assumes "\<not> bad_base u" and "p \<in> {up_path u, rstrip_char (CHR 0x2F) (up_path u)}"
  shows "\<not> bad_base (u\<lparr>up_path := p\<rparr>)"
  using assms ends_with_last [of "CHR 0x2F" "rstrip_char (CHR 0x2F) (up_path u)"]
    rstrip_char_last [of "CHR 0x2F" "up_path u"] by (auto simp: bad_base_def Let_def)

lemma validate_again:
  assumes "validate lib cfg0 = Inr cfg" and "base_url_law lib (web_base_url (cfg_web cfg0))"
  shows "validate lib cfg = Inr cfg"
proof -
  from assms(1) have c: "\<forall>r \<in> set (config_checks lib cfg0). r = Inr ()" and cfg: "cfg = stripped_base cfg0"
    by (simp_all add: validate_Inr)
  from c have "\<forall>r \<in> set (url_checks lib cfg0). r = Inr ()" by (simp add: config_checks_def)
  then obtain u where u: "cl_urlsplit lib (web_base_url (cfg_web cfg0)) = Some u" "\<not> bad_base u"
    "\<not> plain_http_remote u" by (auto simp: url_checks_def Let_def with_url_Inr)
  moreover from u(2) have "up_query u = []" "up_fragment u = []" by (simp_all add: bad_base_def Let_def)
  ultimately have "\<exists>p \<in> {up_path u, rstrip_char (CHR 0x2F) (up_path u)}.
      cl_urlsplit lib (web_base_url (cfg_web cfg)) = Some (u\<lparr>up_path := p\<rparr>)"
    using assms(2) unfolding base_url_law_def cfg stripped_base_def by simp
  then obtain p where p: "p \<in> {up_path u, rstrip_char (CHR 0x2F) (up_path u)}"
    "cl_urlsplit lib (web_base_url (cfg_web cfg)) = Some (u\<lparr>up_path := p\<rparr>)" by blast
  have h: "\<not> plain_http_remote (u\<lparr>up_path := p\<rparr>)" using u(3) by (simp add: plain_http_remote_def)
  have same: "cfg_smtp cfg = cfg_smtp cfg0" "cfg_account cfg = cfg_account cfg0"
    "cfg_additional cfg = cfg_additional cfg0" "name_checks cfg = name_checks cfg0"
    "number_checks cfg = number_checks cfg0" "web_trusted_proxy_ips (cfg_web cfg) = web_trusted_proxy_ips (cfg_web cfg0)"
    by (simp_all add: cfg stripped_base_def name_checks_def number_checks_def counts_of_def floats_of_def)
  have "\<forall>r \<in> set (url_checks lib cfg). r = Inr ()"
    using c p(2) bad_base_path [OF u(2) p(1)] h
    by (auto simp: config_checks_def url_checks_def Let_def with_url_Inr same)
  then have "\<forall>r \<in> set (config_checks lib cfg). r = Inr ()"
    using c unfolding config_checks_def same by auto
  moreover have "stripped_base cfg = cfg" by (simp add: cfg stripped_base_def)
  ultimately show ?thesis by (simp add: validate_Inr)
qed


definition written_config :: config where
  "written_config = default_config\<lparr>cfg_data_dir := ''/srv/state''\<rparr>"

definition reading_lib :: config_lib where
  "reading_lib = plain_config_lib\<lparr>cl_loads := (\<lambda>s. Some ((''data_dir'', TStr ''/srv/state'') #
      map (\<lambda>(s, t). (s, TTable t)) (config_tables written_config)))\<rparr>"


end
