(* ===== verification/Gw_Migration.thy ===== *)
theory Gw_Migration
  imports Gw_Validate Gw_Tokens Gw_Vault
begin

text \<open>
  \<open>migration.py\<close>: the import of a DavMail installation, from its Java properties file.  A file is
  octets; each octet is a character of Latin-1.  An escape can name a character beyond Latin-1,
  which a \<open>string\<close> cannot hold: then the result is \<open>Inr None\<close>, outside the model.
\<close>

section \<open>Characters\<close>

abbreviation backslash :: char where "backslash \<equiv> CHR 0x5C"

text \<open>Where \<open>str.splitlines\<close> ends a line, and what \<open>str.strip\<close> removes, in Latin-1.\<close>

definition line_break :: "char \<Rightarrow> bool" where
  "line_break c = (c \<in> {LF, CR, CHR 0x0B, CHR 0x0C, CHR 0x1C, CHR 0x1D, CHR 0x1E, CHR 0x85})"

definition wide_space :: "char \<Rightarrow> bool" where
  "wide_space c = (is_space c \<or> c = CHR 0x85 \<or> c = CHR 0xA0)"

definition strip_text :: "string \<Rightarrow> string" where
  "strip_text s = rev (dropWhile wide_space (rev (dropWhile wide_space s)))"

text \<open>\<open>lstrip(" \t\f")\<close>\<close>

definition is_blank :: "char \<Rightarrow> bool" where
  "is_blank c = (c = CHR '' '' \<or> c = CHR 0x09 \<or> c = CHR 0x0C)"

definition lstrip_blank :: "string \<Rightarrow> string" where
  "lstrip_blank s = dropWhile is_blank s"

section \<open>\<open>_unescape\<close>\<close>

definition hex_value :: "char \<Rightarrow> nat" where
  "hex_value c = (if is_digit c then code c - 48 else code (fold_char c) - 87)"

definition hex_number :: "string \<Rightarrow> nat" where
  "hex_number s = foldl (\<lambda>n c. 16 * n + hex_value c) 0 s"

definition escaped_char :: "char \<Rightarrow> char" where
  "escaped_char c = (if c = CHR ''t'' then CHR 0x09 else if c = CHR ''r'' then CR
     else if c = CHR ''n'' then LF else if c = CHR ''f'' then CHR 0x0C else c)"

definition cons_typed :: "char \<Rightarrow> string option res \<Rightarrow> string option res" where
  "cons_typed c r = bind_typed r (\<lambda>s. Inr (Some (c # s)))"

text \<open>
  The substitution of \<open>\(u[0-9a-fA-F]{4}|.)\<close>.  A \<open>u\<close> without four hexadecimal digits matches the
  second alternative, and \<open>int("", 16)\<close> raises.
\<close>

fun unescape :: "string \<Rightarrow> string option res" where
  "unescape [] = Inr (Some [])"
| "unescape (c # cs) =
     (if c \<noteq> backslash then cons_typed c (unescape cs)
      else case cs of
          [] \<Rightarrow> Inr (Some [c])
        | d # ds \<Rightarrow>
            if d = LF then cons_typed c (unescape cs)
            else if d = CHR ''u'' then
              (if length ds < 4 \<or> \<not> list_all is_hex (take 4 ds)
               then Inl (ValueError ''invalid literal for int() with base 16'')
               else if hex_number (take 4 ds) \<ge> 256 then Inr None
               else cons_typed (char_of (hex_number (take 4 ds))) (unescape (drop 4 ds)))
            else cons_typed (escaped_char d) (unescape ds))"

section \<open>\<open>read_properties\<close>\<close>

definition skip_lf :: "string \<Rightarrow> string" where
  "skip_lf s = (case s of [] \<Rightarrow> [] | c # cs \<Rightarrow> if c = LF then cs else s)"

lemma skip_lf_length [termination_simp]: "length (skip_lf s) \<le> length s"
  by (simp add: skip_lf_def split: list.split)

text \<open>\<open>splitlines\<close>; the first argument is the line so far, reversed.\<close>

fun split_lines :: "string \<Rightarrow> string \<Rightarrow> string list" where
  "split_lines acc [] = (if acc = [] then [] else [rev acc])"
| "split_lines acc (c # cs) =
     (if c = CR then rev acc # split_lines [] (skip_lf cs)
      else if line_break c then rev acc # split_lines [] cs
      else split_lines (c # acc) cs)"

definition trailing_backslashes :: "string \<Rightarrow> nat" where
  "trailing_backslashes s = length (takeWhile (\<lambda>c. c = backslash) (rev s))"

text \<open>Joining continued lines: the logical lines, and what is left over at the end.\<close>

fun logical_lines :: "string \<Rightarrow> string list \<Rightarrow> string list \<times> string" where
  "logical_lines continuation [] = ([], continuation)"
| "logical_lines continuation (physical # rest) =
     (let line = continuation @ lstrip_blank physical in
      if odd (trailing_backslashes line) then logical_lines (butlast line) rest
      else (let (ls, c) = logical_lines [] rest in (line # ls, c)))"

text \<open>The position of the first separator that is not escaped.\<close>

definition key_separator :: "char \<Rightarrow> bool" where
  "key_separator c = (c = CHR ''='' \<or> c = CHR '':'' \<or> is_blank c)"

fun key_length :: "bool \<Rightarrow> string \<Rightarrow> nat" where
  "key_length escaped [] = 0"
| "key_length escaped (c # cs) =
     (if escaped then Suc (key_length False cs)
      else if c = backslash then Suc (key_length True cs)
      else if key_separator c then 0
      else Suc (key_length False cs))"

definition split_property :: "string \<Rightarrow> string \<times> string" where
  "split_property line =
     (let i = key_length False line; rest = lstrip_blank (drop i line) in
      (take i line,
       case rest of
         [] \<Rightarrow> []
       | c # cs \<Rightarrow> if c = CHR ''='' \<or> c = CHR '':'' then lstrip_blank cs else rest))"

type_synonym properties = "(string \<times> string) list"

definition comment_line :: "string \<Rightarrow> bool" where
  "comment_line line = (case line of [] \<Rightarrow> True | c # cs \<Rightarrow> c = CHR ''#'' \<or> c = CHR ''!'')"

fun collect_properties :: "string list \<Rightarrow> properties \<Rightarrow> properties option res" where
  "collect_properties [] result = Inr (Some result)"
| "collect_properties (line # ls) result =
     (if comment_line line then collect_properties ls result
      else (let (k, v) = split_property line in
        bind_typed (unescape k) (\<lambda>key. bind_typed (unescape v) (\<lambda>value.
          collect_properties ls (AList.update key value result)))))"

definition read_properties :: "bytes \<Rightarrow> properties option res" where
  "read_properties content =
     (let (ls, left) = logical_lines [] (split_lines [] content) in
      bind_typed (collect_properties ls []) (\<lambda>result.
        if left \<noteq> [] then Inl (ValueError ''Incomplete continued Java property'')
        else Inr (Some result)))"

section \<open>\<open>apply_davmail\<close>\<close>

definition prop_get :: "properties \<Rightarrow> string \<Rightarrow> string \<Rightarrow> string" where
  "prop_get ps d k = (case map_of ps k of None \<Rightarrow> d | Some v \<Rightarrow> v)"

text \<open>A property, stripped; if it is empty, the present value stays.\<close>

definition taken_over :: "properties \<Rightarrow> string \<Rightarrow> string \<Rightarrow> string" where
  "taken_over ps k current = (let v = strip_text (prop_get ps [] k) in if v \<noteq> [] then v else current)"

text \<open>\<open>int(text)\<close>; the digits may hold single underscores.\<close>

definition parse_int :: "string \<Rightarrow> int option" where
  "parse_int s =
     (let (neg, u) = sign_of (strip_text s); (ds, r) = take_digits u
      in if ds = [] \<or> r \<noteq> [] then None
         else Some (if neg then - int (digits_value ds) else int (digits_value ds)))"

definition imported_port :: "properties \<Rightarrow> int \<Rightarrow> int res" where
  "imported_port ps current =
     (if strip_text (prop_get ps [] ''davmail.smtpPort'') = [] then Inr current
      else case parse_int (prop_get ps [] ''davmail.smtpPort'') of
          None \<Rightarrow> Inl (ValueError ''invalid literal for int() with base 10'')
        | Some p \<Rightarrow> Inr p)"

definition imported_account :: "properties \<Rightarrow> account_config \<Rightarrow> account_config" where
  "imported_account ps a =
     a\<lparr>acc_sender := strip_text (prop_get ps [] ''davmail.smtpEmbeddedUsername''),
       acc_backend := ''ews'',
       acc_tenant_id := taken_over ps ''davmail.oauth.tenantId'' (acc_tenant_id a),
       acc_client_id := taken_over ps ''davmail.oauth.clientId'' (acc_client_id a),
       acc_redirect_uri := taken_over ps ''davmail.oauth.redirectUri'' (acc_redirect_uri a),
       acc_ews_url := taken_over ps ''davmail.url'' (acc_ews_url a),
       acc_save_in_sent := casefold (prop_get ps ''true'' ''davmail.smtpSaveInSent'') = ''true''\<rparr>"

definition apply_davmail :: "properties \<Rightarrow> config \<Rightarrow> config res" where
  "apply_davmail ps cfg =
     (if strip_text (prop_get ps [] ''davmail.smtpEmbeddedUsername'') = []
      then Inl (ValueError ''DavMail properties have no smtpEmbeddedUsername'')
      else bind_res (imported_port ps (smtp_port (cfg_smtp cfg))) (\<lambda>p.
        Inr (cfg\<lparr>cfg_account := imported_account ps (cfg_account cfg),
                  cfg_smtp := (cfg_smtp cfg)\<lparr>smtp_port := p\<rparr>\<rparr>)))"

section \<open>\<open>imported_record\<close>\<close>

text \<open>Well-formed UTF-8, by the first octet of each character.\<close>

definition utf8_tail :: "char \<Rightarrow> bool" where
  "utf8_tail c = (128 \<le> code c \<and> code c < 192)"

fun utf8_valid :: "bytes \<Rightarrow> bool" where
  "utf8_valid [] = True"
| "utf8_valid (c # cs) =
     (if code c < 128 then utf8_valid cs
      else case cs of
        [] \<Rightarrow> False
      | d # ds \<Rightarrow>
          if 194 \<le> code c \<and> code c < 224 then utf8_tail d \<and> utf8_valid ds
          else case ds of
            [] \<Rightarrow> False
          | e # es \<Rightarrow>
              if 224 \<le> code c \<and> code c < 240
              then utf8_tail d \<and> utf8_tail e \<and> (code c = 224 \<longrightarrow> 160 \<le> code d) \<and>
                (code c = 237 \<longrightarrow> code d < 160) \<and> utf8_valid es
              else case es of
                [] \<Rightarrow> False
              | f # fs \<Rightarrow>
                  240 \<le> code c \<and> code c < 245 \<and> utf8_tail d \<and> utf8_tail e \<and> utf8_tail f \<and>
                  (code c = 240 \<longrightarrow> 144 \<le> code d) \<and> (code c = 244 \<longrightarrow> code d < 144) \<and> utf8_valid fs)"

text \<open>Text beyond ASCII is outside the model.\<close>

definition decode_token :: "string \<Rightarrow> string option res" where
  "decode_token value =
     (case b64_strict value of
        None \<Rightarrow> Inl (ValueError ''Refresh token is not in the legacy DavMail patch's base64 format'')
      | Some b \<Rightarrow>
          if \<not> utf8_valid b
          then Inl (ValueError ''Refresh token is not in the legacy DavMail patch's base64 format'')
          else if list_ex non_ascii b then Inr None else Inr (Some b))"

definition token_property :: "config \<Rightarrow> string" where
  "token_property cfg = ''davmail.oauth.'' @ casefold (username (cfg_account cfg)) @ ''.refreshToken''"

definition imported_record :: "oauth_lib \<Rightarrow> config \<Rightarrow> properties \<Rightarrow> account_record option res" where
  "imported_record ol cfg ps =
     (if acc_backend (cfg_account cfg) \<noteq> ''ews''
      then Inl (ValueError ''Legacy DavMail token import is EWS-only; use a fresh Graph login'')
      else let value = prop_get ps [] (token_property cfg) in
        if value = [] then Inl (ValueError ''No refresh token property for the configured sending account'')
        else bind_typed (decode_token value) (\<lambda>token.
          if token = [] \<or> list_ex (\<lambda>c. code c \<le> 32 \<or> code c = 127) token
          then Inl (ValueError ''Invalid decoded refresh token'')
          else Inr (Some \<lparr>ar_fingerprint = account_fingerprint ol cfg, ar_mode = ''legacy_v1'',
            ar_username = username (cfg_account cfg), ar_default_sender = None,
            ar_refresh = JStr token, ar_last_refresh = None\<rparr>)))"

end
