(* ===== verification/Gw_Migration_Props.thy ===== *)
theory Gw_Migration_Props
  imports Gw_Migration Gw_Tokens_Props
begin

text \<open>
  The import of a DavMail installation (\<open>migration.py\<close>): a properties file in Java's format is read
  back, only the named properties have an effect, and an imported credential is one the token
  manager uses.
\<close>

section \<open>Java's format\<close>

text \<open>How \<open>java.util.Properties.store\<close> writes a character; the flag says whether a blank is escaped.\<close>

definition hex_digit :: "nat \<Rightarrow> char" where
  "hex_digit n = (if n < 10 then char_of (48 + n) else char_of (55 + n))"

definition hex4 :: "char \<Rightarrow> string" where
  "hex4 c = [CHR ''0'', CHR ''0'', hex_digit (code c div 16), hex_digit (code c mod 16)]"

definition java_char :: "bool \<Rightarrow> char \<Rightarrow> string" where
  "java_char blank c =
     (if c = CHR '' '' then (if blank then [backslash, c] else [c])
      else if c = CHR 0x09 then [backslash, CHR ''t'']
      else if c = LF then [backslash, CHR ''n'']
      else if c = CR then [backslash, CHR ''r'']
      else if c = CHR 0x0C then [backslash, CHR ''f'']
      else if c \<in> {backslash, CHR ''='', CHR '':'', CHR ''#'', CHR ''!''} then [backslash, c]
      else if code c < 32 \<or> 126 < code c then backslash # CHR ''u'' # hex4 c
      else [c])"

definition java_key :: "string \<Rightarrow> string" where
  "java_key k = concat (map (java_char True) k)"

definition java_value :: "string \<Rightarrow> string" where
  "java_value v = (case v of [] \<Rightarrow> [] | c # cs \<Rightarrow> java_char True c @ concat (map (java_char False) cs))"

datatype item = Remark string | Property string string

fun item_line :: "item \<Rightarrow> string" where
  "item_line (Remark t) = CHR ''#'' # t"
| "item_line (Property k v) = java_key k @ CHR ''='' # java_value v"

definition java_file :: "item list \<Rightarrow> bytes" where
  "java_file items = concat (map (\<lambda>i. item_line i @ [LF]) items)"

text \<open>A remark of one line that does not look continued.\<close>

definition plain_item :: "item \<Rightarrow> bool" where
  "plain_item i = (case i of Property k v \<Rightarrow> True
     | Remark t \<Rightarrow> list_all (\<lambda>c. \<not> line_break c) t \<and> even (trailing_backslashes t))"

fun item_values :: "item list \<Rightarrow> properties \<Rightarrow> properties" where
  "item_values [] r = r"
| "item_values (Remark t # items) r = item_values items r"
| "item_values (Property k v # items) r = item_values items (AList.update k v r)"

section \<open>Reading a character\<close>

text \<open>What the reader needs of each character's form, checked for all 256.\<close>

definition char_form :: "bool \<Rightarrow> char \<Rightarrow> bool" where
  "char_form b c = (let s = java_char b c in
     list_all (\<lambda>x. \<not> line_break x) s \<and>
     (case s of
        [x] \<Rightarrow> x = c \<and> c \<noteq> backslash \<and> (b \<longrightarrow> \<not> key_separator x) \<and> x \<noteq> CHR ''#'' \<and> x \<noteq> CHR ''!''
      | [x, y] \<Rightarrow> x = backslash \<and> y \<noteq> LF \<and> y \<noteq> CHR ''u'' \<and> escaped_char y = c
      | [x, y, g, h, i, j] \<Rightarrow> x = backslash \<and> y = CHR ''u'' \<and> list_all is_hex [g, h, i, j]
          \<and> hex_number [g, h, i, j] = code c \<and> list_all (\<lambda>z. z \<noteq> backslash \<and> \<not> key_separator z) [g, h, i, j]
      | _ \<Rightarrow> False))"

lemma hex_digits:
  "list_all (\<lambda>n. is_hex (hex_digit n) \<and> hex_value (hex_digit n) = n \<and> hex_digit n \<noteq> backslash
     \<and> \<not> key_separator (hex_digit n) \<and> \<not> line_break (hex_digit n)) [0..<16]"
  by code_simp

lemma hex_digit:
  assumes "n < 16"
  shows "is_hex (hex_digit n)" "hex_value (hex_digit n) = n" "hex_digit n \<noteq> backslash"
    "\<not> key_separator (hex_digit n)" "\<not> line_break (hex_digit n)"
  using hex_digits assms unfolding list_all_iff by auto

lemma code_less: "code c < 256"
  by (simp add: code_def)

lemma hex4:
  "list_all is_hex (hex4 c)" "hex_number (hex4 c) = code c"
  "list_all (\<lambda>z. z \<noteq> backslash \<and> \<not> key_separator z) (hex4 c)" "list_all (\<lambda>x. \<not> line_break x) (hex4 c)"
proof -
  have l: "code c div 16 < 16" "code c mod 16 < 16" using code_less [of c] by auto
  have z: "CHR ''0'' = hex_digit 0" by code_simp
  have "(0 :: nat) < 16" by simp
  note d = hex_digit [OF this] hex_digit [OF l(1)] hex_digit [OF l(2)]
  show "list_all is_hex (hex4 c)" "list_all (\<lambda>z. z \<noteq> backslash \<and> \<not> key_separator z) (hex4 c)"
    "list_all (\<lambda>x. \<not> line_break x) (hex4 c)" unfolding hex4_def z using d by simp_all
  show "hex_number (hex4 c) = code c" unfolding hex4_def z hex_number_def using d by simp
qed

lemma line_break_code: "line_break c \<Longrightarrow> code c < 32 \<or> 126 < code c"
  by (auto simp: line_break_def code_def)

lemma plain_char_form:
  assumes "c \<noteq> backslash" and "b \<longrightarrow> \<not> key_separator c" and "c \<noteq> CHR ''#''" and "c \<noteq> CHR ''!''"
    and "\<not> line_break c" and "java_char b c = [c]"
  shows "char_form b c"
  using assms by (simp add: char_form_def)

lemma special_forms:
  "list_all (char_form True) [CHR '' '', CHR 0x09, LF, CR, CHR 0x0C, backslash, CHR ''='', CHR '':'', CHR ''#'', CHR ''!'']"
  "list_all (char_form False) [CHR '' '', CHR 0x09, LF, CR, CHR 0x0C, backslash, CHR ''='', CHR '':'', CHR ''#'', CHR ''!'']"
  by code_simp+

lemma char_form: "char_form b c"
proof (cases "c \<in> set [CHR '' '', CHR 0x09, LF, CR, CHR 0x0C, backslash, CHR ''='', CHR '':'', CHR ''#'', CHR ''!'']")
  case True
  then have "char_form True c" "char_form False c" using special_forms unfolding list_all_iff by blast+
  then show ?thesis by (cases b) (simp_all only:)
next
  case False
  then have c: "java_char b c = (if code c < 32 \<or> 126 < code c then backslash # CHR ''u'' # hex4 c else [c])"
    by (simp add: java_char_def)
  show ?thesis
  proof (cases "code c < 32 \<or> 126 < code c")
    case True
    then have "java_char b c = backslash # CHR ''u'' # hex4 c" using c by simp
    moreover have "\<not> line_break backslash" "\<not> line_break (CHR ''u'')" by (simp_all add: line_break_def)
    ultimately show ?thesis using hex4 [of c] by (simp add: char_form_def hex4_def)
  next
    case plain: False
    show ?thesis
    proof (rule plain_char_form)
      show "b \<longrightarrow> \<not> key_separator c" using False by (auto simp: key_separator_def is_blank_def)
      show "\<not> line_break c" using plain line_break_code by blast
    qed (use False c plain in auto)
  qed
qed

lemma java_char_cases:
  obtains (plain) "java_char b c = [c]" "c \<noteq> backslash" "b \<longrightarrow> \<not> key_separator c" "c \<noteq> CHR ''#''" "c \<noteq> CHR ''!''"
  | (pair) y where "java_char b c = [backslash, y]" "y \<noteq> LF" "y \<noteq> CHR ''u''" "escaped_char y = c"
  | (hex) g h i j where "java_char b c = [backslash, CHR ''u'', g, h, i, j]" "list_all is_hex [g, h, i, j]"
      "hex_number [g, h, i, j] = code c"
      "list_all (\<lambda>z. z \<noteq> backslash \<and> \<not> key_separator z) [g, h, i, j]"
  using char_form [of b c] unfolding char_form_def Let_def
  by (auto split: list.splits)

lemma java_char_breaks: "x \<in> set (java_char b c) \<Longrightarrow> \<not> line_break x"
  using char_form [of b c] by (auto simp: char_form_def Let_def list_all_iff)

lemma java_key_Cons [simp]: "java_key [] = []" "java_key (c # cs) = java_char True c @ java_key cs"
  by (simp_all add: java_key_def)

lemma char_of_code: "char_of (code c) = c"
  by (simp add: code_def)

lemma unescape_char: "unescape (java_char b c @ s) = cons_typed c (unescape s)"
proof (cases rule: java_char_cases [of b c])
  case (hex g h i j)
  then show ?thesis using code_less [of c] by (simp add: char_of_code not_le [symmetric])
qed simp_all

lemma cons_typed_simp [simp]: "cons_typed c (Inr (Some s)) = Inr (Some (c # s))"
  by (simp add: cons_typed_def bind_typed_def)

lemma unescape_key: "unescape (java_key k) = Inr (Some k)"
  by (induction k) (simp_all add: unescape_char)

lemma unescape_rest: "unescape (concat (map (java_char False) v)) = Inr (Some v)"
  by (induction v) (simp_all add: unescape_char)

lemma unescape_value: "unescape (java_value v) = Inr (Some v)"
  by (cases v) (simp_all add: java_value_def unescape_char unescape_rest)

section \<open>Reading a line\<close>

text \<open>Whether a backslash is pending after a text; an odd number of trailing backslashes is one.\<close>

fun pending :: "bool \<Rightarrow> string \<Rightarrow> bool" where
  "pending e [] = e"
| "pending e (c # cs) = pending (\<not> e \<and> c = backslash) cs"

lemma pending_append [simp]: "pending e (s @ t) = pending (pending e s) t"
  by (induction e s rule: pending.induct) auto

lemma odd_trailing: "odd (trailing_backslashes s) = pending False s"
  by (induction s rule: rev_induct) (auto simp: trailing_backslashes_def)

lemma even_trailing: "even (trailing_backslashes s) \<longleftrightarrow> \<not> pending False s"
  using odd_trailing by blast

lemma pending_char [simp]: "pending False (java_char b c) = False"
  by (cases rule: java_char_cases [of b c]) auto

lemma pending_chars [simp]: "pending False (concat (map (java_char b) s)) = False"
  by (induction s) auto

lemma pending_value [simp]: "pending False (java_value v) = False"
  by (simp add: java_value_def split: list.split)

lemma key_length_char: "key_length False (java_char True c @ s) = length (java_char True c) + key_length False s"
  by (cases rule: java_char_cases [of True c]) auto

lemma key_length_key: "key_length False (java_key k @ CHR ''='' # s) = length (java_key k)"
  by (induction k) (simp_all add: key_length_char key_separator_def)

lemma blank_separator: "is_blank c \<Longrightarrow> key_separator c"
  by (simp add: key_separator_def)

lemma java_char_start: "\<exists>x xs. java_char True c = x # xs \<and> \<not> is_blank x \<and> x \<noteq> CHR ''#'' \<and> x \<noteq> CHR ''!''"
  by (cases rule: java_char_cases [of True c]) (auto simp: is_blank_def key_separator_def)

lemma lstrip_value: "lstrip_blank (java_value v) = java_value v"
proof (cases v)
  case (Cons c cs)
  then show ?thesis using java_char_start [of c] by (auto simp: java_value_def lstrip_blank_def)
qed (simp add: java_value_def lstrip_blank_def)

lemma property_line_start:
  "\<exists>x xs. item_line (Property k v) = x # xs \<and> \<not> is_blank x \<and> x \<noteq> CHR ''#'' \<and> x \<noteq> CHR ''!''"
proof (cases k)
  case (Cons c cs)
  then show ?thesis using java_char_start [of c] by auto
qed (simp add: is_blank_def)

lemma split_property_line: "split_property (item_line (Property k v)) = (java_key k, java_value v)"
  using lstrip_value [of v] by (simp add: split_property_def key_length_key Let_def lstrip_blank_def is_blank_def)

section \<open>Reading a file\<close>

lemma split_lines_line:
  "list_all (\<lambda>c. \<not> line_break c) s \<Longrightarrow> split_lines acc (s @ LF # t) = (rev acc @ s) # split_lines [] t"
  by (induction s arbitrary: acc) (auto simp: line_break_def)

lemma item_line_breaks: "plain_item i \<Longrightarrow> list_all (\<lambda>c. \<not> line_break c) (item_line i)"
proof (cases i)
  case (Remark t)
  then show "plain_item i \<Longrightarrow> ?thesis" by (simp add: plain_item_def line_break_def)
next
  case (Property k v)
  then show ?thesis
    by (auto simp: java_key_def java_value_def list_all_iff line_break_def split: list.splits dest: java_char_breaks)
qed

lemma split_file: "list_all plain_item items \<Longrightarrow> split_lines [] (java_file items) = map item_line items"
  by (induction items) (simp_all add: java_file_def split_lines_line item_line_breaks)

lemma lstrip_item: "lstrip_blank (item_line i) = item_line i"
proof (cases i)
  case (Property k v)
  then show ?thesis using property_line_start [of k v] by (auto simp: lstrip_blank_def simp del: item_line.simps)
qed (simp add: lstrip_blank_def is_blank_def)

lemma item_not_continued: "plain_item i \<Longrightarrow> even (trailing_backslashes (item_line i))"
  by (cases i) (auto simp: plain_item_def even_trailing java_key_def)

lemma logical_file: "list_all plain_item items \<Longrightarrow> logical_lines [] (map item_line items) = (map item_line items, [])"
  by (induction items) (simp_all add: lstrip_item item_not_continued)

lemma collect_file: "collect_properties (map item_line items) r = Inr (Some (item_values items r))"
proof (induction items arbitrary: r)
  case (Cons i items)
  show ?case
  proof (cases i)
    case (Property k v)
    then have "\<not> comment_line (item_line i)" using property_line_start [of k v] by (auto simp: comment_line_def)
    then show ?thesis
      using Property Cons split_property_line [of k v]
      by (simp add: unescape_key unescape_value bind_typed_def del: item_line.simps)
  qed (simp add: Cons comment_line_def)
qed simp

lemma read_java_file:
  "list_all plain_item items \<Longrightarrow> read_properties (java_file items) = Inr (Some (item_values items []))"
  by (simp add: read_properties_def split_file logical_file collect_file bind_typed_def)

text \<open>
  C38: A file that Java wrote is read back.  For every list of properties, whatever characters of
  Latin-1 their names and values have, with remarks between them that do not end in a backslash,
  the properties are read with exactly their values; a later one replaces an earlier one.
\<close>

theorem properties_roundtrip:
  assumes "list_all plain_item items"
  shows "read_properties (java_file items) = Inr (Some (item_values items []))"
  using assms by (rule read_java_file)

definition davmail_items :: "item list" where
  "davmail_items = [Remark '' DavMail settings'', Property ''davmail.smtpPort'' ''1025'',
     Property ''a =b:'' (backslash # '' c# '' @ [CHR 0xE9, LF])]"

theorem properties_roundtrip_witness:
  "read_properties (java_file davmail_items) = Inr (Some
     [(''davmail.smtpPort'', ''1025''), (''a =b:'', backslash # '' c# '' @ [CHR 0xE9, LF])])"
proof -
  have "list_all plain_item davmail_items" by code_simp
  moreover have "item_values davmail_items [] =
      [(''davmail.smtpPort'', ''1025''), (''a =b:'', backslash # '' c# '' @ [CHR 0xE9, LF])]" by code_simp
  ultimately show ?thesis using properties_roundtrip [of davmail_items] by simp
qed

text \<open>
  A remark that ends in a backslash swallows the property on the next line.  In Java's format a
  comment line is never continued.
\<close>

theorem remark_swallows_property:
  assumes "list_all (\<lambda>c. \<not> line_break c) t" and "odd (trailing_backslashes t)"
    and plain: "list_all plain_item items"
  shows "read_properties (CHR ''#'' # t @ LF # java_file (Property k v # items)) = read_properties (java_file items)"
proof -
  let ?p = "item_line (Property k v)" and ?r = "CHR ''#'' # t"
  have odd: "odd (trailing_backslashes ?r)" using assms(2) by (simp add: odd_trailing)
  have l: "split_lines [] (?r @ LF # java_file (Property k v # items)) = ?r # ?p # map item_line items"
    using plain assms(1) split_file [of "Property k v # items"] split_lines_line [of ?r "[]"]
    by (simp add: plain_item_def line_break_def del: item_line.simps)
  have "pending False (butlast ?r @ ?p) = False"
  proof -
    have "pending False (butlast ?r) = False"
      using odd by (cases t rule: rev_cases) (auto simp: odd_trailing split: if_splits)
    then show ?thesis by (simp add: java_key_def)
  qed
  then have "logical_lines [] (?r # ?p # map item_line items) =
      ((butlast ?r @ ?p) # map item_line items, [])"
    using odd plain lstrip_item [of "Property k v"]
    by (simp add: logical_file even_trailing lstrip_blank_def is_blank_def del: item_line.simps butlast.simps)
  moreover have "comment_line (butlast ?r @ ?p)"
    using odd by (cases t) (auto simp: comment_line_def trailing_backslashes_def)
  ultimately show ?thesis
    using l plain by (simp add: read_properties_def split_file logical_file del: item_line.simps butlast.simps)
qed

section \<open>The import\<close>

definition import_keys :: "string list" where
  "import_keys = [''davmail.smtpEmbeddedUsername'', ''davmail.oauth.tenantId'', ''davmail.oauth.clientId'',
     ''davmail.oauth.redirectUri'', ''davmail.url'', ''davmail.smtpPort'', ''davmail.smtpSaveInSent'']"

text \<open>
   Only seven properties are imported.  Two files that agree on them give the same result; and
  whatever the file says, the SMTP bind address and allowlist, the administration interface, the
  limits, the recipient policy and the state directory stay as they were, and the back end is EWS
  with a sender that is not empty.
\<close>

theorem import_is_confined:
  assumes "apply_davmail ps cfg = Inr cfg1"
  shows "(\<forall>ps1. map (map_of ps1) import_keys = map (map_of ps) import_keys \<longrightarrow> apply_davmail ps1 cfg = Inr cfg1)
    \<and> cfg_smtp cfg1 = (cfg_smtp cfg)\<lparr>smtp_port := smtp_port (cfg_smtp cfg1)\<rparr>
    \<and> cfg_web cfg1 = cfg_web cfg \<and> cfg_queue cfg1 = cfg_queue cfg \<and> cfg_delivery cfg1 = cfg_delivery cfg
    \<and> cfg_additional cfg1 = cfg_additional cfg \<and> cfg_data_dir cfg1 = cfg_data_dir cfg
    \<and> acc_recipient_policy (cfg_account cfg1) = acc_recipient_policy (cfg_account cfg)
    \<and> acc_allowed_recipient_domains (cfg_account cfg1) = acc_allowed_recipient_domains (cfg_account cfg)
    \<and> acc_nat_marker (cfg_account cfg1) = acc_nat_marker (cfg_account cfg)
    \<and> acc_login_username (cfg_account cfg1) = acc_login_username (cfg_account cfg)
    \<and> acc_backend (cfg_account cfg1) = ''ews'' \<and> acc_sender (cfg_account cfg1) \<noteq> []"
proof -
  have "apply_davmail ps1 cfg = apply_davmail ps cfg"
    if "map (map_of ps1) import_keys = map (map_of ps) import_keys" for ps1
    using that by (simp add: import_keys_def apply_davmail_def imported_port_def imported_account_def
        taken_over_def prop_get_def)
  moreover obtain p where "cfg1 = cfg\<lparr>cfg_account := imported_account ps (cfg_account cfg),
      cfg_smtp := (cfg_smtp cfg)\<lparr>smtp_port := p\<rparr>\<rparr>"
    "strip_text (prop_get ps [] ''davmail.smtpEmbeddedUsername'') \<noteq> []"
    using assms by (auto simp: apply_davmail_def bind_res_Inr split: if_splits)
  ultimately show ?thesis using assms by (simp add: imported_account_def)
qed

definition davmail_props :: properties where
  "davmail_props = [(''davmail.smtpEmbeddedUsername'', '' me@x.org ''), (''davmail.allowRemote'', ''true''),
     (''davmail.smtpPort'', ''2525''), (''davmail.oauth.me@x.org.refreshToken'', ''dG9r'')]"

definition davmail_config :: config where
  "davmail_config = default_config\<lparr>cfg_account := default_account\<lparr>acc_sender := ''me@x.org''\<rparr>,
     cfg_smtp := default_smtp\<lparr>smtp_port := 2525\<rparr>\<rparr>"

lemma davmail_applied: "apply_davmail davmail_props default_config = Inr davmail_config"
  by code_simp

theorem import_is_confined_witness:
  "apply_davmail (remove1 (''davmail.allowRemote'', ''true'') davmail_props) default_config = Inr davmail_config
   \<and> cfg_web davmail_config = default_web"
proof -
  have "map (map_of (remove1 (''davmail.allowRemote'', ''true'') davmail_props)) import_keys =
      map (map_of davmail_props) import_keys" by code_simp
  then show ?thesis using import_is_confined [OF davmail_applied] by (simp add: default_config_def)
qed

lemma imported_record_Inr:
  assumes "imported_record ol cfg ps = Inr (Some r)"
  obtains enc token where "acc_backend (cfg_account cfg) = ''ews''" "map_of ps (token_property cfg) = Some enc"
    "decode_token enc = Inr (Some token)" "token \<noteq> []" "\<not> list_ex (\<lambda>c. code c \<le> 32 \<or> code c = 127) token"
    "ar_fingerprint r = account_fingerprint ol cfg" "ar_refresh r = JStr token"
proof -
  define enc where "enc = prop_get ps [] (token_property cfg)"
  from assms obtain token where t: "acc_backend (cfg_account cfg) = ''ews''" "enc \<noteq> []"
    "decode_token enc = Inr (Some token)" "token \<noteq> []"
    "\<not> list_ex (\<lambda>c. code c \<le> 32 \<or> code c = 127) token"
    "r = \<lparr>ar_fingerprint = account_fingerprint ol cfg, ar_mode = ''legacy_v1'',
            ar_username = username (cfg_account cfg), ar_default_sender = None,
            ar_refresh = JStr token, ar_last_refresh = None\<rparr>"
    by (auto simp: imported_record_def enc_def [symmetric] Let_def bind_typed_def bind_res_Inr
        split: if_splits option.splits)
  have "map_of ps (token_property cfg) = Some enc"
    using t(2) by (auto simp: enc_def prop_get_def split: option.splits)
  with t show ?thesis by (intro that) simp_all
qed

text \<open>A record with the fingerprint of a configuration and a token is used with it.\<close>

lemma record_used:
  assumes "ar_fingerprint r = account_fingerprint ol cfg" and "ar_refresh r = JStr token" and "token \<noteq> []"
  shows "tk_record (token_init ol cfg (Some r)) = Some r"
    "as_credential_present (token_status cfg (token_init ol cfg (Some r)))"
    "\<not> as_needs_login (token_status cfg (token_init ol cfg (Some r)))"
  using assms by (simp_all add: token_init_def token_status_def refresh_of_def)

text \<open>
   An imported credential is usable and is that of the account.  It comes from the property of
  the configured user name; the token is not empty and has no blanks or control characters; and a
  token manager that starts with the record accepts it for this configuration, with the
  credential present and no sign-in needed.
\<close>

theorem imported_record_is_usable:
  assumes "imported_record ol cfg ps = Inr (Some r)"
  shows "\<exists>enc token. map_of ps (token_property cfg) = Some enc \<and> b64_strict enc = Some token
    \<and> token \<noteq> [] \<and> (\<forall>c \<in> set token. 32 < code c \<and> code c < 127) \<and> ar_refresh r = JStr token
    \<and> acc_backend (cfg_account cfg) = ''ews''
    \<and> tk_record (token_init ol cfg (Some r)) = Some r
    \<and> as_credential_present (token_status cfg (token_init ol cfg (Some r)))
    \<and> \<not> as_needs_login (token_status cfg (token_init ol cfg (Some r)))"
proof (rule imported_record_Inr [OF assms])
  fix enc token
  assume t: "acc_backend (cfg_account cfg) = ''ews''" "map_of ps (token_property cfg) = Some enc"
    "decode_token enc = Inr (Some token)" "token \<noteq> []" "\<not> list_ex (\<lambda>c. code c \<le> 32 \<or> code c = 127) token"
    "ar_fingerprint r = account_fingerprint ol cfg" "ar_refresh r = JStr token"
  have "b64_strict enc = Some token" "\<not> list_ex non_ascii token"
    using t(3) by (auto simp: decode_token_def split: option.splits if_splits)
  moreover from this t(5) have "\<forall>c \<in> set token. 32 < code c \<and> code c < 127"
    by (force simp: list_ex_iff non_ascii_def)
  ultimately show ?thesis using t(1,2,4,7) record_used [OF t(6,7,4)] by blast
qed

theorem imported_record_is_usable_witness:
  "\<exists>r. imported_record demo_oauth davmail_config davmail_props = Inr (Some r) \<and> ar_refresh r = JStr ''tok''"
proof -
  have "b64_strict ''dG9r'' = Some ''tok''" by code_simp
  moreover have "token_property davmail_config = ''davmail.oauth.me@x.org.refreshToken''" by code_simp
  moreover have "prop_get davmail_props [] ''davmail.oauth.me@x.org.refreshToken'' = ''dG9r''" by code_simp
  moreover have "decode_token ''dG9r'' = Inr (Some ''tok'')" by code_simp
  ultimately obtain r where r: "imported_record demo_oauth davmail_config davmail_props = Inr (Some r)"
    by (simp add: imported_record_def bind_typed_def davmail_config_def default_account_def code_def)
  have "map_of davmail_props ''davmail.oauth.me@x.org.refreshToken'' = Some ''dG9r''" by code_simp
  with imported_record_is_usable [OF r] show ?thesis
    using r \<open>b64_strict ''dG9r'' = Some ''tok''\<close>
      \<open>token_property davmail_config = ''davmail.oauth.me@x.org.refreshToken''\<close> by auto
qed

end
