(* ===== verification/Gw_Cli.thy ===== *)
theory Gw_Cli
  imports Gw_Migration Gw_Delivery
begin

text \<open>
  \<open>cli.py\<close>: the commands \<open>init\<close>, \<open>check\<close> and \<open>reset-admin\<close> over the files of the state directory and
  the configuration file, and \<open>main\<close>, which runs a command and turns its end into an exit code.
  The parsing of the arguments is \<open>argparse\<close>'s.  The names of state files and of the configuration
  file are names of one file system (\<open>Gw_Vault\<close>).
\<close>

section \<open>Arguments and surroundings\<close>

text \<open>
  The arguments of \<open>init\<close>; \<open>ia_davmail\<close> is the content of the file that \<open>--from-davmail\<close> names, and
  \<open>ia_password_env\<close> says whether a variable is named.
\<close>

record init_args =
  ia_data_dir :: "string option"
  ia_davmail :: "bytes option"
  ia_sender :: "string option"
  ia_backend :: "string option"
  ia_tenant_id :: "string option"
  ia_client_id :: "string option"
  ia_redirect_uri :: "string option"
  ia_import_token :: bool
  ia_password_env :: bool

text \<open>
  What a command meets: the directory \<open>state\<close> beside the configuration file, the variable's value or
  the two answers typed (\<open>None\<close>: interrupted at the prompt), a random salt and key, the process, and a fresh temporary name and inode
  for each file it writes.
\<close>

record cli_env =
  ce_default_dir :: string
  ce_variable :: "string option"
  ce_typed :: "(string \<times> string) option"
  ce_salt :: bytes
  ce_key :: bytes
  ce_process :: nat
  ce_tmp :: "nat \<Rightarrow> string"
  ce_inode :: "nat \<Rightarrow> nat"

record cli_state =
  cs_disk :: disk
  cs_lock :: lock_state

record cli_world =
  cw_config :: config_lib
  cw_oauth :: oauth_lib
  cw_vault :: vault_lib
  cw_path :: string

text \<open>A private file's mode is 0600.\<close>

definition private_mode :: int where "private_mode = 384"

section \<open>\<open>password_from\<close>\<close>

definition keyboard_interrupt :: exn where "keyboard_interrupt = OtherExc ''KeyboardInterrupt''"

definition password_from :: "bool \<Rightarrow> cli_env \<Rightarrow> string res" where
  "password_from from_env env =
     (if from_env
      then (case ce_variable env of
              None \<Rightarrow> Inl (ValueError ''Administration password environment variable is unset'')
            | Some v \<Rightarrow> Inr v)
      else case ce_typed env of
          None \<Rightarrow> Inl keyboard_interrupt
        | Some (p, again) \<Rightarrow> if p \<noteq> again then Inl (ValueError ''Passwords differ'') else Inr p)"

section \<open>\<open>initialize\<close>\<close>

definition override :: "string option \<Rightarrow> string \<Rightarrow> string" where
  "override new old = (case new of None \<Rightarrow> old | Some v \<Rightarrow> v)"

definition overrides :: "init_args \<Rightarrow> config \<Rightarrow> config" where
  "overrides args cfg = (let a = cfg_account cfg in cfg\<lparr>cfg_account := a\<lparr>
     acc_sender := override (ia_sender args) (acc_sender a),
     acc_backend := override (ia_backend args) (acc_backend a),
     acc_tenant_id := override (ia_tenant_id args) (acc_tenant_id a),
     acc_client_id := override (ia_client_id args) (acc_client_id a),
     acc_redirect_uri := override (ia_redirect_uri args) (acc_redirect_uri a)\<rparr>\<rparr>)"

definition davmail_properties :: "init_args \<Rightarrow> properties option option res" where
  "davmail_properties args = (case ia_davmail args of
      None \<Rightarrow> Inr (Some None)
    | Some b \<Rightarrow> bind_typed (read_properties b) (\<lambda>ps. Inr (Some (Some ps))))"

definition base_config :: "init_args \<Rightarrow> cli_env \<Rightarrow> properties option \<Rightarrow> config res" where
  "base_config args env ps =
     (let c = default_config\<lparr>cfg_data_dir := override (ia_data_dir args) (ce_default_dir env)\<rparr> in
      case ps of
        Some p \<Rightarrow> apply_davmail p c
      | None \<Rightarrow> Inr (if ia_sender args = None \<and> ia_backend args = None
          then c\<lparr>cfg_account := (cfg_account c)\<lparr>acc_backend := ''graph''\<rparr>\<rparr> else c))"

definition init_record :: "cli_world \<Rightarrow> init_args \<Rightarrow> config \<Rightarrow> properties option \<Rightarrow> account_record option option res" where
  "init_record w args cfg ps =
     (if \<not> ia_import_token args then Inr (Some None)
      else case ps of
          None \<Rightarrow> Inl (ValueError ''--import-token requires --from-davmail'')
        | Some p \<Rightarrow> bind_typed (imported_record (cw_oauth w) cfg p) (\<lambda>r. Inr (Some (Some r))))"

text \<open>Everything that is decided before a file is written.\<close>

definition init_plan ::
  "cli_world \<Rightarrow> init_args \<Rightarrow> cli_env \<Rightarrow> (config \<times> account_record option \<times> password_record) option res" where
  "init_plan w args env =
     bind_typed (davmail_properties args) (\<lambda>ps.
     bind_res (base_config args env ps) (\<lambda>c.
     bind_res (validate (cw_config w) (overrides args c)) (\<lambda>cfg.
     bind_typed (init_record w args cfg ps) (\<lambda>r.
     bind_res (password_from (ia_password_env args) env) (\<lambda>p.
     bind_res (hash_password (cw_vault w) (ce_salt env) p) (\<lambda>pw. Inr (Some (cfg, r, pw))))))))"

text \<open>The records as the vault stores them.\<close>

definition password_json :: "password_record \<Rightarrow> json" where
  "password_json pw = JObj (map (\<lambda>(k, v). (k, JStr v)) pw)"

definition record_json :: "account_record \<Rightarrow> json" where
  "record_json r = JObj [(''fingerprint'', JStr (ar_fingerprint r)), (''mode'', JStr (ar_mode r)),
     (''username'', JStr (ar_username r)), (''refresh_token'', ar_refresh r), (''last_refresh'', JNull)]"

text \<open>The files after the key, in order; the configuration is the last.\<close>

definition init_writes :: "cli_world \<Rightarrow> cli_env \<Rightarrow> bytes \<Rightarrow> config \<Rightarrow> account_record option \<Rightarrow> password_record
    \<Rightarrow> fs_op list" where
  "init_writes w env key cfg r pw =
     vault_write (cw_vault w) key (ce_tmp env 1) (ce_inode env 1) ''admin'' (password_json pw) @
     (case r of None \<Rightarrow> [] | Some a \<Rightarrow>
        vault_write (cw_vault w) key (ce_tmp env 2) (ce_inode env 2) ''account'' (record_json a)) @
     atomic_write (ce_tmp env 3) (ce_inode env 3) (cw_path w) (config_text (cw_config w) cfg)"

text \<open>All of them, with the key; \<open>ce_key\<close> is what \<open>Fernet.generate_key\<close> gives.\<close>

definition init_ops :: "cli_world \<Rightarrow> cli_env \<Rightarrow> config \<Rightarrow> account_record option \<Rightarrow> password_record \<Rightarrow> fs_op list" where
  "init_ops w env cfg r pw =
     atomic_write (ce_tmp env 0) (ce_inode env 0) ''vault.key'' (ce_key env) @
     init_writes w env (ce_key env) cfg r pw"

definition initialize :: "cli_world \<Rightarrow> init_args \<Rightarrow> cli_env \<Rightarrow> cli_state \<Rightarrow> cli_state \<times> config option res" where
  "initialize w args env st =
     (let d = cs_disk st in
      if read_file (cw_path w) d \<noteq> None
      then (st, Inl (ValueError ''Configuration already exists; initialization does not overwrite it''))
      else case init_plan w args env of
          Inl e \<Rightarrow> (st, Inl e)
        | Inr None \<Rightarrow> (st, Inr None)
        | Inr (Some (cfg, r, pw)) \<Rightarrow>
            (case acquire_lock (ce_process env) (cs_lock st) of
               Inl e \<Rightarrow> (st, Inl e)
             | Inr lk \<Rightarrow>
                 let closed = st\<lparr>cs_lock := release_lock (ce_process env) lk\<rparr> in
                 if read_file ''vault.key'' d \<noteq> None \<or> read_file ''queue.sqlite3'' d \<noteq> None
                 then (closed, Inl (ValueError ''State directory is already initialized; use a new directory''))
                 else (case open_vault True (ce_key env) (ce_tmp env 0) (ce_inode env 0) private_mode d of
                         Inl e \<Rightarrow> (closed, Inl e)
                       | Inr (d1, key) \<Rightarrow>
                           (closed\<lparr>cs_disk := fs_run (init_writes w env key cfg r pw) d1\<rparr>, Inr (Some cfg)))))"

section \<open>\<open>check\<close> and \<open>reset-admin\<close>\<close>

text \<open>Both load the configuration, take the lock, open the vault, and release the lock at the end.\<close>

definition config_of :: "cli_world \<Rightarrow> disk \<Rightarrow> config option res" where
  "config_of w d = (case read_file (cw_path w) d of
      None \<Rightarrow> Inl OSError | Some text \<Rightarrow> load_config (cw_config w) text)"

definition with_vault :: "cli_world \<Rightarrow> cli_env \<Rightarrow> cli_state \<Rightarrow>
    (bytes \<Rightarrow> disk \<Rightarrow> disk \<times> unit res) \<Rightarrow> cli_state \<times> unit option res" where
  "with_vault w env st f =
     (case config_of w (cs_disk st) of
        Inl e \<Rightarrow> (st, Inl e)
      | Inr None \<Rightarrow> (st, Inr None)
      | Inr (Some cfg) \<Rightarrow>
          (case acquire_lock (ce_process env) (cs_lock st) of
             Inl e \<Rightarrow> (st, Inl e)
           | Inr lk \<Rightarrow>
               let closed = st\<lparr>cs_lock := release_lock (ce_process env) lk\<rparr> in
               (case open_vault False (ce_key env) (ce_tmp env 0) (ce_inode env 0) private_mode (cs_disk st) of
                  Inl e \<Rightarrow> (closed, Inl e)
                | Inr (d, key) \<Rightarrow>
                    (let (d1, r) = f key d
                     in (closed\<lparr>cs_disk := d1\<rparr>, bind_res r (\<lambda>u. Inr (Some ())))))))"

definition check_vault :: "vault_lib \<Rightarrow> bytes \<Rightarrow> disk \<Rightarrow> unit res" where
  "check_vault lib key d =
     bind_res (vault_read lib key ''admin'' d) (\<lambda>admin.
     if \<not> truthy admin then Inl (ValueError ''Administration credentials are missing'')
     else bind_res (vault_read lib key ''account'' d) (\<lambda>a.
       bind_res (vault_read lib key ''additional_account'' d) (\<lambda>b.
       bind_res (vault_read lib key ''additional_sender'' d) (\<lambda>c. Inr ()))))"

definition check_command :: "cli_world \<Rightarrow> cli_env \<Rightarrow> cli_state \<Rightarrow> cli_state \<times> unit option res" where
  "check_command w env st = with_vault w env st (\<lambda>key d. (d, check_vault (cw_vault w) key d))"

definition reset_admin :: "cli_world \<Rightarrow> bool \<Rightarrow> cli_env \<Rightarrow> cli_state \<Rightarrow> cli_state \<times> unit option res" where
  "reset_admin w from_env env st = with_vault w env st (\<lambda>key d.
     case bind_res (password_from from_env env) (\<lambda>p. hash_password (cw_vault w) (ce_salt env) p) of
       Inl e \<Rightarrow> (d, Inl e)
     | Inr pw \<Rightarrow> (fs_run (vault_write (cw_vault w) key (ce_tmp env 1) (ce_inode env 1) ''admin''
                     (password_json pw)) d, Inr ()))"

section \<open>\<open>main\<close>\<close>

text \<open>
  The command that \<open>argparse\<close> found.  \<open>serve\<close> runs the service (\<open>Gw_Service\<close>) until it is stopped or
  raises; here it is an argument.
\<close>

datatype cli_command = RunInit init_args | RunServe | RunCheck | RunResetAdmin bool

type_synonym service_run = "config \<Rightarrow> cli_state \<Rightarrow> cli_state \<times> unit res"

definition run_command :: "cli_world \<Rightarrow> service_run \<Rightarrow> cli_command \<Rightarrow> cli_env \<Rightarrow> cli_state
    \<Rightarrow> cli_state \<times> unit option res" where
  "run_command w service c env st = (case c of
      RunInit args \<Rightarrow>
        (let (st1, r) = initialize w args env st in (st1, bind_typed r (\<lambda>cfg. Inr (Some ()))))
    | RunServe \<Rightarrow>
        (case config_of w (cs_disk st) of
           Inl e \<Rightarrow> (st, Inl e)
         | Inr None \<Rightarrow> (st, Inr None)
         | Inr (Some cfg) \<Rightarrow>
             (let (st1, r) = service cfg st in (st1, bind_res r (\<lambda>u. Inr (Some ())))))
    | RunCheck \<Rightarrow> check_command w env st
    | RunResetAdmin from_env \<Rightarrow> reset_admin w from_env env st)"

text \<open>
  \<open>except (ValueError, RuntimeError, OSError)\<close>, with the subclasses of \<open>ValueError\<close> and
  \<open>RuntimeError\<close>; \<open>os_text\<close> is the text of an \<open>OSError\<close>.
\<close>

fun expected_text :: "string \<Rightarrow> exn \<Rightarrow> string option" where
  "expected_text os_text (ValueError t) = Some t"
| "expected_text os_text (RuntimeError t) = Some t"
| "expected_text os_text (MessageRejected t) = Some t"
| "expected_text os_text (QueueUnavailable t) = Some t"
| "expected_text os_text OSError = Some os_text"
| "expected_text os_text e = None"

text \<open>
  The exit code and what is printed to the standard error.  \<open>None\<close>: a \<open>BaseException\<close> that is no
  \<open>KeyboardInterrupt\<close> leaves \<open>main\<close>.
\<close>

definition exit_error :: "string \<Rightarrow> exn \<Rightarrow> (int \<times> string) option" where
  "exit_error os_text e = (case expected_text os_text e of
      Some t \<Rightarrow> Some (1, ''Error: '' @ t)
    | None \<Rightarrow>
        if e = keyboard_interrupt then Some (130, [])
        else if e = CancelledError then None
        else Some (1, ''Operation failed ('' @ exn_name e @ ''). Check configuration and state permissions.''))"

definition exit_of :: "string \<Rightarrow> unit option res \<Rightarrow> (int \<times> string) option" where
  "exit_of os_text r = (case r of
      Inl e \<Rightarrow> exit_error os_text e | Inr None \<Rightarrow> None | Inr (Some u) \<Rightarrow> Some (0, []))"

definition cli_main :: "cli_world \<Rightarrow> service_run \<Rightarrow> string \<Rightarrow> cli_command \<Rightarrow> cli_env \<Rightarrow> cli_state
    \<Rightarrow> cli_state \<times> (int \<times> string) option" where
  "cli_main w service os_text c env st =
     (let (st1, r) = run_command w service c env st in (st1, exit_of os_text r))"

end
