(* ===== verification/Gw_Cli_Props.thy ===== *)
theory Gw_Cli_Props
  imports Gw_Cli Gw_Vault_Props Gw_Validate_Claims Gw_Migration_Props
begin

text \<open>
  The command line (\<open>cli.py\<close>): \<open>init\<close> never overwrites, writes the configuration last, and leaves a
  state that \<open>check\<close> accepts and whose password works.
\<close>

lemma verify_hashed:
  "hash_password lib salt p = Inr pw \<Longrightarrow> verify_password lib p pw \<longleftrightarrow> int (length p) \<le> 1024"
  by (auto simp: hash_password_def verify_password_def b64_strict_def b64_valid_encode b64_roundtrip
      split: if_splits)

lemma lock_again: "acquire_lock p s = Inr lk \<Longrightarrow> \<exists>l. acquire_lock q (release_lock p lk) = Inr l"
  by (auto simp: acquire_lock_def release_lock_def split: if_splits)

lemma check_vault_ok:
  assumes "vault_read lib key ''admin'' d = Inr v" and "truthy v"
    and "\<exists>v. vault_read lib key ''account'' d = Inr v"
    and "\<exists>v. vault_read lib key ''additional_account'' d = Inr v"
    and "\<exists>v. vault_read lib key ''additional_sender'' d = Inr v"
  shows "check_vault lib key d = Inr ()"
  using assms by (auto simp: check_vault_def)

lemma check_command_ok:
  assumes "read_file (cw_path w) (cs_disk st) = Some c" and "load_config (cw_config w) c = Inr (Some cfg)"
    and "\<exists>l. acquire_lock (ce_process env) (cs_lock st) = Inr l"
    and "read_file ''vault.key'' (cs_disk st) = Some key" and "check_vault (cw_vault w) key (cs_disk st) = Inr ()"
  shows "snd (check_command w env st) = Inr (Some ())"
  using assms by (auto simp: check_command_def with_vault_def config_of_def open_vault_def private_mode_def Let_def)

section \<open>Several files\<close>

lemma durable_other:
  assumes "durable q x d" and "q \<noteq> tmp" and "q \<noteq> path" and "fresh_inode i d"
  shows "durable q x (fs_run (take k (atomic_write tmp i path b)) d)"
proof -
  note a = before_rename [OF assms(1,2,4)]
  have r: "durable q x (fs_run [Create tmp i, Append i b, Fsync i, Rename tmp path] d)"
    using rename_durable [OF a(3) assms(2,3), of b] by (simp add: fs_run_def)
  have "durable q x (fs_run (atomic_write tmp i path b) d)"
    using fsyncdir_durable [OF r] by (simp add: fs_run_def atomic_write_def)
  then show ?thesis using take_cases [of k tmp i path b] a(1) a(2) [of b] a(3) [of b] r assms(1)
    by (auto simp: fs_run_def [of "[]"])
qed

lemma fresh_write:
  assumes "fresh_inode j d" and "j \<noteq> i"
  shows "fresh_inode j (fs_run (atomic_write tmp i path b) d)"
  using assms by (auto simp: fresh_inode_def fs_run_def atomic_write_def set_names_def)

text \<open>A list of writes: temporary name, inode, name and octets of each.\<close>

type_synonym file_write = "string \<times> nat \<times> string \<times> bytes"

fun write_ops :: "file_write \<Rightarrow> fs_op list" where
  "write_ops (t, i, p, b) = atomic_write t i p b"

abbreviation write_path :: "file_write \<Rightarrow> string" where "write_path x \<equiv> fst (snd (snd x))"
abbreviation write_inode :: "file_write \<Rightarrow> nat" where "write_inode x \<equiv> fst (snd x)"

definition write_all :: "file_write list \<Rightarrow> fs_op list" where
  "write_all ws = concat (map write_ops ws)"

definition writes_ok :: "file_write list \<Rightarrow> disk \<Rightarrow> bool" where
  "writes_ok ws d = (distinct (map write_path ws) \<and> distinct (map write_inode ws)
     \<and> (\<forall>x \<in> set ws. fresh_inode (write_inode x) d)
     \<and> (\<forall>x \<in> set ws. \<forall>y \<in> set ws. fst x \<noteq> write_path y))"

lemma writes_ok_pair:
  assumes "writes_ok ws d" and "ws = us @ x # vs" and "y \<in> set us \<union> set vs"
  shows "write_path y \<noteq> write_path x \<and> write_inode y \<noteq> write_inode x \<and> write_path y \<noteq> fst x \<and> write_path x \<noteq> fst y"
proof -
  have "write_path x \<notin> write_path ` (set us \<union> set vs)" "write_inode x \<notin> write_inode ` (set us \<union> set vs)"
    using assms(1) unfolding writes_ok_def assms(2) by (auto simp: image_Un)
  moreover have "fst x \<noteq> write_path y" "fst y \<noteq> write_path x"
    using assms(1,3) unfolding writes_ok_def assms(2) by auto
  ultimately show ?thesis using assms(3) by (metis image_eqI)
qed

lemma writes_ok_fresh: "writes_ok ws d \<Longrightarrow> x \<in> set ws \<Longrightarrow> fresh_inode (write_inode x) d \<and> write_path x \<noteq> fst x"
  by (simp add: writes_ok_def) metis

lemma fs_run_append: "fs_run (xs @ ys) d = fs_run ys (fs_run xs d)"
  by (simp add: fs_run_def)

lemma write_all_Cons: "write_all (x # ws) = write_ops x @ write_all ws"
  by (simp add: write_all_def)

lemma writes_ok_Cons: "writes_ok (x # ws) d \<Longrightarrow> writes_ok ws (fs_run (write_ops x) d)"
proof -
  assume ok: "writes_ok (x # ws) d"
  obtain t i p b where x: "x = (t, i, p, b)" by (cases x)
  have "fresh_inode (write_inode y) (fs_run (write_ops x) d)" if "y \<in> set ws" for y
    using writes_ok_fresh [OF ok, of y] writes_ok_pair [OF ok, of "[]" x ws y] that
    by (auto simp: x intro: fresh_write)
  then show ?thesis using ok by (simp add: writes_ok_def)
qed

lemma write_other:
  assumes "fresh_inode (write_inode x) d" and "durable q y d" and "q \<noteq> fst x" and "q \<noteq> write_path x"
  shows "durable q y (fs_run (take k (write_ops x)) d)" "durable q y (fs_run (write_ops x) d)"
proof -
  obtain t i p b where x: "x = (t, i, p, b)" by (cases x)
  have "durable q y (fs_run (take j (write_ops x)) d)" for j
    using durable_other [of q y d t p i j b] assms by (simp add: x)
  from this [of k] this [of "length (write_ops x)"]
  show "durable q y (fs_run (take k (write_ops x)) d)" "durable q y (fs_run (write_ops x) d)" by simp_all
qed

lemma writes_other:
  "writes_ok ws d \<Longrightarrow> durable q y d \<Longrightarrow> q \<notin> fst ` set ws \<Longrightarrow> q \<notin> write_path ` set ws \<Longrightarrow>
   durable q y (fs_run (take k (write_all ws)) d)"
proof (induction ws arbitrary: d k)
  case Nil
  then show ?case by (simp add: write_all_def fs_run_def)
next
  case (Cons x ws)
  have "durable q y (fs_run (take k (write_ops x)) d)" "durable q y (fs_run (write_ops x) d)"
    using Cons.prems(3,4) writes_ok_fresh [OF Cons.prems(1), of x] by (auto intro: write_other [OF _ Cons.prems(2)])
  then show ?case
    using Cons.IH [OF writes_ok_Cons [OF Cons.prems(1)], of "k - length (write_ops x)"] Cons.prems(3,4)
    by (cases "k \<le> length (write_ops x)") (simp_all add: write_all_Cons fs_run_append)
qed

lemma writes_durable:
  "writes_ok ws d \<Longrightarrow> (\<forall>x \<in> set ws. durable (write_path x) None d) \<Longrightarrow> x \<in> set ws \<Longrightarrow>
   durable (write_path x) (Some (snd (snd (snd x)))) (fs_run (write_all ws) d)"
proof (induction ws arbitrary: d)
  case (Cons w ws)
  note ok = writes_ok_Cons [OF Cons.prems(1)]
  show ?case
  proof (cases "x = w")
    case True
    obtain t i p b where w: "w = (t, i, p, b)" by (cases w)
    have "durable p (Some b) (fs_run (write_ops w) d)"
      using finished_write [of p None d t i b] Cons.prems(2) writes_ok_fresh [OF Cons.prems(1), of w]
      by (simp add: w)
    moreover have "p \<notin> fst ` set ws" "p \<notin> write_path ` set ws"
      using writes_ok_pair [OF Cons.prems(1), of "[]" w ws] by (auto simp: w)
    ultimately show ?thesis
      using writes_other [OF ok, of p "Some b" "length (write_all ws)"] True
      by (simp add: w write_all_Cons fs_run_append)
  next
    case False
    have "durable (write_path y) None (fs_run (write_ops w) d)" if "y \<in> set ws" for y
      using writes_ok_fresh [OF Cons.prems(1), of w] writes_ok_pair [OF Cons.prems(1), of "[]" w ws y]
        Cons.prems(2) that by (intro write_other(2)) auto
    then show ?thesis using Cons.IH [OF ok] Cons.prems(3) False by (simp add: write_all_Cons fs_run_append)
  qed
qed simp

lemma writes_ok_last: "writes_ok (ws @ [z]) d \<Longrightarrow> y \<in> set ws \<Longrightarrow>
   write_path y \<noteq> write_path z \<and> write_path y \<noteq> fst z \<and> write_path z \<noteq> fst y"
  using writes_ok_pair [of "ws @ [z]" d ws z "[]" y] by simp

lemma writes_ok_butlast: "writes_ok (ws @ [z]) d \<Longrightarrow> writes_ok ws d"
  by (simp add: writes_ok_def)

lemma fresh_last: "writes_ok (ws @ [z]) d \<Longrightarrow> fresh_inode (write_inode z) (fs_run (write_all ws) d)"
proof (induction ws arbitrary: d)
  case Nil
  then show ?case by (simp add: writes_ok_def write_all_def fs_run_def)
next
  case (Cons w ws)
  have "writes_ok (ws @ [z]) (fs_run (write_ops w) d)" using writes_ok_Cons [of w "ws @ [z]" d] Cons.prems by simp
  from Cons.IH [OF this] show ?case by (simp add: write_all_Cons fs_run_append)
qed

lemma absent_last:
  assumes "writes_ok (ws @ [z]) d" and "durable (write_path z) None d"
  shows "durable (write_path z) None (fs_run (take j (write_all ws)) d)"
proof (rule writes_other [OF writes_ok_butlast [OF assms(1)] assms(2)])
  show "write_path z \<notin> fst ` set ws" "write_path z \<notin> write_path ` set ws"
    by (auto simp del: split_paired_All dest!: writes_ok_last [OF assms(1)])
qed

text \<open>If a crash can leave the last file, then all the others are complete.\<close>

lemma last_write:
  assumes "writes_ok (ws @ [z]) d" and "\<forall>x \<in> set (ws @ [z]). durable (write_path x) None d"
    and "crash_read (write_path z) (fs_run (take k (write_all (ws @ [z]))) d) (Some c)"
  shows "c = snd (snd (snd z))" and "x \<in> set ws \<Longrightarrow>
    durable (write_path x) (Some (snd (snd (snd x)))) (fs_run (take k (write_all (ws @ [z]))) d)"
proof -
  obtain u i p b where z: "z = (u, i, p, b)" by (cases z)
  have n: "durable (write_path z) None (fs_run (take j (write_all ws)) d)" for j
    using absent_last [OF assms(1)] assms(2) by simp
  have all: "write_all (ws @ [z]) = write_all ws @ write_ops z" by (simp add: write_all_def)
  have "length (write_all ws) < k"
  proof (rule ccontr)
    assume "\<not> length (write_all ws) < k"
    then have "take k (write_all (ws @ [z])) = take k (write_all ws)" by (simp add: all)
    with assms(3) have "crash_read (write_path z) (fs_run (take k (write_all ws)) d) (Some c)" by simp
    then show False unfolding durable_crash_read [OF n] by simp
  qed
  then have t: "fs_run (take k (write_all (ws @ [z]))) d =
      fs_run (take (k - length (write_all ws)) (atomic_write u i p b)) (fs_run (write_all ws) d)"
    unfolding all by (simp add: fs_run_append z)
  have f: "fresh_inode i (fs_run (write_all ws) d)" using fresh_last [OF assms(1)] by (simp add: z)
  have u: "p \<noteq> u" using writes_ok_fresh [OF assms(1), of z] by (simp add: z)
  have d: "durable p None (fs_run (write_all ws) d)" using n [of "length (write_all ws)"] by (simp add: z)
  have c: "crash_read p (fs_run (take (k - length (write_all ws)) (atomic_write u i p b)) (fs_run (write_all ws) d)) (Some c)"
    using assms(3) unfolding t by (simp add: z)
  from partial_write [OF d u f c] show "c = snd (snd (snd z))" by (simp add: z)
  show "durable (write_path x) (Some (snd (snd (snd x)))) (fs_run (take k (write_all (ws @ [z]))) d)"
    if x: "x \<in> set ws"
    unfolding t
  proof (rule durable_other [OF writes_durable [OF writes_ok_butlast [OF assms(1)] _ x] _ _ f])
    show "\<forall>y \<in> set ws. durable (write_path y) None d" using assms(2) by simp
    show "write_path x \<noteq> u" "write_path x \<noteq> p" using writes_ok_last [OF assms(1) x] by (simp_all add: z)
  qed
qed

section \<open>\<open>init\<close>\<close>

text \<open>
  A directory for a new installation, and what \<open>mkstemp\<close> promises: fresh inodes, and temporary names
  that are not names of the files in use.  The configuration file has a name of its own.
\<close>

definition state_files :: "string list" where
  "state_files = [''vault.key'', ''admin.enc'', ''account.enc'', ''additional_account.enc'',
     ''additional_sender.enc'', ''queue.sqlite3'']"

definition new_directory :: "cli_world \<Rightarrow> cli_env \<Rightarrow> disk \<Rightarrow> bool" where
  "new_directory w env d =
     (cw_path w \<notin> set state_files
      \<and> (\<forall>f \<in> set (cw_path w # state_files). durable f None d \<and> (\<forall>k \<in> {0, 1, 2, 3}. ce_tmp env k \<noteq> f))
      \<and> (\<forall>k \<in> {0, 1, 2, 3}. fresh_inode (ce_inode env k) d) \<and> distinct (map (ce_inode env) [0, 1, 2, 3]))"

definition init_list :: "cli_world \<Rightarrow> cli_env \<Rightarrow> account_record option \<Rightarrow> password_record \<Rightarrow> file_write list" where
  "init_list w env r pw =
     [(ce_tmp env 0, ce_inode env 0, ''vault.key'', ce_key env),
      (ce_tmp env 1, ce_inode env 1, ''admin.enc'',
        vl_encrypt (cw_vault w) (ce_key env) (vl_dumps (cw_vault w) (password_json pw)))] @
     (case r of None \<Rightarrow> [] | Some a \<Rightarrow> [(ce_tmp env 2, ce_inode env 2, ''account.enc'',
        vl_encrypt (cw_vault w) (ce_key env) (vl_dumps (cw_vault w) (record_json a)))])"

definition config_write :: "cli_world \<Rightarrow> cli_env \<Rightarrow> config \<Rightarrow> file_write" where
  "config_write w env cfg = (ce_tmp env 3, ce_inode env 3, cw_path w, config_text (cw_config w) cfg)"

lemma init_ops_list: "init_ops w env cfg r pw = write_all (init_list w env r pw @ [config_write w env cfg])"
  by (simp add: init_ops_def init_writes_def init_list_def config_write_def write_all_def vault_write_def
      record_file_def split: option.split)

lemma new_directory_ok:
  assumes "new_directory w env d"
  shows "writes_ok (init_list w env r pw @ [config_write w env cfg]) d"
    "\<forall>x \<in> set (init_list w env r pw @ [config_write w env cfg]). durable (write_path x) None d"
  using assms
  by (auto simp: new_directory_def writes_ok_def init_list_def config_write_def state_files_def split: option.splits)

lemma init_tmps: "fst ` set (init_list w env r pw @ [config_write w env cfg]) \<subseteq> ce_tmp env ` {0, 1, 2, 3}"
  by (cases r) (simp_all add: init_list_def config_write_def)

lemma init_paths: "write_path ` set (init_list w env r pw @ [config_write w env cfg]) \<subseteq>
   {cw_path w, ''vault.key'', ''admin.enc''} \<union> (if r = None then {} else {''account.enc''})"
  by (cases r) (auto simp: init_list_def config_write_def)

text \<open>A state file that \<open>init\<close> does not write is still absent afterwards.\<close>

lemma init_absent:
  assumes "new_directory w env d" and "f \<in> set state_files" and "f \<noteq> ''vault.key''" and "f \<noteq> ''admin.enc''"
    and "f = ''account.enc'' \<Longrightarrow> r = None"
  shows "read_file f (fs_run (init_ops w env cfg r pw) d) = None"
proof -
  let ?ws = "init_list w env r pw @ [config_write w env cfg]"
  have "durable f None d" "f \<noteq> cw_path w" "f \<notin> ce_tmp env ` {0, 1, 2, 3}"
    using assms(1,2) unfolding new_directory_def by auto
  moreover from this have "f \<notin> fst ` set ?ws" using init_tmps [of w env r pw cfg] by blast
  moreover have "f \<notin> write_path ` set ?ws"
    using init_paths [of w env r pw cfg] assms(3-5) \<open>f \<noteq> cw_path w\<close> by (auto split: if_splits)
  ultimately have "durable f None (fs_run (take (length (write_all ?ws)) (write_all ?ws)) d)"
    by (intro writes_other [OF new_directory_ok(1) [OF assms(1)]])
  then show ?thesis by (simp add: init_ops_list durable_read)
qed

lemma absent_read: "new_directory w env d \<Longrightarrow> f \<in> set (cw_path w # state_files) \<Longrightarrow> read_file f d = None"
  by (rule durable_read) (auto simp: new_directory_def)

lemma bind_typed_Inr: "bind_typed m f = Inr (Some y) \<longleftrightarrow> (\<exists>x. m = Inr (Some x) \<and> f x = Inr (Some y))"
  by (auto simp: bind_typed_def bind_res_Inr split: option.splits)

lemma init_plan_Inr:
  assumes "init_plan w args env = Inr (Some (cfg, r, pw))"
  obtains ps c p where "davmail_properties args = Inr (Some ps)" "base_config args env ps = Inr c"
    "validate (cw_config w) (overrides args c) = Inr cfg" "init_record w args cfg ps = Inr (Some r)"
    "password_from (ia_password_env args) env = Inr p" "hash_password (cw_vault w) (ce_salt env) p = Inr pw"
  using assms unfolding init_plan_def bind_typed_Inr bind_res_Inr by blast

lemma init_record_Some:
  "init_record w args cfg ps = Inr (Some (Some a)) \<Longrightarrow> \<exists>p. imported_record (cw_oauth w) cfg p = Inr (Some a)"
  unfolding init_record_def by (cases ps) (auto simp: bind_typed_Inr split: if_splits)

lemma initialize_Inr:
  assumes "initialize w args env st = (st1, Inr (Some cfg))"
  obtains r pw lk where "init_plan w args env = Inr (Some (cfg, r, pw))"
    "read_file (cw_path w) (cs_disk st) = None" "read_file ''vault.key'' (cs_disk st) = None"
    "read_file ''queue.sqlite3'' (cs_disk st) = None"
    "acquire_lock (ce_process env) (cs_lock st) = Inr lk"
    "cs_lock st1 = release_lock (ce_process env) lk"
    "cs_disk st1 = fs_run (init_ops w env cfg r pw) (cs_disk st)"
proof -
  from assms obtain r pw lk where a: "init_plan w args env = Inr (Some (cfg, r, pw))"
    "read_file (cw_path w) (cs_disk st) = None" "read_file ''vault.key'' (cs_disk st) = None"
    "read_file ''queue.sqlite3'' (cs_disk st) = None"
    "acquire_lock (ce_process env) (cs_lock st) = Inr lk"
    "cs_lock st1 = release_lock (ce_process env) lk"
    and o: "\<exists>d1 key. open_vault True (ce_key env) (ce_tmp env 0) (ce_inode env 0) private_mode (cs_disk st) = Inr (d1, key)
      \<and> cs_disk st1 = fs_run (init_writes w env key cfg r pw) d1"
    by (auto simp: initialize_def Let_def split: if_splits sum.splits option.splits prod.splits)
  have k: "read_file ''vault.key'' (fs_run (atomic_write t i ''vault.key'' b) d) =
      (if t = ''vault.key'' then None else Some b)" for t i b d
    by (auto simp: fs_run_def atomic_write_def read_file_def set_names_def)
  have "cs_disk st1 = fs_run (init_ops w env cfg r pw) (cs_disk st)"
    using o a(3) by (auto simp: open_vault_def Let_def k init_ops_def fs_run_append split: if_splits)
  with a show ?thesis by (rule that)
qed


text \<open>
  C36: There is no half-made installation.  If a crash at any point of \<open>init\<close>, or its end, can leave a
  configuration file, then that file is complete, and the vault key and the administration
  password are there, complete, whatever else the crash leaves.
\<close>

theorem no_half_made_installation:
  assumes "initialize w args env st = (st1, Inr (Some cfg))" and "new_directory w env (cs_disk st)"
    and "init_plan w args env = Inr (Some (cfg, r, pw))" and "vault_lib_ok (cw_vault w) (password_json pw)"
    and "d = fs_run (take k (init_ops w env cfg r pw)) (cs_disk st)"
  shows "cs_disk st1 = fs_run (init_ops w env cfg r pw) (cs_disk st)
    \<and> (crash_read (cw_path w) d (Some c) \<longrightarrow> c = config_text (cw_config w) cfg
        \<and> (\<forall>y. crash_read ''vault.key'' d y \<longrightarrow> y = Some (ce_key env))
        \<and> (\<forall>y. crash_read (record_file ''admin'') d y \<longrightarrow>
             decode_record (cw_vault w) (ce_key env) y = Inr (password_json pw)))"
proof -
  have p: "cs_disk st1 = fs_run (init_ops w env cfg r pw) (cs_disk st)"
    using assms(1,3) by (auto elim!: initialize_Inr)
  note n = new_directory_ok [OF assms(2), where r = r and pw = pw and cfg = cfg]
  have "c = config_text (cw_config w) cfg \<and> durable ''vault.key'' (Some (ce_key env)) d
      \<and> durable ''admin.enc'' (Some (vl_encrypt (cw_vault w) (ce_key env)
           (vl_dumps (cw_vault w) (password_json pw)))) d"
    if "crash_read (cw_path w) d (Some c)"
  proof -
    have c: "crash_read (write_path (config_write w env cfg)) (fs_run (take k (write_all
        (init_list w env r pw @ [config_write w env cfg]))) (cs_disk st)) (Some c)"
      using that by (simp add: assms(5) init_ops_list config_write_def)
    note l = last_write [OF n(1) n(2) c]
    show ?thesis using l(1) l(2) [of "init_list w env r pw ! 0"] l(2) [of "init_list w env r pw ! 1"]
      by (simp add: assms(5) init_ops_list config_write_def init_list_def)
  qed
  then show ?thesis using p decode_written [OF assms(4)]
    by (auto simp: durable_crash_read record_file_def)
qed


section \<open>An installation\<close>

text \<open>
  \<open>init\<close> with an imported token into an empty directory.  The vault's JSON is represented by one
  character per record.
\<close>

definition demo_args :: init_args where
  "demo_args = \<lparr>ia_data_dir = Some ''/srv/state'',
     ia_davmail = Some (java_file [Property ''davmail.smtpEmbeddedUsername'' ''me@x.org'',
       Property ''davmail.oauth.me@x.org.refreshToken'' ''dG9r'']),
     ia_sender = None, ia_backend = None, ia_tenant_id = None, ia_client_id = None, ia_redirect_uri = None,
     ia_import_token = True, ia_password_env = True\<rparr>"

definition demo_cli_env :: cli_env where
  "demo_cli_env = \<lparr>ce_default_dir = ''/srv/state'', ce_variable = Some ''long password'', ce_typed = None,
     ce_salt = ''s'', ce_key = ''k'', ce_process = 1, ce_tmp = (\<lambda>k. replicate (Suc k) CHR ''t''), ce_inode = id\<rparr>"

definition demo_installed :: config where
  "demo_installed = default_config\<lparr>cfg_data_dir := ''/srv/state'',
     cfg_account := default_account\<lparr>acc_sender := ''me@x.org''\<rparr>\<rparr>"

definition demo_record :: account_record where
  "demo_record = \<lparr>ar_fingerprint = account_fingerprint demo_oauth demo_installed, ar_mode = ''legacy_v1'',
     ar_username = ''me@x.org'', ar_default_sender = None, ar_refresh = JStr ''tok'', ar_last_refresh = None\<rparr>"

definition demo_hash :: password_record where
  "demo_hash = [(''salt'', b64encode ''s''), (''hash'', b64encode ''lons'')]"

definition demo_vault :: vault_lib where
  "demo_vault = plain_vault\<lparr>
     vl_dumps := (\<lambda>v. if v = password_json demo_hash then ''p'' else if v = record_json demo_record then ''r'' else []),
     vl_loads := (\<lambda>b. if b = ''p'' then Some (password_json demo_hash)
       else if b = ''r'' then Some (record_json demo_record) else None)\<rparr>"

definition demo_cli :: cli_world where
  "demo_cli = \<lparr>cw_config = plain_config_lib\<lparr>cl_loads := (\<lambda>s. Some ((''data_dir'', TStr ''/srv/state'') #
      map (\<lambda>(s, t). (s, TTable t)) (config_tables demo_installed)))\<rparr>,
     cw_oauth = demo_oauth, cw_vault = demo_vault, cw_path = ''gateway.toml''\<rparr>"

definition empty_disk :: disk where
  "empty_disk = \<lparr>dk_names = (\<lambda>_. None), dk_journal = [\<lambda>_. None], dk_data = (\<lambda>_. []), dk_synced = (\<lambda>_. True)\<rparr>"

definition demo_cli_state :: cli_state where
  "demo_cli_state = \<lparr>cs_disk = empty_disk, cs_lock = \<lparr>lk_holder = None, lk_mode = 448\<rparr>\<rparr>"

definition demo_properties :: properties where
  "demo_properties = [(''davmail.smtpEmbeddedUsername'', ''me@x.org''),
     (''davmail.oauth.me@x.org.refreshToken'', ''dG9r'')]"

lemma demo_read: "davmail_properties demo_args = Inr (Some (Some demo_properties))"
proof -
  have "list_all plain_item [Property ''davmail.smtpEmbeddedUsername'' ''me@x.org'',
       Property ''davmail.oauth.me@x.org.refreshToken'' ''dG9r'']" by (simp add: plain_item_def)
  from read_java_file [OF this] show ?thesis
    by (simp add: davmail_properties_def demo_args_def bind_typed_def demo_properties_def)
qed

lemma demo_base: "base_config demo_args demo_cli_env (Some demo_properties) = Inr demo_installed"
  by code_simp

lemma demo_valid: "validate (cw_config demo_cli) (overrides demo_args demo_installed) = Inr demo_installed"
  by code_simp

lemma demo_imported: "init_record demo_cli demo_args demo_installed (Some demo_properties) = Inr (Some (Some demo_record))"
  by code_simp

lemma demo_password: "password_from True demo_cli_env = Inr ''long password''"
  "hash_password demo_vault ''s'' ''long password'' = Inr demo_hash"
  by (simp_all add: password_from_def demo_cli_env_def hash_password_def demo_hash_def demo_vault_def plain_vault_def)

lemma demo_plan: "init_plan demo_cli demo_args demo_cli_env = Inr (Some (demo_installed, Some demo_record, demo_hash))"
proof -
  have "ia_password_env demo_args" "ce_salt demo_cli_env = ''s''" "cw_vault demo_cli = demo_vault"
    by (simp_all add: demo_args_def demo_cli_env_def demo_cli_def)
  then show ?thesis
    by (simp add: init_plan_def bind_typed_def demo_read demo_base demo_valid demo_imported demo_password)
qed

lemma demo_new: "new_directory demo_cli demo_cli_env (cs_disk demo_cli_state)"
  by (simp add: new_directory_def demo_cli_def demo_cli_env_def demo_cli_state_def empty_disk_def
      state_files_def durable_def fresh_inode_def)

lemma demo_initialized:
  obtains st1 where "initialize demo_cli demo_args demo_cli_env demo_cli_state = (st1, Inr (Some demo_installed))"
proof -
  have r: "read_file f empty_disk = None" for f by (simp add: read_file_def empty_disk_def)
  have "cs_disk demo_cli_state = empty_disk"
    "\<exists>lk. acquire_lock (ce_process demo_cli_env) (cs_lock demo_cli_state) = Inr lk"
    by (simp_all add: demo_cli_state_def acquire_lock_def)
  moreover have "\<exists>d k. open_vault True (ce_key demo_cli_env) (ce_tmp demo_cli_env 0) (ce_inode demo_cli_env 0)
      private_mode empty_disk = Inr (d, k)"
    by (simp add: open_vault_def read_file_def fs_run_def atomic_write_def set_names_def empty_disk_def
        demo_cli_env_def private_mode_def)
  ultimately have "\<exists>st1. initialize demo_cli demo_args demo_cli_env demo_cli_state = (st1, Inr (Some demo_installed))"
    by (auto simp: initialize_def demo_plan r Let_def)
  then show ?thesis using that by blast
qed

lemma demo_vault_ok: "vault_lib_ok demo_vault (password_json demo_hash)" "vault_lib_ok demo_vault (record_json demo_record)"
  by (simp_all add: vault_lib_ok_def demo_vault_def plain_vault_def password_json_def record_json_def demo_hash_def)


theorem no_half_made_installation_witness:
  "\<exists>st1. initialize demo_cli demo_args demo_cli_env demo_cli_state = (st1, Inr (Some demo_installed))
     \<and> cs_disk st1 = fs_run (init_ops demo_cli demo_cli_env demo_installed (Some demo_record) demo_hash) empty_disk
     \<and> \<not> crash_read ''gateway.toml'' (fs_run (take 17 (init_ops demo_cli demo_cli_env demo_installed
           (Some demo_record) demo_hash)) empty_disk) (Some [])"
proof -
  obtain st1 where i: "initialize demo_cli demo_args demo_cli_env demo_cli_state = (st1, Inr (Some demo_installed))"
    by (rule demo_initialized)
  have v: "vault_lib_ok (cw_vault demo_cli) (password_json demo_hash)" using demo_vault_ok by (simp add: demo_cli_def)
  have e: "cs_disk demo_cli_state = empty_disk" "cw_path demo_cli = ''gateway.toml''"
    by (simp_all add: demo_cli_state_def demo_cli_def)
  have "config_text (cw_config demo_cli) demo_installed \<noteq> []" by (simp add: config_text_def)
  with i no_half_made_installation [OF i demo_new demo_plan v refl, of 17 "[]"] show ?thesis
    by (auto simp: e)
qed


end
