(* ===== verification/Gw_Cli_Claims.thy ===== *)
theory Gw_Cli_Claims
  imports Gw_Cli_Props
begin

text \<open>
  The commands as \<open>main\<close> runs them (\<open>cli.py\<close>): what the exit code says, what a command that fails
  leaves behind, and that \<open>reset-admin\<close> replaces the password and nothing else.
\<close>

section \<open>\<open>check\<close> and \<open>reset-admin\<close>\<close>

lemma lock_and_release: "acquire_lock p s = Inr lk \<Longrightarrow> release_lock p lk = s"
  by (cases s) (auto simp: acquire_lock_def release_lock_def split: if_splits)

lemma with_vault_lock:
  "cs_lock (fst (with_vault w env st f)) = cs_lock st"
  by (auto simp: with_vault_def Let_def lock_and_release split: sum.splits option.splits prod.splits)

lemma open_vault_old: "open_vault False k t i m d = Inr (d1, key) \<Longrightarrow>
    d1 = d \<and> read_file ''vault.key'' d = Some key"
  by (auto simp: open_vault_def Let_def split: option.splits if_splits)

lemma with_vault_Inr:
  assumes "with_vault w env st f = (st1, Inr (Some u))"
  obtains cfg key d where "config_of w (cs_disk st) = Inr (Some cfg)"
    "read_file ''vault.key'' (cs_disk st) = Some key" "f key (cs_disk st) = (d, Inr ())" "cs_disk st1 = d"
    "\<exists>l. acquire_lock (ce_process env) (cs_lock st) = Inr l"
  using assms that unfolding with_vault_def Let_def
  by (auto simp: bind_res_Inr dest!: open_vault_old split: sum.splits option.splits prod.splits)

text \<open>What the body does to the disk when it raises is all that a failed command does to it.\<close>

lemma with_vault_failed:
  assumes "with_vault w env st f = (st1, r)" and "r \<noteq> Inr (Some ())"
    and "\<And>key d1 e. f key (cs_disk st) = (d1, Inl e) \<Longrightarrow> d1 = cs_disk st"
  shows "cs_disk st1 = cs_disk st"
proof -
  have "d1 = cs_disk st" if "f key (cs_disk st) = (d1, x)" "bind_res x (\<lambda>u. Inr (Some ())) = r" for key d1 x
    using that assms(2,3) by (cases x) auto
  then show ?thesis
    using assms(1) unfolding with_vault_def Let_def
    by (auto dest!: open_vault_old split: sum.splits option.splits prod.splits)
qed

lemma check_only_reads: "cs_disk (fst (check_command w env st)) = cs_disk st"
  unfolding check_command_def with_vault_def Let_def
  by (auto dest!: open_vault_old split: sum.splits option.splits prod.splits)

lemma check_Inr:
  assumes "snd (check_command w env st) = Inr (Some ())"
  obtains cfg key where "config_of w (cs_disk st) = Inr (Some cfg)"
    "read_file ''vault.key'' (cs_disk st) = Some key" "check_vault (cw_vault w) key (cs_disk st) = Inr ()"
    "\<exists>l. acquire_lock (ce_process env) (cs_lock st) = Inr l"
proof -
  obtain st1 where "with_vault w env st (\<lambda>key d. (d, check_vault (cw_vault w) key d)) = (st1, Inr (Some ()))"
    using assms unfolding check_command_def by (cases "with_vault w env st (\<lambda>key d. (d, check_vault (cw_vault w) key d))") simp
  then show ?thesis using that by (elim with_vault_Inr) simp
qed

lemma reset_lock: "cs_lock (fst (reset_admin w b env st)) = cs_lock st"
  unfolding reset_admin_def by (rule with_vault_lock)

lemma reset_failed: "reset_admin w b env st = (st1, r) \<Longrightarrow> r \<noteq> Inr (Some ()) \<Longrightarrow> cs_disk st1 = cs_disk st"
  unfolding reset_admin_def by (erule with_vault_failed) (auto split: sum.splits)

lemma reset_Inr:
  assumes "reset_admin w b env st = (st1, Inr (Some u))"
  obtains key cfg p pw where "config_of w (cs_disk st) = Inr (Some cfg)"
    "read_file ''vault.key'' (cs_disk st) = Some key"
    "password_from b env = Inr p" "hash_password (cw_vault w) (ce_salt env) p = Inr pw"
    "cs_disk st1 = fs_run (vault_write (cw_vault w) key (ce_tmp env 1) (ce_inode env 1) ''admin''
       (password_json pw)) (cs_disk st)"
proof (rule with_vault_Inr [OF assms [unfolded reset_admin_def]])
  fix cfg key d
  assume a: "config_of w (cs_disk st) = Inr (Some cfg)" "read_file ''vault.key'' (cs_disk st) = Some key"
    and f: "(case bind_res (password_from b env) (\<lambda>p. hash_password (cw_vault w) (ce_salt env) p) of
       Inl e \<Rightarrow> (cs_disk st, Inl e)
     | Inr pw \<Rightarrow> (fs_run (vault_write (cw_vault w) key (ce_tmp env 1) (ce_inode env 1) ''admin''
                     (password_json pw)) (cs_disk st), Inr ())) = (d, Inr ())" and d: "cs_disk st1 = d"
  from f obtain p pw where "password_from b env = Inr p" "hash_password (cw_vault w) (ce_salt env) p = Inr pw"
    "d = fs_run (vault_write (cw_vault w) key (ce_tmp env 1) (ce_inode env 1) ''admin''
       (password_json pw)) (cs_disk st)"
    by (auto simp: bind_res_Inr split: sum.splits)
  with that [OF a] d show ?thesis by blast
qed

section \<open>\<open>init\<close>\<close>

lemma init_lock: "cs_lock (fst (initialize w args env st)) = cs_lock st"
  by (auto simp: initialize_def Let_def lock_and_release split: sum.splits option.splits prod.splits)

lemma init_failed: "initialize w args env st = (st1, r) \<Longrightarrow> \<forall>cfg. r \<noteq> Inr (Some cfg) \<Longrightarrow> cs_disk st1 = cs_disk st"
  by (auto simp: initialize_def Let_def split: if_splits sum.splits option.splits prod.splits)

section \<open>Exit codes\<close>

lemma exit_of_Some:
  "exit_of t r = Some (n, s) \<Longrightarrow> n \<in> {0, 1, 130} \<and> (n = 0 \<longleftrightarrow> r = Inr (Some ()))
     \<and> (n = 130 \<longleftrightarrow> r = Inl keyboard_interrupt) \<and> (n = 1 \<longleftrightarrow> s \<noteq> [])"
  by (auto simp: exit_of_def exit_error_def keyboard_interrupt_def split: sum.splits option.splits if_splits)

lemma command_lock:
  assumes "c \<noteq> RunServe"
  shows "cs_lock (fst (run_command w service c env st)) = cs_lock st"
proof (cases c)
  case (RunInit args)
  then show ?thesis using init_lock [of w args env st] by (simp add: run_command_def split_beta)
qed (use assms in \<open>simp_all add: run_command_def check_command_def reset_admin_def with_vault_lock\<close>)

lemma command_failed:
  assumes "run_command w service c env st = (st1, r)" and "c \<noteq> RunServe" and "r \<noteq> Inr (Some ())"
  shows "cs_disk st1 = cs_disk st"
proof (cases c)
  case (RunInit args)
  obtain r1 where i: "initialize w args env st = (st1, r1)" "r = bind_typed r1 (\<lambda>cfg. Inr (Some ()))"
    using assms(1) by (auto simp: run_command_def RunInit split: prod.splits)
  have "\<forall>cfg. r1 \<noteq> Inr (Some cfg)" using assms(3) i(2) by (auto simp: bind_typed_def)
  then show ?thesis by (rule init_failed [OF i(1)])
next
  case RunCheck
  then show ?thesis using assms(1) check_only_reads [of w env st] by (simp add: run_command_def)
next
  case (RunResetAdmin b)
  then show ?thesis using assms(1,3) by (intro reset_failed) (simp_all add: run_command_def)
qed (use assms(2) in simp)


text \<open>
  \<open>init\<close> with two different answers at the prompt.
\<close>

definition differing_env :: cli_env where
  "differing_env = demo_cli_env\<lparr>ce_typed := Some (''one password'', ''other password'')\<rparr>"

definition typed_args :: init_args where
  "typed_args = demo_args\<lparr>ia_password_env := False\<rparr>"


section \<open>A new password\<close>

text \<open>A state that was in order still is, if only the password has changed.\<close>

lemma check_again:
  assumes "\<And>f. f \<in> {cw_path w, ''vault.key'', ''account.enc'', ''additional_account.enc'', ''additional_sender.enc''}
      \<Longrightarrow> read_file f (cs_disk st1) = read_file f (cs_disk st)"
    and "cs_lock st1 = cs_lock st" and "read_file ''vault.key'' (cs_disk st) = Some key"
    and "vault_read (cw_vault w) key ''admin'' (cs_disk st1) = Inr v" and "truthy v"
  shows "snd (check_command w env st) = Inr (Some ()) \<Longrightarrow> snd (check_command w env st1) = Inr (Some ())"
proof (elim check_Inr)
  fix cfg key2
  assume b: "config_of w (cs_disk st) = Inr (Some cfg)" "read_file ''vault.key'' (cs_disk st) = Some key2"
    "check_vault (cw_vault w) key2 (cs_disk st) = Inr ()" "\<exists>l. acquire_lock (ce_process env) (cs_lock st) = Inr l"
  obtain content where x: "read_file (cw_path w) (cs_disk st) = Some content"
    "load_config (cw_config w) content = Inr (Some cfg)"
    using b(1) by (auto simp: config_of_def split: option.splits)
  have k: "key2 = key" using assms(3) b(2) by simp
  have "\<exists>a b c. vault_read (cw_vault w) key ''account'' (cs_disk st) = Inr a
      \<and> vault_read (cw_vault w) key ''additional_account'' (cs_disk st) = Inr b
      \<and> vault_read (cw_vault w) key ''additional_sender'' (cs_disk st) = Inr c"
    using b(3) unfolding k check_vault_def bind_res_Inr by (auto simp: bind_res_Inr split: if_splits)
  then have "check_vault (cw_vault w) key (cs_disk st1) = Inr ()"
    using assms(1,4,5) by (intro check_vault_ok [OF assms(4,5)]) (auto simp: vault_read_def record_file_def)
  then show ?thesis using assms(1) [of "cw_path w"] assms(1) [of "''vault.key''"] assms(2,3) x b(4)
    by (intro check_command_ok) simp_all
qed

text \<open>
  After \<open>reset-admin\<close> the vault holds the hash of the password given; a sign-in is accepted for it,
  and for no other password that scrypt tells apart; every other record, the key and the
  configuration are as before, so that \<open>check\<close> accepts the state if it did before.
\<close>

theorem new_password_takes_over:
  assumes "cli_main w service os_text (RunResetAdmin b) env st = (st1, Some (0, err))"
    and "durable (record_file ''admin'') old (cs_disk st)" and "fresh_inode (ce_inode env 1) (cs_disk st)"
    and "ce_tmp env 1 \<notin> set (cw_path w # state_files)" and "cw_path w \<notin> set state_files"
    and "\<forall>p pw. password_from b env = Inr p \<longrightarrow> hash_password (cw_vault w) (ce_salt env) p = Inr pw \<longrightarrow>
       vault_lib_ok (cw_vault w) (password_json pw)"
  shows "\<exists>key p pw. read_file ''vault.key'' (cs_disk st1) = Some key \<and> password_from b env = Inr p
      \<and> vault_read (cw_vault w) key ''admin'' (cs_disk st1) = Inr (password_json pw)
      \<and> (verify_password (cw_vault w) attempt pw \<longleftrightarrow> int (length attempt) \<le> 1024
           \<and> vl_scrypt (cw_vault w) attempt (ce_salt env) = vl_scrypt (cw_vault w) p (ce_salt env))
      \<and> (\<forall>f. f \<noteq> ''admin.enc'' \<longrightarrow> f \<noteq> ce_tmp env 1 \<longrightarrow> read_file f (cs_disk st1) = read_file f (cs_disk st))
      \<and> (snd (check_command w env2 st) = Inr (Some ()) \<longrightarrow> snd (check_command w env2 st1) = Inr (Some ()))"
proof -
  have run: "reset_admin w b env st = (st1, Inr (Some ()))"
    using assms(1) exit_of_Some [of os_text _ 0 err] by (auto simp: cli_main_def run_command_def split: prod.splits)
  from run obtain key cfg p pw where k: "config_of w (cs_disk st) = Inr (Some cfg)"
    "read_file ''vault.key'' (cs_disk st) = Some key"
    "password_from b env = Inr p" "hash_password (cw_vault w) (ce_salt env) p = Inr pw"
    and d: "cs_disk st1 = fs_run (vault_write (cw_vault w) key (ce_tmp env 1) (ce_inode env 1) ''admin''
       (password_json pw)) (cs_disk st)"
    by (rule reset_Inr)
  have ok: "vault_lib_ok (cw_vault w) (password_json pw)" using assms(6) k(3,4) by blast
  have same: "read_file f (cs_disk st1) = read_file f (cs_disk st)" if "f \<noteq> ''admin.enc''" "f \<noteq> ce_tmp env 1" for f
    using other_file [OF _ that(2) assms(3)] that(1) unfolding d vault_write_def by (simp add: record_file_def)
  have "durable ''admin.enc'' (Some (vl_encrypt (cw_vault w) key (vl_dumps (cw_vault w) (password_json pw)))) (cs_disk st1)"
    unfolding d vault_write_def record_file_def append.simps
    using assms(2,4) by (intro finished_write [OF _ _ assms(3)]) (auto simp: record_file_def state_files_def)
  then have admin: "vault_read (cw_vault w) key ''admin'' (cs_disk st1) = Inr (password_json pw)"
    using decode_written [OF ok] by (simp add: vault_read_def record_file_def durable_read)
  have t: "ce_tmp env 1 \<noteq> cw_path w" "ce_tmp env 1 \<notin> set state_files" using assms(4) by auto
  then have s: "read_file f (cs_disk st1) = read_file f (cs_disk st)"
    if "f \<in> {cw_path w, ''vault.key'', ''account.enc'', ''additional_account.enc'', ''additional_sender.enc''}" for f
    using that assms(5) by (intro same) (auto simp: state_files_def)
  have l: "cs_lock st1 = cs_lock st"
    using reset_lock [of w b env st] run by simp
  have "truthy (password_json pw)" using k(4) by (auto simp: hash_password_def password_json_def split: if_splits)
  note c = check_again [OF s l k(2) admin this, of env2]
  have key: "read_file ''vault.key'' (cs_disk st1) = Some key" using s [of "''vault.key''"] k(2) by simp
  have v: "verify_password (cw_vault w) attempt pw \<longleftrightarrow> int (length attempt) \<le> 1024
           \<and> vl_scrypt (cw_vault w) attempt (ce_salt env) = vl_scrypt (cw_vault w) p (ce_salt env)"
    using password_check [OF k(4), of attempt] by simp
  show ?thesis using key k(3) admin v same c by blast
qed

end
