(* ===== verification/Gw_Service.thy ===== *)
theory Gw_Service
  imports Gw_Prelude "HOL-Library.Sublist"
begin

text \<open>
  \<open>service.py\<close>: the order in which \<open>serve\<close> starts the parts of the service and stops them again.  Each
  step is an event that succeeds or raises (\<open>fails\<close> says which ones raise, cancellation included);
  \<open>serve_service\<close> (\<open>serve\<close>) is the list of the events that were tried, with their outcome.  What the steps do is in the
  theories of the parts.
\<close>

section \<open>Events\<close>

text \<open>
  \<open>MakeListener\<close> and \<open>MakePages\<close> are the assignments of \<open>smtp\<close> and \<open>runner\<close>, from which on the clean-up
  knows them; \<open>StartWorkers\<close> sets \<open>dispatcher.tasks\<close>.
\<close>

datatype service_event =
    TakeLock | OpenVault | ReadAdmin | OpenSession | StartStore | MakeAccounts | MakeListener
  | MakePages | SetUpPages | ServePages | StartListener | StartWorkers | AwaitSignal
  | CloseListener | CleanUpPages | CloseWorkers | CloseStore | CloseSession | ReleaseLock

type_synonym service_log = "(service_event \<times> bool) list"

text \<open>Statements in sequence: the first one that raises ends it.\<close>

fun attempt :: "(service_event \<Rightarrow> bool) \<Rightarrow> service_event list \<Rightarrow> service_log" where
  "attempt fails [] = []"
| "attempt fails (e # es) = (if fails e then [(e, False)] else (e, True) # attempt fails es)"

section \<open>\<open>serve\<close>\<close>

definition startup :: "service_event list" where
  "startup = [OpenVault, ReadAdmin, OpenSession, StartStore, MakeAccounts, MakeListener,
     MakePages, SetUpPages, ServePages, StartListener, StartWorkers, AwaitSignal]"

definition succeeded :: "service_log \<Rightarrow> service_event \<Rightarrow> bool" where
  "succeeded l e = ((e, True) \<in> set l)"

text \<open>The body of the \<open>finally\<close>, and the two \<open>finally\<close> blocks inside it.\<close>

definition stop_parts :: "service_log \<Rightarrow> service_event list" where
  "stop_parts l =
     (if succeeded l MakeListener then [CloseListener] else []) @
     (if succeeded l MakePages then [CleanUpPages] else []) @
     (if succeeded l StartWorkers then [CloseWorkers] else [])"

definition release_parts :: "service_log \<Rightarrow> service_event list" where
  "release_parts l = (if succeeded l OpenSession then [CloseSession] else []) @ [ReleaseLock]"

definition shutdown :: "(service_event \<Rightarrow> bool) \<Rightarrow> service_log \<Rightarrow> service_log" where
  "shutdown fails l = attempt fails (stop_parts l) @ attempt fails [CloseStore] @ attempt fails (release_parts l)"

definition start_up :: "(service_event \<Rightarrow> bool) \<Rightarrow> service_log" where
  "start_up fails = (TakeLock, True) # attempt fails startup"

definition serve_service :: "(service_event \<Rightarrow> bool) \<Rightarrow> service_log" where
  "serve_service fails =
     (if fails TakeLock then [(TakeLock, False)]
      else start_up fails @ shutdown fails (start_up fails))"

section \<open>Order\<close>

lemma attempt_fst: "\<exists>k. map fst (attempt fails es) = take k es"
proof (induction es)
  case (Cons e es)
  then obtain k where "map fst (attempt fails es) = take k es" ..
  then show ?case by (cases "fails e") (auto intro: exI [of _ "Suc 0"] exI [of _ "Suc k"])
qed simp

lemma attempt_subseq: "subseq (map fst (attempt fails es)) es"
  using attempt_fst [of fails es] prefix_imp_subseq [OF take_is_prefix] by metis

lemma attempt_outcome_fails: "(e, b) \<in> set (attempt fails es) \<Longrightarrow> b = (\<not> fails e)"
  by (induction es) (auto split: if_splits)

text \<open>An event is tried if none before it raises.\<close>

lemma attempt_reached: "e \<in> set es \<Longrightarrow> (\<And>x. x \<in> set (takeWhile (\<lambda>x. x \<noteq> e) es) \<Longrightarrow> \<not> fails x) \<Longrightarrow>
   (e, \<not> fails e) \<in> set (attempt fails es)"
  by (induction es) (auto split: if_splits)

lemma stop_parts_subseq: "subseq (stop_parts l) [CloseListener, CleanUpPages, CloseWorkers]"
  by (simp add: stop_parts_def)

lemma release_parts_subseq: "subseq (release_parts l) [CloseSession, ReleaseLock]"
  by (simp add: release_parts_def)

definition service_order :: "service_event list" where
  "service_order = TakeLock # startup @ [CloseListener, CleanUpPages, CloseWorkers] @ [CloseStore] @
     [CloseSession, ReleaseLock]"

lemma attempt_events: "fst ` set (attempt fails es) \<subseteq> set es"
  by (induction es) auto

lemma not_tried: "e \<notin> set es \<Longrightarrow> (e, b) \<notin> set (attempt fails es)"
  using attempt_events [of fails es] by force

lemma tried: "e \<in> set es \<Longrightarrow> (\<And>x. x \<in> set (takeWhile (\<lambda>x. x \<noteq> e) es) \<Longrightarrow> \<not> fails x) \<Longrightarrow>
   e \<in> fst ` set (attempt fails es)"
  by (rule image_eqI [OF _ attempt_reached]) auto

text \<open>Stopping does not change what was started.\<close>

lemma shutdown_events: "fst ` set (shutdown fails l) \<subseteq>
   {CloseListener, CleanUpPages, CloseWorkers, CloseStore, CloseSession, ReleaseLock}"
  using attempt_events [of fails "stop_parts l"] attempt_events [of fails "release_parts l"]
  by (auto simp: shutdown_def stop_parts_def release_parts_def split: if_splits)

lemma started:
  assumes "e \<in> set startup"
  shows "succeeded (l @ shutdown fails k) e = succeeded l e"
proof -
  have "e \<notin> fst ` set (shutdown fails k)" using assms shutdown_events [of fails k] unfolding startup_def by auto
  then show ?thesis by (auto simp: succeeded_def intro: rev_image_eqI)
qed

lemma shutdown_subseq: "subseq (map fst (shutdown fails l))
   ([CloseListener, CleanUpPages, CloseWorkers] @ [CloseStore] @ [CloseSession, ReleaseLock])"
  unfolding shutdown_def map_append
  by (intro list_emb_append_mono attempt_subseq)
    (rule subseq_order.trans [OF attempt_subseq], rule stop_parts_subseq release_parts_subseq)+

lemma start_up_subseq: "subseq (map fst (start_up fails)) (TakeLock # startup)"
  by (simp add: start_up_def attempt_subseq)

lemma serve_subseq: "subseq (map fst (serve_service fails)) service_order"
proof (cases "fails TakeLock")
  case True
  then show ?thesis by (simp add: serve_service_def service_order_def)
next
  case False
  then show ?thesis using list_emb_append_mono [OF start_up_subseq shutdown_subseq]
    by (simp add: serve_service_def service_order_def)
qed

lemma service_order_distinct: "distinct service_order"
  by (simp add: service_order_def startup_def)

text \<open>What is told to stop.\<close>

lemma store_closes: "CloseStore \<in> fst ` set (shutdown fails l)"
  by (simp add: shutdown_def)

lemma listener_closes: "succeeded l MakeListener \<Longrightarrow> CloseListener \<in> fst ` set (shutdown fails l)"
  by (simp add: shutdown_def stop_parts_def)

lemma pages_close: "succeeded l MakePages \<Longrightarrow> \<not> fails CloseListener \<Longrightarrow> CleanUpPages \<in> fst ` set (shutdown fails l)"
  by (simp add: shutdown_def stop_parts_def)

lemma workers_close: "succeeded l StartWorkers \<Longrightarrow> \<not> fails CloseListener \<Longrightarrow> \<not> fails CleanUpPages \<Longrightarrow>
   CloseWorkers \<in> fst ` set (shutdown fails l)"
  by (simp add: shutdown_def stop_parts_def)

lemma session_closes: "CloseSession \<in> fst ` set (shutdown fails l) \<longleftrightarrow> succeeded l OpenSession"
  using attempt_events [of fails "stop_parts l"]
  by (force simp: shutdown_def stop_parts_def release_parts_def)

lemma lock_released: "\<not> fails CloseSession \<or> \<not> succeeded l OpenSession \<Longrightarrow> ReleaseLock \<in> fst ` set (shutdown fails l)"
  by (auto simp: shutdown_def release_parts_def)

lemma serve_distinct: "distinct (map fst (serve_service fails))"
  by (rule subseqs_distinctD [OF _ service_order_distinct]) (simp add: serve_subseq)

lemma begun: "\<not> fails TakeLock \<Longrightarrow> e \<in> set startup \<Longrightarrow> succeeded (serve_service fails) e = succeeded (start_up fails) e"
  by (simp add: serve_service_def started)

lemma stopped: "\<not> fails TakeLock \<Longrightarrow> e \<notin> set (TakeLock # startup) \<Longrightarrow>
   e \<in> fst ` set (serve_service fails) \<longleftrightarrow> e \<in> fst ` set (shutdown fails (start_up fails))"
  using attempt_events [of fails startup] by (auto simp: serve_service_def start_up_def)

lemma startup_events: "{OpenSession, MakeListener, MakePages, StartWorkers} \<subseteq> set startup"
  "set startup \<inter> {CloseListener, CleanUpPages, CloseWorkers, CloseStore, CloseSession, ReleaseLock} = {}"
  by (simp_all add: startup_def)



end
