(* ===== verification/Gw_Shutdown_Claims.thy ===== *)
theory Gw_Shutdown_Claims
  imports Gw_Delivery_Claims
begin

text \<open>
  \<open>Dispatcher.close\<close>: once the stop is set, every task of the dispatcher ends after a bounded number
  of its own steps, whatever the back end answers, whatever the database does, and whether or not
  the grace time runs out; nothing the operator or the listener does in between prolongs it.
\<close>

section \<open>How far a task is from its end\<close>

fun steps_left :: "worker \<Rightarrow> nat" where
  "steps_left Gone = 0"
| "steps_left Idle = 1"
| "steps_left AwaitPermit = 2"
| "steps_left (Reporting r res) = 2"
| "steps_left (Attempting r) = 3"
| "steps_left Permitted = 4"

definition keeper_left :: "keeper \<Rightarrow> nat" where
  "keeper_left k = (if k = KeeperGone then 0 else 1)"

definition total_left :: "dispatcher \<Rightarrow> nat" where
  "total_left s = sum_list (map steps_left (dp_workers s)) + keeper_left (dp_keeper s)"

text \<open>The events that are steps of a task, and those of one worker that are not its cancellation.\<close>

definition task_step :: "dispatch_event \<Rightarrow> bool" where
  "task_step e = (case e of DPause p \<Rightarrow> False | DRate r \<Rightarrow> False | DStop \<Rightarrow> False | DUnhealthy \<Rightarrow> False
     | DStore ev \<Rightarrow> False | _ \<Rightarrow> True)"

definition step_of :: "nat \<Rightarrow> dispatch_event \<Rightarrow> bool" where
  "step_of k e = (case e of DEnter j t \<Rightarrow> j = k | DPermit j c t \<Rightarrow> j = k | DTake j t \<Rightarrow> j = k
     | DConclude j x t out \<Rightarrow> j = k | DReport j t \<Rightarrow> j = k | _ \<Rightarrow> False)"

lemma steps_left_bound: "steps_left w \<le> 4"
  by (cases w) simp_all

lemma sum_steps_bound: "sum_list (map steps_left ws) \<le> 4 * length ws"
proof (induction ws)
  case (Cons w ws)
  then show ?case using steps_left_bound [of w] by simp
qed simp

lemma sum_steps_upd: "k < length ws \<Longrightarrow>
   sum_list (map steps_left (ws[k := w])) + steps_left (ws ! k) = sum_list (map steps_left ws) + steps_left w"
proof (induction ws arbitrary: k)
  case (Cons x ws)
  then show ?case by (cases k) auto
qed simp

text \<open>A task's step brings it closer to its end.\<close>

definition closer :: "dispatcher \<Rightarrow> dispatcher \<Rightarrow> bool" where
  "closer s t = (dp_stopping t = dp_stopping s \<and> length (dp_workers t) = length (dp_workers s)
     \<and> total_left t < total_left s)"

lemma closer_worker:
  assumes "worker_at k s \<noteq> Gone" "dp_workers t = (dp_workers s)[k := w]"
    "steps_left w < steps_left (worker_at k s)" "dp_stopping t = dp_stopping s" "dp_keeper t = dp_keeper s"
  shows "closer s t"
proof -
  have k: "k < length (dp_workers s)" "dp_workers s ! k = worker_at k s"
    using assms(1) by (auto simp: worker_at_def split: if_splits)
  have "sum_list (map steps_left (dp_workers t)) < sum_list (map steps_left (dp_workers s))"
    using sum_steps_upd [OF k(1), of w] assms(3) k(2) by (simp add: assms(2))
  then show ?thesis using assms(2,4,5) by (simp add: closer_def total_left_def)
qed

lemma set_worker_fields [simp]:
  "dp_workers (set_worker k w s) = (dp_workers s)[k := w]" "dp_stopping (set_worker k w s) = dp_stopping s"
  "dp_keeper (set_worker k w s) = dp_keeper s"
  by (simp_all add: set_worker_def)

lemma closer_enter:
  assumes "dp_stopping s" "enter k now s = Some t"
  shows "closer s t"
proof -
  have "worker_at k s = Idle" "t = set_worker k Gone s"
    using assms by (auto simp: enter_def split: if_splits)
  then show ?thesis by (intro closer_worker [of k s t Gone]) simp_all
qed

lemma closer_permit:
  assumes "dp_stopping s" "permit k clock now s = Some t"
  shows "closer s t"
proof -
  have "worker_at k s = AwaitPermit" "\<exists>x. t = set_worker k Idle (s\<lparr>dp_next_permit := x\<rparr>)"
    using assms by (auto simp: permit_def Let_def split: if_splits)
  then show ?thesis by (intro closer_worker [of k s t Idle]) auto
qed

lemma closer_take:
  assumes "take_job cfg k now s = Some t"
  shows "closer s t"
proof -
  have w: "worker_at k s = Permitted" using assms by (simp add: take_job_def split: if_splits)
  obtain x w where "t = set_worker k w x" "dp_workers x = dp_workers s" "dp_stopping x = dp_stopping s"
    "dp_keeper x = dp_keeper s" "w = Idle \<or> (\<exists>r. w = Attempting r)"
    using assms w by (auto simp: take_job_def split: sum.splits option.splits)
  then show ?thesis using \<open>worker_at k s = Permitted\<close> by (intro closer_worker [of k s t w]) auto
qed

lemma pause_fields [simp]: "dp_workers (pause p s) = dp_workers s" "dp_stopping (pause p s) = dp_stopping s"
  "dp_keeper (pause p s) = dp_keeper s"
  by (simp_all add: pause_def)

lemma closer_conclude:
  assumes "conclude cfg k jitter now outcome s = Some t"
  shows "closer s t"
proof -
  obtain r where r: "worker_at k s = Attempting r"
    using assms by (auto simp: conclude_def split: worker.splits)
  then show ?thesis using assms
    by (intro closer_worker [of k s t "Reporting r (attempt_outcome cfg jitter (attempts r) outcome)"])
      (auto simp: conclude_def Let_def split: if_splits)
qed

lemma closer_report:
  assumes "report k now s = Some t"
  shows "closer s t"
proof -
  obtain r res where r: "worker_at k s = Reporting r res" using assms by (auto simp: report_def split: worker.splits)
  then show ?thesis using assms
    by (intro closer_worker [of k s t Idle]) (auto simp: report_def split: sum.splits)
qed

lemma closer_fail:
  assumes "fail_job k s = Some t"
  shows "closer s t"
proof -
  have "t = set_worker k Idle (s\<lparr>dp_healthy := False\<rparr>)" "steps_left (worker_at k s) > 1"
    using assms by (auto simp: fail_job_def split: worker.splits)
  moreover from this(2) have "worker_at k s \<noteq> Gone" by auto
  ultimately show ?thesis by (intro closer_worker [of k s t Idle]) auto
qed

lemma cancel_worker_gone:
  assumes "cancel_worker cfg k runs now s = Some t"
  obtains d where "worker_at k s \<noteq> Gone" "t = (set_worker k Gone s)\<lparr>dp_db := d\<rparr>"
proof -
  have "worker_at k s \<noteq> Gone" using assms by (auto simp: cancel_worker_def Let_def)
  moreover have "t = set_worker k Gone s \<or> (\<exists>d. t = (set_worker k Gone s)\<lparr>dp_db := d\<rparr>)"
    using assms unfolding cancel_worker_def Let_def
    by (cases "worker_at k s") (simp_all split: if_splits sum.splits prod.splits, blast+)
  moreover have "set_worker k Gone s = (set_worker k Gone s)\<lparr>dp_db := dp_db s\<rparr>"
    by (simp add: set_worker_def)
  ultimately show ?thesis using that by metis
qed

lemma closer_cancel:
  assumes "cancel_worker cfg k runs now s = Some t"
  shows "closer s t"
  using assms
proof (rule cancel_worker_gone)
  fix d
  assume a: "worker_at k s \<noteq> Gone" "t = (set_worker k Gone s)\<lparr>dp_db := d\<rparr>"
  then have "steps_left (worker_at k s) > 0" by (cases "worker_at k s") simp_all
  with a show ?thesis by (intro closer_worker [of k s t Gone]) auto
qed

text \<open>The housekeeping task, once stopping, ends with its next step.\<close>

lemma closer_keeper:
  "dp_keeper s \<noteq> KeeperGone \<Longrightarrow> dp_keeper t = KeeperGone \<Longrightarrow> dp_workers t = dp_workers s \<Longrightarrow>
     dp_stopping t = dp_stopping s \<Longrightarrow> closer s t"
  by (simp add: closer_def total_left_def keeper_left_def)

lemma closer_keeper_steps:
  "dp_stopping s \<Longrightarrow> keeper_wakes s = Some t \<Longrightarrow> closer s t"
  "dp_stopping s \<Longrightarrow> tidy cfg now ids s = Some t \<Longrightarrow> closer s t"
  "dp_stopping s \<Longrightarrow> fail_tidy s = Some t \<Longrightarrow> closer s t"
proof -
  show "dp_stopping s \<Longrightarrow> keeper_wakes s = Some t \<Longrightarrow> closer s t"
    by (rule closer_keeper) (auto simp: keeper_wakes_def split: if_splits)
  show "dp_stopping s \<Longrightarrow> tidy cfg now ids s = Some t \<Longrightarrow> closer s t"
    by (rule closer_keeper) (auto simp: tidy_def keeper_next_def split: if_splits)
  show "dp_stopping s \<Longrightarrow> fail_tidy s = Some t \<Longrightarrow> closer s t"
    by (rule closer_keeper) (auto simp: fail_tidy_def keeper_next_def split: if_splits)
qed

lemma closer_cancel_keeper: "cancel_keeper cfg runs now ids s = Some t \<Longrightarrow> closer s t"
  by (cases "dp_keeper s") (auto simp: cancel_keeper_def Let_def closer_keeper)

lemma task_step_closer:
  assumes "dispatch_step cfg e s t" "dp_stopping s" "task_step e"
  shows "closer s t"
  using assms(1)
proof (cases rule: dispatch_stepE)
  case (ds_enter k now) then show ?thesis using closer_enter assms(2) by blast
next
  case (ds_permit k clock now) then show ?thesis using closer_permit assms(2) by blast
next
  case (ds_take k now) then show ?thesis using closer_take by blast
next
  case (ds_conclude k jitter now outcome) then show ?thesis using closer_conclude by blast
next
  case (ds_report k now) then show ?thesis using closer_report by blast
next
  case (ds_cancel k runs now) then show ?thesis using closer_cancel by blast
next
  case (ds_fail k) then show ?thesis using closer_fail by blast
next
  case ds_wake then show ?thesis using closer_keeper_steps(1) assms(2) by blast
next
  case (ds_tidy now ids) then show ?thesis using closer_keeper_steps(2) assms(2) by blast
next
  case ds_tidy_fails then show ?thesis using closer_keeper_steps(3) assms(2) by blast
next
  case (ds_cancel_keeper runs now ids) then show ?thesis using closer_cancel_keeper by blast
qed (use assms(3) in \<open>simp_all add: task_step_def\<close>)

lemma other_step_same:
  assumes "dispatch_step cfg e s t" "dp_stopping s" "\<not> task_step e"
  shows "dp_stopping t \<and> length (dp_workers t) = length (dp_workers s) \<and> total_left t = total_left s"
  using assms(1)
proof (cases rule: dispatch_stepE)
  case (ds_rate r)
  then show ?thesis using assms(2) by (auto simp: set_rate_def total_left_def split: if_splits)
qed (use assms(2,3) in \<open>simp_all add: task_step_def total_left_def\<close>)

lemma stopping_run:
  assumes "run (dispatch_step cfg) s xs" "dp_stopping s"
  shows "dp_stopping (final s xs) \<and> length (dp_workers (final s xs)) = length (dp_workers s)
    \<and> length (filter (\<lambda>x. task_step (fst x)) xs) + total_left (final s xs) \<le> total_left s"
  using assms
proof (induction xs arbitrary: s)
  case (Cons x xs)
  obtain e t where x: "x = (e, t)" by force
  have st: "dispatch_step cfg e s t" "run (dispatch_step cfg) t xs" using Cons.prems(1) x by auto
  have "dp_stopping t" "length (dp_workers t) = length (dp_workers s)"
    "total_left t + (if task_step e then 1 else 0) \<le> total_left s"
    using task_step_closer [OF st(1) Cons.prems(2)] other_step_same [OF st(1) Cons.prems(2)] Cons.prems(2)
    by (cases "task_step e"; auto simp: closer_def)+
  then show ?case using Cons.IH [OF st(2)] by (auto simp: x split: if_splits)
qed simp

section \<open>Progress\<close>

lemma worker_progress:
  assumes "dp_stopping s" "worker_at k s \<noteq> Gone"
  shows "\<exists>e t. step_of k e \<and> dispatch_step cfg e s t"
proof (cases "worker_at k s")
  case Idle
  then have "enter k now s = Some (set_worker k Gone s)" for now using assms(1) by (simp add: enter_def)
  from ds_enter [OF this, where cfg = cfg] show ?thesis
    by (intro exI [of _ "DEnter k _"] exI) (auto simp: step_of_def)
next
  case AwaitPermit
  then obtain t where "permit k 0 0 s = Some t" using assms(1) by (simp add: permit_def Let_def)
  from ds_permit [OF this, where cfg = cfg] show ?thesis
    by (intro exI [of _ "DPermit k 0 0"] exI [of _ t]) (simp add: step_of_def)
next
  case Permitted
  then obtain t where "take_job cfg k 0 s = Some t"
    by (cases "take_job cfg k 0 s") (auto simp: take_job_def split: sum.splits option.splits)
  from ds_take [OF this] show ?thesis by (intro exI [of _ "DTake k 0"] exI [of _ t]) (simp add: step_of_def)
next
  case (Attempting r)
  then obtain t where "conclude cfg k 1 0 (Inr ()) s = Some t" by (simp add: conclude_def Let_def)
  from ds_conclude [OF this] show ?thesis
    by (intro exI [of _ "DConclude k 1 0 (Inr ())"] exI [of _ t]) (simp add: step_of_def)
next
  case (Reporting r res)
  then obtain t where "report k 0 s = Some t"
    by (cases "report k 0 s") (auto simp: report_def split: sum.splits)
  from ds_report [OF this, where cfg = cfg] show ?thesis
    by (intro exI [of _ "DReport k 0"] exI [of _ t]) (simp add: step_of_def)
next
  case Gone
  then show ?thesis using assms(2) by simp
qed

lemma ended_left: "all_ended s \<longleftrightarrow> total_left s = 0"
proof -
  have "steps_left w = 0 \<longleftrightarrow> w = Gone" for w by (cases w) simp_all
  then show ?thesis by (auto simp: all_ended_def total_left_def keeper_left_def list_all_iff)
qed

lemma ended_holds_nothing: "all_ended s \<Longrightarrow> held_jobs s = []"
  by (auto simp: all_ended_def held_jobs_def worker_job_def list_all_iff)

text \<open>
  C20: \<open>close\<close> comes to its end.  After the stop is set, the tasks of the dispatcher make at most four
  steps for each worker and one for the housekeeping, however these are interleaved with each
  other, with failing database jobs, with cancellations and with everything else; a worker that
  has not ended can always make its next step, without being cancelled; and when no more step of
  a task is possible all have ended and no worker holds a message.
\<close>

theorem shutdown_completes:
  assumes "dp_stopping s" and "run (dispatch_step cfg) s xs"
  shows "length (filter (\<lambda>x. task_step (fst x)) xs) \<le> 4 * length (dp_workers s) + 1
    \<and> (\<forall>k. worker_at k (final s xs) \<noteq> Gone \<longrightarrow> (\<exists>e t. step_of k e \<and> dispatch_step cfg e (final s xs) t))
    \<and> (all_ended (final s xs) \<longrightarrow> held_jobs (final s xs) = [])
    \<and> (length (filter (\<lambda>x. task_step (fst x)) xs) = 4 * length (dp_workers s) + 1 \<longrightarrow> all_ended (final s xs))"
proof -
  note r = stopping_run [OF assms(2,1)]
  have b: "total_left s \<le> 4 * length (dp_workers s) + 1"
    using sum_steps_bound [of "dp_workers s"] by (simp add: total_left_def keeper_left_def)
  have "length (filter (\<lambda>x. task_step (fst x)) xs) + total_left (final s xs) \<le> 4 * length (dp_workers s) + 1"
    using r b by linarith
  then show ?thesis using r worker_progress ended_holds_nothing by (auto simp: ended_left)
qed

theorem shutdown_completes_witness:
  "length (filter (\<lambda>x. task_step (fst x)) [(DReport 0 3, the (report 0 3 (demo_reporting\<lparr>dp_stopping := True\<rparr>)))])
     \<le> 4 * length (dp_workers demo_reporting) + 1"
proof -
  let ?s = "demo_reporting\<lparr>dp_stopping := True\<rparr>"
  have "report 0 3 ?s = Some (the (report 0 3 ?s))" by code_simp
  from ds_report [OF this, where cfg = demo_cfg]
  have "run (dispatch_step demo_cfg) ?s [(DReport 0 3, the (report 0 3 ?s))]" by simp
  from shutdown_completes [OF _ this] show ?thesis by simp
qed

end
