(* ===== verification/Gw_System.thy ===== *)
theory Gw_System
  imports Gw_Listener_Inv Gw_Queue_Props Gw_Delivery_Props
begin

text \<open>
  The running service, as \<open>service.py\<close> puts it together: the SMTP listener hands messages to the
  queue, the writer commits them, the workers claim and report them, all on one event loop and one
  database.  A step of the system is a step of one part; the database and \<open>store.healthy\<close> are shared.
\<close>

section \<open>State\<close>

text \<open>What the parts are made with; \<open>st_networks\<close> are the parsed \<open>allowed_networks\<close>.\<close>

record site =
  si_email :: email_lib
  si_config :: config
  si_parse :: "string \<Rightarrow> ip option"
  si_networks :: "network list"

text \<open>\<open>sy_tickets\<close>: the connections that wait for \<open>store.submit\<close>, with the future they wait for.\<close>

record system =
  sy_listener :: listener
  sy_tickets :: "(nat \<times> nat) list"
  sy_queue :: queue_state
  sy_dispatcher :: dispatcher

definition share_queue :: "queue_state \<Rightarrow> system \<Rightarrow> system" where
  "share_queue q s = s\<lparr>sy_queue := q,
     sy_dispatcher := (sy_dispatcher s)\<lparr>dp_db := sq_db q, dp_healthy := sq_healthy q\<rparr>\<rparr>"

definition share_dispatcher :: "dispatcher \<Rightarrow> system \<Rightarrow> system" where
  "share_dispatcher d s = s\<lparr>sy_dispatcher := d,
     sy_queue := (sy_queue s)\<lparr>sq_db := dp_db d, sq_healthy := dp_healthy d\<rparr>\<rparr>"

definition listen :: "site \<Rightarrow> event \<Rightarrow> listener \<Rightarrow> listener \<times> string" where
  "listen si e sv = serve (si_email si) (si_config si) (si_parse si) (si_networks si) e sv"

section \<open>Receiving\<close>

definition submission_at :: "nat \<Rightarrow> listener \<Rightarrow> prepared_message option" where
  "submission_at i sv = (case map_of (sv_connections sv) i of None \<Rightarrow> None
     | Some c \<Rightarrow> (case co_phase c of Submitting d q x m \<Rightarrow> Some m | _ \<Rightarrow> None))"

text \<open>
  A line of a client, with the additional sender and a fresh UUID.  At the end of a message
  \<open>submit\<close> is called at once: it refuses, or returns a future to wait for.
\<close>

definition client_line :: "site \<Rightarrow> nat \<Rightarrow> string \<Rightarrow> string \<Rightarrow> bytes \<Rightarrow> system \<Rightarrow> system \<times> string" where
  "client_line si i extra identifier line s =
     (let available = sq_accepting (sy_queue s) \<and> sq_healthy (sy_queue s);
          (sv, reply) = listen si (Line i available extra identifier line) (sy_listener s)
      in case (if submission_at i (sy_listener s) = None then submission_at i sv else None) of
           None \<Rightarrow> (s\<lparr>sy_listener := sv\<rparr>, reply)
         | Some m \<Rightarrow>
             (case submit (si_config si) m (sy_queue s) of
                Inl e \<Rightarrow> (let (sv1, reply1) = listen si (event.Submitted i False) sv
                          in (s\<lparr>sy_listener := sv1\<rparr>, reply1))
              | Inr (q, f) \<Rightarrow>
                  (share_queue q s\<lparr>sy_listener := sv, sy_tickets := (i, f) # sy_tickets s\<rparr>, reply)))"

text \<open>A future with a result wakes its connection, which replies.\<close>

definition acked :: "outcome \<Rightarrow> bool" where
  "acked r = (case r of Acked i \<Rightarrow> True | Refused t \<Rightarrow> False)"

definition answer_client :: "site \<Rightarrow> nat \<Rightarrow> system \<Rightarrow> (system \<times> string) option" where
  "answer_client si i s =
     (case map_of (sy_tickets s) i of None \<Rightarrow> None
      | Some f \<Rightarrow>
          (case map_of (sq_outcomes (sy_queue s)) f of None \<Rightarrow> None
           | Some r \<Rightarrow>
               (let (sv, reply) = listen si (event.Submitted i (acked r)) (sy_listener s)
                in Some (s\<lparr>sy_listener := sv, sy_tickets := AList.delete i (sy_tickets s)\<rparr>, reply))))"

text \<open>A new connection, a lost or expired one, the listener's \<open>close\<close>.\<close>

definition client_event :: "site \<Rightarrow> event \<Rightarrow> system \<Rightarrow> (system \<times> string) option" where
  "client_event si e s =
     (let (sv, reply) = listen si e (sy_listener s); t = s\<lparr>sy_listener := sv\<rparr> in
      case e of
        Connect i peer \<Rightarrow> Some (t, reply)
      | Lost i \<Rightarrow> Some (t\<lparr>sy_tickets := AList.delete i (sy_tickets s)\<rparr>, reply)
      | Expired i \<Rightarrow> Some (t\<lparr>sy_tickets := AList.delete i (sy_tickets s)\<rparr>, reply)
      | Shutdown \<Rightarrow> Some (t, reply)
      | _ \<Rightarrow> None)"

section \<open>The steps\<close>

datatype system_event =
    SyClient event
  | SyLine nat string string bytes
  | SyAnswer nat
  | SyWriter job_env
  | SyDispatch dispatch_event
  | SyAction rat string string bool
  | SyCloseQueue
  | SyStopMark

text \<open>
  The dispatcher's own events; its \<open>DStore\<close> and \<open>DUnhealthy\<close> stand for the other parts, which are
  here.  \<open>SyAction\<close> is a retry or a cancellation from the administration page.
\<close>

definition own_event :: "dispatch_event \<Rightarrow> bool" where
  "own_event e = (case e of DStore ev \<Rightarrow> False | DUnhealthy \<Rightarrow> False | _ \<Rightarrow> True)"

inductive system_step :: "site \<Rightarrow> system_event \<Rightarrow> system \<Rightarrow> system \<Rightarrow> bool" for si where
  sy_client: "client_event si e s = Some (t, reply) \<Longrightarrow> system_step si (SyClient e) s t"
| sy_line: "client_line si i extra identifier line s = (t, reply) \<Longrightarrow>
    system_step si (SyLine i extra identifier line) s t"
| sy_answer: "answer_client si i s = Some (t, reply) \<Longrightarrow> system_step si (SyAnswer i) s t"
| sy_writer: "writer_step (si_config si) env (sy_queue s) = Some q \<Longrightarrow>
    system_step si (SyWriter env) s (share_queue q s)"
| sy_dispatch: "own_event e \<Longrightarrow> dispatch_step (si_config si) e (sy_dispatcher s) d \<Longrightarrow>
    system_step si (SyDispatch e) s (share_dispatcher d s)"
| sy_action: "act now i action ack (sq_db (sy_queue s)) = Inr d \<Longrightarrow>
    system_step si (SyAction now i action ack) s (share_queue ((sy_queue s)\<lparr>sq_db := d\<rparr>) s)"
| sy_close_queue: "system_step si SyCloseQueue s (share_queue (request_close (sy_queue s)) s)"
| sy_stop_mark: "send_stop (si_config si) (sy_queue s) = Some q \<Longrightarrow>
    system_step si SyStopMark s (share_queue q s)"

inductive_cases system_stepE: "system_step si e s t"

text \<open>At the start nothing waits, and the store has just been opened.\<close>

definition system_start :: "site \<Rightarrow> db \<Rightarrow> system res" where
  "system_start si d = bind_res (dispatcher_start (si_config si) True d) (\<lambda>disp.
     Inr \<lparr>sy_listener = listener_start, sy_tickets = [], sy_queue = queue_start d, sy_dispatcher = disp\<rparr>)"

end
