(* ===== verification/Gw_System_Inv.thy ===== *)
theory Gw_System_Inv
  imports Gw_System
begin

text \<open>
  The invariant of the whole service: each part's own invariant, one shared database, the origin of
  every message in the queue, and what the waiting connections wait for.
\<close>

section \<open>Where mail comes from\<close>

text \<open>
  A message that \<open>prepare_message\<close> made of octets from an allowlisted client, for a valid sender and
  valid, allowed recipients.
\<close>

definition authentic :: "site \<Rightarrow> prepared_message \<Rightarrow> bool" where
  "authentic si m = (\<exists>peer raw rcpts a q x v.
     allowed (si_parse si) (si_networks si) peer \<and> mailbox (si_email si) v True = Inr a
     \<and> rcpts \<noteq> [] \<and> list_all (domain_allowed (si_config si)) rcpts
     \<and> prepare_message (si_email si) raw rcpts a q (si_config si) x = Inr m)"

definition row_of :: "prepared_message \<Rightarrow> row \<Rightarrow> bool" where
  "row_of m r = (m_id r = pm_id m \<and> recipients r = pm_recipients m
     \<and> envelope_sender r = pm_envelope_sender m \<and> mime r \<in> {None, Some (pm_mime m)})"

definition authentic_db :: "site \<Rightarrow> db \<Rightarrow> bool" where
  "authentic_db si d = (\<forall>r \<in> set (messages d). \<exists>m. authentic si m \<and> row_of m r)"

text \<open>What a transaction may do to a row: drop its body, and change everything but its mail.\<close>

definition same_mail :: "row \<Rightarrow> row \<Rightarrow> bool" where
  "same_mail r r1 = (m_id r1 = m_id r \<and> recipients r1 = recipients r
     \<and> envelope_sender r1 = envelope_sender r \<and> mime r1 \<in> {None, mime r})"

lemma row_of_same: "row_of m r \<Longrightarrow> same_mail r r1 \<Longrightarrow> row_of m r1"
  by (auto simp: row_of_def same_mail_def)

lemma same_mail_updates [simp]:
  "same_mail r r" "same_mail r (recover_row now r)" "same_mail r (expire_row now r)"
  "same_mail r (start_row now r)" "same_mail r (finish_row now st er del r)"
  "same_mail r (retry_row now r)" "same_mail r (cancel_row now r)"
  by (simp_all add: same_mail_def recover_row_def expire_row_def start_row_def finish_row_def
      retry_row_def cancel_row_def Let_def)

lemma upd_row_same:
  "(\<And>r. same_mail r (f r)) \<Longrightarrow> r1 \<in> set (upd_row i f rs) \<Longrightarrow> \<exists>r \<in> set rs. same_mail r r1"
  using same_mail_updates(1) by (force simp: set_upd_row split: if_splits)

definition inserts :: "store_event \<Rightarrow> prepared_message list" where
  "inserts e = (case e of EvInsert healthy free now batch \<Rightarrow> batch | _ \<Rightarrow> [])"

lemma admitted_batch: "admit q n b ms = (oks, as) \<Longrightarrow> set as \<subseteq> set ms"
  by (auto dest!: admit_accepted set_zip_rightD)

lemma store_step_rows:
  assumes "store_step cfg e d d1" and "r1 \<in> set (messages d1)"
  shows "(\<exists>r \<in> set (messages d). same_mail r r1) \<or> (\<exists>m \<in> set (inserts e). \<exists>now. r1 = new_row now m)"
  using assms(1)
proof (cases rule: store_stepE)
  case (st_open version now)
  then show ?thesis using assms(2) open_db_Inr(1) [OF st_open(2)] same_mail_updates(2) by fastforce
next
  case (st_insert healthy free now batch vs)
  from st_insert(2) show ?thesis
  proof (cases rule: insert_batch_cases)
    case refused
    then show ?thesis using assms(2) same_mail_updates(1) by blast
  next
    case (stored oks as)
    have "messages d1 = messages d @ map (new_row now) as" using stored(6) by simp
    then have "r1 \<in> set (messages d) \<or> r1 \<in> new_row now ` set batch"
      using assms(2) admitted_batch [OF stored(3)] by auto
    then show ?thesis using same_mail_updates(1) [of r1] st_insert(1)
      by (auto simp: inserts_def simp del: same_mail_updates)
  qed
next
  case (st_claim now res)
  from st_claim(2) show ?thesis
  proof (cases rule: claim_cases)
    case none
    then show ?thesis using assms(2) same_mail_updates(1) by blast
  next
    case (expire r)
    then show ?thesis using assms(2) upd_row_same [of "expire_row now"] by auto
  next
    case (start r)
    then show ?thesis using assms(2) upd_row_same [of "start_row now"] by auto
  qed
next
  case (st_finish now i st err delay cooldown)
  obtain r where "messages d1 = upd_row i (finish_row now st err delay) (messages d)"
    using st_finish(2) by (rule finish_Inr)
  then show ?thesis using assms(2) upd_row_same [of "finish_row now st err delay"] by auto
next
  case (st_act now i action ack)
  from st_act(2) show ?thesis
  proof (cases rule: act_Inr)
    case (retry r)
    then show ?thesis using assms(2) upd_row_same [of "retry_row now"] by auto
  next
    case (cancel r)
    then show ?thesis using assms(2) upd_row_same [of "cancel_row now"] by auto
  qed
next
  case (st_set key v)
  then have "r1 \<in> set (messages d)" using assms(2) by (simp add: set_setting_def)
  then show ?thesis using same_mail_updates(1) by blast
next
  case (st_house now ids)
  then have "r1 \<in> set (messages d)" using assms(2) by (simp add: housekeeping_def)
  then show ?thesis using same_mail_updates(1) by blast
qed

lemma authentic_step:
  assumes "store_step cfg e d d1" "authentic_db si d" "\<forall>m \<in> set (inserts e). authentic si m"
  shows "authentic_db si d1"
  unfolding authentic_db_def
proof
  fix r1
  assume r1: "r1 \<in> set (messages d1)"
  from store_step_rows [OF assms(1) r1] show "\<exists>m. authentic si m \<and> row_of m r1"
  proof
    assume "\<exists>r \<in> set (messages d). same_mail r r1"
    then show ?thesis using assms(2) row_of_same by (meson authentic_db_def)
  next
    assume "\<exists>m \<in> set (inserts e). \<exists>now. r1 = new_row now m"
    then show ?thesis using assms(3) by (auto simp: row_of_def new_row_def)
  qed
qed

section \<open>The submissions in the queue\<close>

definition submissions :: "queue_state \<Rightarrow> submission list" where
  "submissions q = held q @ waiting_items (sq_pending q)"

lemma futures_submissions: "futures q = map fst (sq_outcomes q) @ map sub_future (submissions q)"
  by (simp add: futures_def submissions_def)

lemma submissions_unique:
  assumes "queue_inv q" "x \<in> set (submissions q)" "y \<in> set (submissions q)" "sub_future x = sub_future y"
  shows "x = y"
proof -
  have "distinct (map sub_future (submissions q))"
    using queue_invD(2) [OF assms(1)] by (simp add: futures_submissions)
  then show ?thesis using assms(2-4) by (simp add: distinct_map inj_on_def)
qed

lemma submissions_open:
  assumes "queue_inv q" "x \<in> set (submissions q)"
  shows "sub_future x \<notin> fst ` set (sq_outcomes q)"
  using queue_invD(2) [OF assms(1)] assms(2) by (auto simp: futures_submissions)

text \<open>A step of the writer commits its batch, or moves submissions along.\<close>

lemma writer_cases:
  assumes "queue_inv q" "writer_step cfg env q = Some q1"
  obtains (moves) "sq_db q1 = sq_db q" "sq_outcomes q1 = sq_outcomes q" "submissions q1 = submissions q"
  | (commits) b st where "sq_writer q = Committing b st" "sq_db q1 = sq_db (commit_batch cfg env b q)"
      "sq_outcomes q1 = sq_outcomes (commit_batch cfg env b q)" "submissions q = b @ submissions q1"
proof (cases "sq_writer q")
  case (Committing b st)
  then show ?thesis using assms(2)
    by (intro commits [of b st]) (auto simp: writer_step_def submissions_def held_def)
next
  case Stopped
  then show ?thesis using assms(2) by (simp add: writer_step_def)
next
  case Waiting
  then show ?thesis using assms(2)
    by (intro moves) (auto simp: writer_step_def submissions_def held_def split: list.splits option.splits)
next
  case (Holding x)
  obtain b st r where g: "gather (nat (q_batch_size (cfg_queue cfg)) - 1) (sq_pending q) = (b, st, r)"
    by (cases "gather (nat (q_batch_size (cfg_queue cfg)) - 1) (sq_pending q)") auto
  have "sq_pending q = map Some (waiting_items (sq_pending q)) @ (if sq_stop_sent q then [None] else [])"
    using queue_invD(4) [OF assms(1)] Holding by (simp add: stop_ok_def leaving_def)
  from waiting_gather [OF g this] show ?thesis using assms(2) Holding g
    by (intro moves) (auto simp: writer_step_def submissions_def held_def)
qed

lemma commit_store:
  "sq_db (commit_batch cfg env b q) = sq_db q \<or>
   store_step cfg (EvInsert (sq_healthy q) (je_free env) (je_now env) (map sub_message b))
     (sq_db q) (sq_db (commit_batch cfg env b q))"
proof (cases "insert_job cfg env (sq_healthy q) (map sub_message b) (sq_db q)")
  case (Inr p)
  obtain d vs where p: "p = (d, vs)" by force
  with Inr have "insert_batch cfg (sq_healthy q) (je_free env) (je_now env) (map sub_message b)
      (sq_db q) = Inr (d, vs)"
    by (simp add: insert_job_def split: if_splits)
  from st_insert [OF this] show ?thesis using Inr p by (simp add: commit_batch_def)
qed (simp add: commit_batch_def)

text \<open>What the answer to a future says.\<close>

lemma commit_answers:
  assumes "queue_inv q" "writer_step cfg env q = Some q1" "x \<in> set (submissions q)"
  shows "x \<in> set (submissions q1) \<or>
    (sub_future x \<in> fst ` set (sq_outcomes q1)
     \<and> (\<forall>k. (sub_future x, Acked k) \<in> set (sq_outcomes q1) \<longrightarrow> k = pm_id (sub_message x)))"
  using assms(1,2)
proof (cases rule: writer_cases)
  case moves
  then show ?thesis using assms(3) by simp
next
  case (commits b st)
  have "k = pm_id (sub_message x)" if "x \<in> set b" "(sub_future x, Acked k) \<in> set (sq_outcomes q1)" for k
  proof -
    have "(sub_future x, Acked k) \<notin> set (sq_outcomes q)"
      using submissions_open [OF assms(1,3)] by force
    with that(2) commits(3) obtain y where
      y: "y \<in> set b" "sub_future y = sub_future x" "pm_id (sub_message y) = k"
      using commit_acked [of "sub_future x" k cfg env b q] by auto
    then have "y = x" using commits(4) assms(1,3) by (intro submissions_unique [OF assms(1)]) auto
    then show ?thesis using y(3) by simp
  qed
  moreover have "sub_future x \<in> fst ` set (sq_outcomes q1)" if "x \<in> set b"
    unfolding commits(3) set_map [symmetric] commit_futures using that by simp
  ultimately show ?thesis using assms(3) commits(4) by auto
qed

section \<open>The dispatcher and the database\<close>

text \<open>A step of the dispatcher runs at most one transaction, which inserts nothing.\<close>

definition quiet_step :: "config \<Rightarrow> db \<Rightarrow> db \<Rightarrow> bool" where
  "quiet_step cfg d d1 = (d1 = d \<or> (\<exists>ev. other_job ev \<and> store_step cfg ev d d1))"

lemma quiet_same [simp]: "quiet_step cfg d d"
  by (simp add: quiet_step_def)

lemma quietI:
  "claim cfg now d = Inr (d1, x) \<Longrightarrow> quiet_step cfg d d1"
  "finish now i st er del cd d = Inr d1 \<Longrightarrow> quiet_step cfg d d1"
  "act now i action ack d = Inr d1 \<Longrightarrow> quiet_step cfg d d1"
  "key \<in> set operator_keys \<Longrightarrow> quiet_step cfg d (set_setting key v d)"
  "expired_choice cfg now ids d \<Longrightarrow> quiet_step cfg d (housekeeping cfg now ids d)"
proof -
  have q: "store_step cfg ev d d1 \<Longrightarrow> other_job ev \<Longrightarrow> quiet_step cfg d d1" for ev d1
    by (auto simp: quiet_step_def)
  show "claim cfg now d = Inr (d1, x) \<Longrightarrow> quiet_step cfg d d1" by (rule q [OF st_claim]) (auto simp: other_job_def)
  show "finish now i st er del cd d = Inr d1 \<Longrightarrow> quiet_step cfg d d1"
    by (rule q [OF st_finish]) (auto simp: other_job_def)
  show "act now i action ack d = Inr d1 \<Longrightarrow> quiet_step cfg d d1" by (rule q [OF st_act]) (auto simp: other_job_def)
  show "key \<in> set operator_keys \<Longrightarrow> quiet_step cfg d (set_setting key v d)"
    by (rule q [OF st_set]) (auto simp: other_job_def)
  show "expired_choice cfg now ids d \<Longrightarrow> quiet_step cfg d (housekeeping cfg now ids d)"
    by (rule q [OF st_house]) (auto simp: other_job_def)
qed

lemma quiet_pause [simp]: "quiet_step cfg d (set_setting ''paused'' v d)"
  by (rule quietI(4)) (simp add: operator_keys_def)

lemma quiet_cancel:
  assumes "cancel_worker cfg k runs now s = Some t"
  shows "quiet_step cfg (dp_db s) (dp_db t)"
proof (cases "worker_at k s")
  case Permitted
  then show ?thesis using assms
    by (auto simp: cancel_worker_def Let_def set_worker_def split: if_splits sum.splits intro: quietI(1))
next
  case (Attempting r)
  then show ?thesis using assms by (auto simp: cancel_worker_def Let_def set_worker_def split: if_splits)
next
  case (Reporting r res)
  then show ?thesis using assms
    by (auto simp: cancel_worker_def Let_def set_worker_def split: if_splits sum.splits intro: quietI(2))
qed (use assms in \<open>auto simp: cancel_worker_def Let_def set_worker_def\<close>)

lemma dispatch_quiet:
  assumes "dispatch_step cfg e s t" "own_event e"
  shows "quiet_step cfg (dp_db s) (dp_db t)"
  using assms(1)
proof (cases rule: dispatch_stepE)
  case (ds_enter k now)
  then show ?thesis by (auto simp: enter_def set_worker_def split: if_splits)
next
  case (ds_permit k clock now)
  then show ?thesis by (auto simp: permit_def Let_def set_worker_def split: if_splits)
next
  case (ds_take k now)
  then have "dp_db t = dp_db s \<or> (\<exists>x. claim cfg now (dp_db s) = Inr (dp_db t, x))"
    by (auto simp: take_job_def set_worker_def split: if_splits sum.splits option.splits)
  then show ?thesis using quietI(1) by fastforce
next
  case (ds_conclude k jitter now outcome)
  then show ?thesis
    by (auto simp: conclude_def Let_def set_worker_def pause_def split: worker.splits)
next
  case (ds_report k now)
  then show ?thesis
    by (auto simp: report_def set_worker_def split: worker.splits sum.splits intro: quietI(2))
next
  case (ds_rate r)
  then show ?thesis by (auto simp: set_rate_def operator_keys_def split: if_splits intro!: quietI(4))
next
  case (ds_cancel k runs now)
  then show ?thesis using quiet_cancel by blast
next
  case (ds_fail k)
  then show ?thesis by (auto simp: fail_job_def set_worker_def split: worker.splits)
next
  case ds_wake
  then show ?thesis by (auto simp: keeper_wakes_def split: if_splits)
next
  case (ds_tidy now ids)
  then show ?thesis by (auto simp: tidy_def split: if_splits intro: quietI(5))
next
  case ds_tidy_fails
  then show ?thesis by (auto simp: fail_tidy_def split: if_splits)
next
  case (ds_cancel_keeper runs now ids)
  then show ?thesis
    by (auto simp: cancel_keeper_def Let_def split: keeper.splits if_splits intro: quietI(5))
qed (use assms(2) in \<open>simp_all add: own_event_def pause_def\<close>)

lemma queue_inv_health: "queue_inv q \<Longrightarrow> queue_inv (q\<lparr>sq_healthy := h\<rparr>)"
  using queue_invD [of q] by (intro queue_invI) (simp_all add: futures_def held_def stop_ok_def)

lemma quiet_queue_inv:
  assumes "queue_inv q" "quiet_step cfg (sq_db q) d"
  shows "queue_inv (q\<lparr>sq_db := d, sq_healthy := h\<rparr>)"
proof -
  have "queue_inv (q\<lparr>sq_db := d\<rparr>)"
    using assms queue_step_inv [OF assms(1) qs_other] by (auto simp: quiet_step_def)
  then show ?thesis by (rule queue_inv_health)
qed

lemma quiet_authentic:
  assumes "quiet_step cfg d d1" "authentic_db si d"
  shows "authentic_db si d1"
  using assms(1) unfolding quiet_step_def
proof (elim disjE exE conjE)
  fix ev
  assume "other_job ev" "store_step cfg ev d d1"
  moreover from this have "inserts ev = []" by (simp add: other_job_def inserts_def split: store_event.splits)
  ultimately show ?thesis using authentic_step assms(2) by fastforce
qed (use assms(2) in simp)

end
