(* ===== verification/Gw_System_Claims.thy ===== *)
theory Gw_System_Claims
  imports Gw_System_Inv Gw_Message_Policy Gw_Backend_Props
begin

text \<open>
  The guarantees that span the service: only authorised mail leaves it, as it came in, and what a
  client is told about its message is true.
\<close>

section \<open>Connections\<close>

definition others_same :: "nat \<Rightarrow> listener \<Rightarrow> listener \<Rightarrow> bool" where
  "others_same j sv sv1 = (\<forall>i. i \<noteq> j \<longrightarrow>
     map_of (sv_connections sv1) i = map_of (sv_connections sv) i)"

lemma others_same_updates [simp]:
  "others_same j sv sv" "others_same j sv (drop_connection j sv)"
  "sv_connections sv1 = sv_connections sv \<Longrightarrow> others_same j sv (set_connection j c sv1)"
  "sv_connections sv1 = sv_connections sv \<Longrightarrow> others_same j sv (end_data j c d sv1)"
  by (auto simp: others_same_def drop_connection_def set_connection_def end_data_def update_conv'
      delete_conv' split: option.split)

lemma others_same_submission: "others_same j sv sv1 \<Longrightarrow> i \<noteq> j \<Longrightarrow> submission_at i sv1 = submission_at i sv"
  by (simp add: others_same_def submission_at_def)

lemma listen_line_other: "others_same j sv (fst (listen si (Line j av extra q line) sv))"
  by (auto simp: listen_def serve_command_def serve_data_def split: option.split phase.split step.split
      sum.split prod.split)

lemma listen_submitted_other: "others_same j sv (fst (listen si (event.Submitted j queued) sv))"
  by (auto simp: listen_def serve_submitted_def split: option.split phase.split)

lemma listen_line_waiting:
  "submission_at i sv = Some m \<Longrightarrow> fst (listen si (Line i av extra q line) sv) = sv"
  by (auto simp: listen_def submission_at_def split: option.splits phase.splits)

lemma listen_client:
  "submission_at i (fst (listen si (Connect j peer) sv)) = submission_at i sv"
  "i \<noteq> j \<Longrightarrow> submission_at i (fst (listen si (Lost j) sv)) = submission_at i sv"
  "i \<noteq> j \<Longrightarrow> submission_at i (fst (listen si (Expired j) sv)) = submission_at i sv"
  "submission_at i (fst (listen si Shutdown sv)) = submission_at i sv"
proof -
  show "submission_at i (fst (listen si (Connect j peer) sv)) = submission_at i sv"
    by (auto simp: listen_def admit_connection_def submission_at_def set_connection_def update_conv'
        split: option.splits)
  show "i \<noteq> j \<Longrightarrow> submission_at i (fst (listen si (Lost j) sv)) = submission_at i sv"
    by (rule others_same_submission) (simp_all add: listen_def)
  show "i \<noteq> j \<Longrightarrow> submission_at i (fst (listen si (Expired j) sv)) = submission_at i sv"
    by (rule others_same_submission) (simp_all add: listen_def)
  show "submission_at i (fst (listen si Shutdown sv)) = submission_at i sv"
    by (simp add: listen_def submission_at_def)
qed

abbreviation listening :: "site \<Rightarrow> listener \<Rightarrow> bool" where
  "listening si \<equiv> listener_ok (si_email si) (si_config si) (si_parse si) (si_networks si)"

lemma listen_ok: "listening si sv \<Longrightarrow> listening si (fst (listen si e sv))"
  unfolding listen_def by (rule serve_ok)

lemma submission_atE:
  assumes "listening si sv" "submission_at i sv = Some m"
  obtains c d q x where "map_of (sv_connections sv) i = Some c" "co_phase c = Submitting d q x m"
    "prepare_message (si_email si) (ds_content d) (ss_recipients (co_session c))
       (the (ss_sender (co_session c))) q (si_config si) x = Inr m"
    "connection_ok (si_email si) (si_config si) (si_parse si) (si_networks si) c"
proof -
  obtain c d q x where c: "map_of (sv_connections sv) i = Some c" "co_phase c = Submitting d q x m"
    using assms(2) by (auto simp: submission_at_def split: option.splits phase.splits)
  have ok: "connection_ok (si_email si) (si_config si) (si_parse si) (si_networks si) c"
    by (rule listener_okD [OF assms(1) c(1)])
  show ?thesis using that [OF c _ ok] connection_okD(6) [OF ok c(2)] by blast
qed

lemma submission_authentic:
  assumes "listening si sv" "submission_at i sv = Some m"
  shows "authentic si m"
  using assms
proof (rule submission_atE)
  fix c d q x
  assume c: "co_phase c = Submitting d q x m"
    "prepare_message (si_email si) (ds_content d) (ss_recipients (co_session c))
       (the (ss_sender (co_session c))) q (si_config si) x = Inr m"
    "connection_ok (si_email si) (si_config si) (si_parse si) (si_networks si) c"
  note ok = connection_okD [OF c(3)]
  obtain a where a: "ss_sender (co_session c) = Some a" "ss_recipients (co_session c) \<noteq> []"
    using ok(3) c(1) by auto
  obtain v where v: "mailbox (si_email si) v True = Inr a" using ok(2) a(1) by (auto simp: session_ok_def)
  have "list_all (domain_allowed (si_config si)) (ss_recipients (co_session c))"
    using ok(2) by (simp add: session_ok_def list_all_iff)
  moreover have "prepare_message (si_email si) (ds_content d) (ss_recipients (co_session c)) a q (si_config si) x
      = Inr m" using c(2) a(1) by simp
  ultimately show ?thesis unfolding authentic_def using ok(1) v a(2) by blast
qed

section \<open>The invariant of the service\<close>

definition ticket_ok :: "system \<Rightarrow> nat \<Rightarrow> nat \<Rightarrow> bool" where
  "ticket_ok s i f = (\<exists>m. submission_at i (sy_listener s) = Some m \<and>
     ((\<exists>y \<in> set (submissions (sy_queue s)). sub_future y = f \<and> sub_message y = m) \<or>
      (f \<in> fst ` set (sq_outcomes (sy_queue s)) \<and>
       (\<forall>k. (f, Acked k) \<in> set (sq_outcomes (sy_queue s)) \<longrightarrow> k = pm_id m))))"

definition mail_ok :: "site \<Rightarrow> system \<Rightarrow> bool" where
  "mail_ok si s = (authentic_db si (sq_db (sy_queue s))
     \<and> (\<forall>y \<in> set (submissions (sy_queue s)). authentic si (sub_message y)))"

definition system_inv :: "site \<Rightarrow> system \<Rightarrow> bool" where
  "system_inv si s = (listening si (sy_listener s) \<and> queue_inv (sy_queue s) \<and> dispatch_inv (sy_dispatcher s)
     \<and> dp_db (sy_dispatcher s) = sq_db (sy_queue s) \<and> dp_healthy (sy_dispatcher s) = sq_healthy (sy_queue s)
     \<and> mail_ok si s \<and> (\<forall>(i, f) \<in> set (sy_tickets s). ticket_ok s i f))"

lemma system_invD:
  assumes "system_inv si s"
  shows "listening si (sy_listener s)" "queue_inv (sy_queue s)" "dispatch_inv (sy_dispatcher s)"
    "dp_db (sy_dispatcher s) = sq_db (sy_queue s)" "mail_ok si s"
    "\<And>i f. (i, f) \<in> set (sy_tickets s) \<Longrightarrow> ticket_ok s i f"
  using assms by (auto simp: system_inv_def)

lemma dispatch_inv_health: "dispatch_inv d \<Longrightarrow> dispatch_inv (d\<lparr>dp_healthy := h\<rparr>)"
  by (rule inv_fields) simp_all

text \<open>A step that leaves the queue alone.\<close>

lemma inv_listener:
  assumes "system_inv si s" "listening si sv"
    "\<And>i f. (i, f) \<in> set ts \<Longrightarrow> (i, f) \<in> set (sy_tickets s) \<and> submission_at i sv = submission_at i (sy_listener s)"
  shows "system_inv si (s\<lparr>sy_listener := sv, sy_tickets := ts\<rparr>)"
proof -
  have "ticket_ok (s\<lparr>sy_listener := sv, sy_tickets := ts\<rparr>) i f" if "(i, f) \<in> set ts" for i f
    using system_invD(6) [OF assms(1), of i f] assms(3) [OF that] by (simp add: ticket_ok_def)
  then show ?thesis using assms(1,2) by (auto simp: system_inv_def mail_ok_def)
qed

lemma inv_listener_only:
  assumes "system_inv si s" "listening si sv"
    "\<And>i f. (i, f) \<in> set (sy_tickets s) \<Longrightarrow> submission_at i sv = submission_at i (sy_listener s)"
  shows "system_inv si (s\<lparr>sy_listener := sv\<rparr>)"
proof -
  have "s\<lparr>sy_listener := sv\<rparr> = s\<lparr>sy_listener := sv, sy_tickets := sy_tickets s\<rparr>" by simp
  then show ?thesis using inv_listener [OF assms(1,2), of "sy_tickets s"] assms(3) by simp
qed

lemma inv_client:
  assumes "system_inv si s" "client_event si e s = Some (t, reply)"
  shows "system_inv si t"
proof -
  have ok: "listening si (fst (listen si e (sy_listener s)))"
    by (rule listen_ok [OF system_invD(1) [OF assms(1)]])
  have inv: "system_inv si (s\<lparr>sy_listener := fst (listen si e (sy_listener s)), sy_tickets := ts\<rparr>)"
    if "\<And>i f. (i, f) \<in> set ts \<Longrightarrow> (i, f) \<in> set (sy_tickets s) \<and>
      submission_at i (fst (listen si e (sy_listener s))) = submission_at i (sy_listener s)" for ts
    by (rule inv_listener [OF assms(1) ok that])
  have t: "t = s\<lparr>sy_listener := fst (listen si e (sy_listener s)), sy_tickets :=
      (case e of Lost i \<Rightarrow> AList.delete i (sy_tickets s) | Expired i \<Rightarrow> AList.delete i (sy_tickets s)
       | _ \<Rightarrow> sy_tickets s)\<rparr>"
    using assms(2) by (auto simp: client_event_def Let_def split: prod.splits event.splits)
  show ?thesis unfolding t
    by (rule inv) (use assms(2) listen_client in
      \<open>auto simp: client_event_def Let_def set_delete split: event.splits prod.splits\<close>)
qed

text \<open>A step of the queue or of a job on its database.\<close>

lemma inv_queue:
  assumes "system_inv si s" "queue_inv q" "dispatch_inv ((sy_dispatcher s)\<lparr>dp_db := sq_db q\<rparr>)"
    "authentic_db si (sq_db q)" "\<forall>y \<in> set (submissions q). authentic si (sub_message y)"
    "\<And>i f. (i, f) \<in> set (sy_tickets s) \<Longrightarrow> ticket_ok (s\<lparr>sy_queue := q\<rparr>) i f"
  shows "system_inv si (share_queue q s)"
  using assms dispatch_inv_health [OF assms(3), of "sq_healthy q"]
  by (auto simp: system_inv_def share_queue_def mail_ok_def ticket_ok_def)

lemma ticket_same:
  "ticket_ok s i f \<Longrightarrow> submissions q = submissions (sy_queue s) \<Longrightarrow> sq_outcomes q = sq_outcomes (sy_queue s) \<Longrightarrow>
     ticket_ok (s\<lparr>sy_queue := q\<rparr>) i f"
  by (simp add: ticket_ok_def)

lemma writer_outcomes:
  assumes "queue_inv q" "writer_step cfg env q = Some q1"
  shows "\<exists>os. sq_outcomes q1 = sq_outcomes q @ os"
  using assms by (rule writer_cases) (auto simp: commit_batch_def split: sum.splits prod.splits)

lemma inv_writer:
  assumes "system_inv si s" "writer_step (si_config si) env (sy_queue s) = Some q"
  shows "system_inv si (share_queue q s)"
proof -
  note i = system_invD [OF assms(1)]
  have q: "queue_inv q" by (rule queue_step_inv [OF i(2) qs_writer [OF assms(2)]])
  have sub: "set (submissions q) \<subseteq> set (submissions (sy_queue s))"
    using i(2) assms(2) by (rule writer_cases) auto
  then have y: "\<forall>y \<in> set (submissions q). authentic si (sub_message y)"
    using i(5) by (auto simp: mail_ok_def)
  have db: "sq_db q = sq_db (sy_queue s) \<or> (\<exists>ev. store_step (si_config si) ev (sq_db (sy_queue s)) (sq_db q)
      \<and> calm ev \<and> (\<forall>m \<in> set (inserts ev). authentic si m))"
    using i(2) assms(2)
  proof (rule writer_cases)
    fix b st
    assume c: "sq_db q = sq_db (commit_batch (si_config si) env b (sy_queue s))"
      and b: "submissions (sy_queue s) = b @ submissions q"
    let ?ev = "EvInsert (sq_healthy (sy_queue s)) (je_free env) (je_now env) (map sub_message b)"
    have "\<forall>m \<in> set (inserts ?ev). authentic si m" using i(5) by (auto simp: mail_ok_def inserts_def b)
    moreover have "calm ?ev" by (simp add: calm_def)
    moreover have "sq_db q = sq_db (sy_queue s) \<or> store_step (si_config si) ?ev (sq_db (sy_queue s)) (sq_db q)"
      unfolding c by (rule commit_store)
    ultimately show ?thesis by blast
  qed simp
  have "authentic_db si (sq_db (sy_queue s))" using i(5) by (simp add: mail_ok_def)
  then have a: "authentic_db si (sq_db q)" using db authentic_step by (elim disjE exE conjE) simp_all
  have d: "dispatch_inv ((sy_dispatcher s)\<lparr>dp_db := sq_db q\<rparr>)"
    using db
  proof
    assume "sq_db q = sq_db (sy_queue s)"
    then show ?thesis using i(4) by (intro inv_fields [OF i(3)]) simp_all
  next
    assume "\<exists>ev. store_step (si_config si) ev (sq_db (sy_queue s)) (sq_db q) \<and> calm ev
        \<and> (\<forall>m \<in> set (inserts ev). authentic si m)"
    then show ?thesis using dispatch_step_inv [OF i(3) ds_store] i(4) by auto
  qed
  have "ticket_ok (s\<lparr>sy_queue := q\<rparr>) i f" if tk: "(i, f) \<in> set (sy_tickets s)" for i f
  proof -
    obtain m where m: "submission_at i (sy_listener s) = Some m" and
      f: "(\<exists>y \<in> set (submissions (sy_queue s)). sub_future y = f \<and> sub_message y = m) \<or>
        (f \<in> fst ` set (sq_outcomes (sy_queue s)) \<and>
         (\<forall>k. (f, Acked k) \<in> set (sq_outcomes (sy_queue s)) \<longrightarrow> k = pm_id m))"
      using i(6) [OF tk] unfolding ticket_ok_def by blast
    have "(\<exists>y \<in> set (submissions q). sub_future y = f \<and> sub_message y = m) \<or>
        (f \<in> fst ` set (sq_outcomes q) \<and> (\<forall>k. (f, Acked k) \<in> set (sq_outcomes q) \<longrightarrow> k = pm_id m))"
      using f
    proof
      assume "\<exists>y \<in> set (submissions (sy_queue s)). sub_future y = f \<and> sub_message y = m"
      then obtain y where "y \<in> set (submissions (sy_queue s))" "sub_future y = f" "sub_message y = m" by blast
      then show ?thesis using commit_answers [OF i(2) assms(2), of y] by blast
    next
      assume r: "f \<in> fst ` set (sq_outcomes (sy_queue s)) \<and>
         (\<forall>k. (f, Acked k) \<in> set (sq_outcomes (sy_queue s)) \<longrightarrow> k = pm_id m)"
      obtain os where os: "sq_outcomes q = sq_outcomes (sy_queue s) @ os"
        using writer_outcomes [OF i(2) assms(2)] by blast
      have "f \<notin> fst ` set os" using queue_invD(2) [OF q] r by (auto simp: futures_submissions os)
      then have "(f, Acked k) \<in> set (sq_outcomes q) \<Longrightarrow> (f, Acked k) \<in> set (sq_outcomes (sy_queue s))" for k
        by (force simp: os)
      then show ?thesis using r by (auto simp: os)
    qed
    with m show ?thesis by (simp add: ticket_ok_def)
  qed
  then show ?thesis by (intro inv_queue [OF assms(1) q d a y])
qed

text \<open>A transaction of the dispatcher or the operator.\<close>

lemma inv_dispatch:
  assumes "system_inv si s" "own_event e" "dispatch_step (si_config si) e (sy_dispatcher s) d"
  shows "system_inv si (share_dispatcher d s)"
proof -
  note i = system_invD [OF assms(1)]
  have q: "quiet_step (si_config si) (sq_db (sy_queue s)) (dp_db d)"
    using dispatch_quiet [OF assms(3,2)] i(4) by simp
  show ?thesis
    using i dispatch_step_inv [OF i(3) assms(3)] quiet_queue_inv [OF i(2) q] quiet_authentic [OF q]
    by (auto simp: system_inv_def share_dispatcher_def mail_ok_def ticket_ok_def submissions_def held_def)
qed

lemma inv_action:
  assumes "system_inv si s" "act now i action ack (sq_db (sy_queue s)) = Inr d"
  shows "system_inv si (share_queue ((sy_queue s)\<lparr>sq_db := d\<rparr>) s)"
proof -
  note j = system_invD [OF assms(1)]
  have q: "quiet_step (si_config si) (sq_db (sy_queue s)) d" by (rule quietI(3) [OF assms(2)])
  have "store_step (si_config si) (EvAct now i action ack) (sq_db (sy_queue s)) d" by (rule st_act [OF assms(2)])
  then have "dispatch_inv ((sy_dispatcher s)\<lparr>dp_db := d\<rparr>)"
    using dispatch_step_inv [OF j(3) ds_store [of "EvAct now i action ack"]] j(4) by (simp add: calm_def)
  moreover have "queue_inv ((sy_queue s)\<lparr>sq_db := d\<rparr>)"
    using quiet_queue_inv [OF j(2) q, of "sq_healthy (sy_queue s)"] by simp
  ultimately show ?thesis using j quiet_authentic [OF q]
    by (intro inv_queue [OF assms(1)])
      (auto simp: mail_ok_def submissions_def held_def intro!: ticket_same [OF j(6)])
qed

lemma inv_same_db:
  assumes "system_inv si s" "queue_inv q" "sq_db q = sq_db (sy_queue s)"
    "submissions q = submissions (sy_queue s)" "sq_outcomes q = sq_outcomes (sy_queue s)"
  shows "system_inv si (share_queue q s)"
proof -
  note i = system_invD [OF assms(1)]
  have "dispatch_inv ((sy_dispatcher s)\<lparr>dp_db := sq_db q\<rparr>)"
    by (rule inv_fields [OF i(3)]) (simp_all add: i(4) assms(3))
  then show ?thesis using i assms(2-5)
    by (intro inv_queue [OF assms(1)]) (auto simp: mail_ok_def intro!: ticket_same [OF i(6)])
qed

lemma inv_close_queue:
  assumes "system_inv si s"
  shows "system_inv si (share_queue (request_close (sy_queue s)) s)"
  using queue_step_inv [OF system_invD(2) [OF assms] qs_close]
  by (intro inv_same_db [OF assms]) (simp_all add: request_close_def submissions_def held_def)

lemma inv_stop_mark:
  assumes "system_inv si s" "send_stop (si_config si) (sy_queue s) = Some q"
  shows "system_inv si (share_queue q s)"
  using queue_step_inv [OF system_invD(2) [OF assms(1)] qs_stop [OF assms(2)]] assms(2)
  by (intro inv_same_db [OF assms(1)])
    (auto simp: send_stop_def submissions_def held_def split: if_splits)

text \<open>The steps that join the listener and the queue.\<close>

lemma inv_answer:
  assumes "system_inv si s" "answer_client si i s = Some (t, reply)"
  shows "system_inv si t"
proof -
  have "\<exists>r. t = s\<lparr>sy_listener := fst (listen si (event.Submitted i (acked r)) (sy_listener s)),
      sy_tickets := AList.delete i (sy_tickets s)\<rparr>"
    using assms(2) by (auto simp: answer_client_def Let_def split: option.splits prod.splits)
      (metis fst_conv)
  then obtain r where t: "t = s\<lparr>sy_listener := fst (listen si (event.Submitted i (acked r)) (sy_listener s)),
      sy_tickets := AList.delete i (sy_tickets s)\<rparr>" ..
  show ?thesis unfolding t
    by (rule inv_listener [OF assms(1) listen_ok [OF system_invD(1) [OF assms(1)]]])
      (auto simp: set_delete others_same_submission [OF listen_submitted_other])
qed

lemma inv_line:
  assumes "system_inv si s" "client_line si i extra identifier line s = (t, reply)"
  shows "system_inv si t"
proof -
  note j = system_invD [OF assms(1)]
  let ?e = "Line i (sq_accepting (sy_queue s) \<and> sq_healthy (sy_queue s)) extra identifier line"
  obtain sv r0 where l: "listen si ?e (sy_listener s) = (sv, r0)" by force
  then have sv_def: "sv = fst (listen si ?e (sy_listener s))" by simp
  let ?new = "if submission_at i (sy_listener s) = None then submission_at i sv else None"
  have step: "(case ?new of None \<Rightarrow> (s\<lparr>sy_listener := sv\<rparr>, r0)
     | Some m \<Rightarrow> (case submit (si_config si) m (sy_queue s) of
          Inl e \<Rightarrow> (let (sv1, reply1) = listen si (event.Submitted i False) sv
                    in (s\<lparr>sy_listener := sv1\<rparr>, reply1))
        | Inr (q, f) \<Rightarrow>
            (share_queue q s\<lparr>sy_listener := sv, sy_tickets := (i, f) # sy_tickets s\<rparr>, r0))) = (t, reply)"
    using assms(2) unfolding client_line_def Let_def l prod.case .
  have ok: "listening si sv" unfolding sv_def by (rule listen_ok [OF j(1)])
  have other: "submission_at k sv = submission_at k (sy_listener s)" if "k \<noteq> i" for k
    unfolding sv_def by (rule others_same_submission [OF listen_line_other that])
  have own: "submission_at i (sy_listener s) = Some m \<Longrightarrow> sv = sy_listener s" for m
    unfolding sv_def by (rule listen_line_waiting)
  have none: "submission_at i (sy_listener s) \<noteq> None" if "(i, f) \<in> set (sy_tickets s)" for f
    using j(6) [OF that] by (auto simp: ticket_ok_def)
  show ?thesis
  proof (cases ?new)
    case None
    then have "t = s\<lparr>sy_listener := sv\<rparr>" using step None by simp
    moreover have "submission_at k sv = submission_at k (sy_listener s)" if tk: "(k, f) \<in> set (sy_tickets s)" for k f
    proof (cases "k = i")
      case True
      then obtain m where "submission_at i (sy_listener s) = Some m" using none [of f] tk True by auto
      then show ?thesis using own True by simp
    qed (rule other)
    ultimately show ?thesis using inv_listener_only [OF assms(1) ok] by simp
  next
    case (Some m)
    then have m: "submission_at i (sy_listener s) = None" "submission_at i sv = Some m"
      by (auto split: if_splits)
    then have ne: "k \<noteq> i" if "(k, f) \<in> set (sy_tickets s)" for k f using none that by auto
    show ?thesis
    proof (cases "submit (si_config si) m (sy_queue s)")
      case (Inl e)
      let ?sv1 = "fst (listen si (event.Submitted i False) sv)"
      have "t = s\<lparr>sy_listener := ?sv1\<rparr>" using step Some Inl by (simp add: split_beta)
      moreover have "submission_at k ?sv1 = submission_at k (sy_listener s)" if "(k, f) \<in> set (sy_tickets s)" for k f
        using others_same_submission [OF listen_submitted_other ne [OF that]] other [OF ne [OF that]] by simp
      ultimately show ?thesis using inv_listener_only [OF assms(1) listen_ok [OF ok]] by simp
    next
      case (Inr p)
      obtain q f where p: "p = (q, f)" by force
      have t: "t = share_queue q s\<lparr>sy_listener := sv, sy_tickets := (i, f) # sy_tickets s\<rparr>"
        using step Some Inr p by simp
      have sb: "submit (si_config si) m (sy_queue s) = Inr (q, f)" using Inr p by simp
      note q = submit_Inr [OF sb]
      have same: "submissions q = submissions (sy_queue s) @ [\<lparr>sub_future = f, sub_message = m\<rparr>]"
        "sq_outcomes q = sq_outcomes (sy_queue s)" "sq_db q = sq_db (sy_queue s)"
        by (simp_all add: q(4,5) submissions_def held_def)
      have "dispatch_inv ((sy_dispatcher s)\<lparr>dp_db := sq_db q, dp_healthy := sq_healthy q\<rparr>)"
        by (rule inv_fields [OF j(3)]) (simp_all add: j(4) same)
      moreover have "ticket_ok t k g" if "(k, g) \<in> set (sy_tickets s)" for k g
        using j(6) [OF that] other [OF ne [OF that]]
        by (auto simp: ticket_ok_def t share_queue_def same)
      moreover have "ticket_ok t i f" using m(2) by (simp add: ticket_ok_def t share_queue_def same)
      ultimately show ?thesis
        using ok submit_inv [OF j(2) sb] j(5) submission_authentic [OF ok m(2)]
        by (auto simp: system_inv_def t share_queue_def mail_ok_def same)
    qed
  qed
qed

lemma system_step_inv:
  assumes "system_inv si s" "system_step si e s t"
  shows "system_inv si t"
  using assms(2)
proof cases
  case (sy_client e reply) then show ?thesis using inv_client [OF assms(1)] by blast
next
  case (sy_line i extra u line reply) then show ?thesis using inv_line [OF assms(1)] by blast
next
  case (sy_answer i reply) then show ?thesis using inv_answer [OF assms(1)] by blast
next
  case (sy_writer env q) then show ?thesis using inv_writer [OF assms(1)] by blast
next
  case (sy_dispatch e d) then show ?thesis using inv_dispatch [OF assms(1)] by blast
next
  case (sy_action now i action ack d) then show ?thesis using inv_action [OF assms(1)] by blast
next
  case sy_close_queue then show ?thesis using inv_close_queue [OF assms(1)] by blast
next
  case (sy_stop_mark q) then show ?thesis using inv_stop_mark [OF assms(1)] by blast
qed

definition system_init :: "site \<Rightarrow> system \<Rightarrow> bool" where
  "system_init si s = (\<exists>d. store_inv d \<and> authentic_db si d \<and> system_start si d = Inr s)"

lemma system_start_inv:
  assumes "store_inv d" "authentic_db si d" "system_start si d = Inr s"
  shows "system_inv si s"
proof -
  obtain disp where d: "dispatcher_start (si_config si) True d = Inr disp"
    "s = \<lparr>sy_listener = listener_start, sy_tickets = [], sy_queue = queue_start d, sy_dispatcher = disp\<rparr>"
    using assms(3) by (auto simp: system_start_def bind_res_Inr)
  have "dispatch_inv disp" using dispatch_sys.init_inv assms(1) d(1) by (auto simp: dispatch_init_def)
  moreover have "queue_inv (queue_start d)" using queue_sys.init_inv assms(1) by (auto simp: queue_init_def)
  moreover have "dp_db disp = d" "dp_healthy disp" using d(1) by (auto simp: dispatcher_start_def bind_res_Inr)
  ultimately show ?thesis using assms(2)
    by (simp add: system_inv_def d(2) mail_ok_def queue_start_def submissions_def held_def)
qed

interpretation whole: inv_system "system_init si" "system_step si" "system_inv si" for si
proof unfold_locales
  show "system_inv si s" if "system_init si s" for s
    using that system_start_inv by (auto simp: system_init_def)
  show "system_inv si t" if "system_inv si s" "system_step si e s t" for s e t
    using system_step_inv that by blast
qed

section \<open>A run\<close>

text \<open>A client connects and sends a message, the writer commits it, a worker takes it.\<close>

definition demo_site :: site where
  "demo_site = \<lparr>si_email = plain_lib, si_config = policy_cfg, si_parse = (\<lambda>_. Some (V4 1)),
     si_networks = [Net4 1 32]\<rparr>"

definition demo_lines :: "bytes list" where
  "demo_lines = [''EHLO c'' @ [CR, LF], ''MAIL FROM:<>'' @ [CR, LF], ''RCPT TO:<a@b.c>'' @ [CR, LF],
     ''DATA'' @ [CR, LF], ''From: GW@x.y'' @ [CR, LF], ''To: a@b.c'' @ [CR, LF], [CR, LF],
     ''hi'' @ [CR, LF], data_end]"

definition demo_system :: system where
  "demo_system = projr (system_start demo_site (projr (open_db policy_cfg 0 0 empty_db)))"

definition demo_connected :: system where
  "demo_connected = fst (the (client_event demo_site (Connect 1 (Some ''h'')) demo_system))"

definition demo_waiting :: system where
  "demo_waiting = fold (\<lambda>l s. fst (client_line demo_site 1 [] ''q1'' l s)) demo_lines demo_connected"

definition write_once :: "system \<Rightarrow> system" where
  "write_once s = share_queue (the (writer_step policy_cfg demo_env (sy_queue s))) s"

definition work_once :: "(dispatcher \<Rightarrow> dispatcher option) \<Rightarrow> system \<Rightarrow> system" where
  "work_once f s = share_dispatcher (the (f (sy_dispatcher s))) s"

definition demo_holding :: system where "demo_holding = write_once demo_waiting"
definition demo_writing :: system where "demo_writing = write_once demo_holding"
definition demo_answered :: system where "demo_answered = write_once demo_writing"
definition demo_entered :: system where "demo_entered = work_once (enter 0 1) demo_answered"
definition demo_allowed :: system where "demo_allowed = work_once (permit 0 1 1) demo_entered"
definition demo_sending :: system where "demo_sending = work_once (take_job policy_cfg 0 1) demo_allowed"

abbreviation demo_reached :: "system \<Rightarrow> bool" where
  "demo_reached \<equiv> reach (system_init demo_site) (system_step demo_site)"

lemma demo_line_reached: "demo_reached s \<Longrightarrow> demo_reached (fst (client_line demo_site i x q l s))"
  by (erule reach_step) (rule sy_line [OF surjective_pairing])

lemma demo_lines_reached:
  "demo_reached s \<Longrightarrow> demo_reached (fold (\<lambda>l s. fst (client_line demo_site i x q l s)) ls s)"
  by (induction ls arbitrary: s) (simp_all add: demo_line_reached)

lemma demo_write_reached:
  "demo_reached s \<Longrightarrow> writer_step policy_cfg demo_env (sy_queue s) \<noteq> None \<Longrightarrow> demo_reached (write_once s)"
  unfolding write_once_def
  by (erule reach_step) (auto intro!: sy_writer [where env = demo_env] simp: demo_site_def)

lemma demo_work_reached:
  "demo_reached s \<Longrightarrow> own_event e \<Longrightarrow> dispatch_step policy_cfg e (sy_dispatcher s) d \<Longrightarrow>
     demo_reached (share_dispatcher d s)"
  by (erule reach_step) (rule sy_dispatch, simp_all add: demo_site_def)

lemma demo_started: "demo_reached demo_system"
proof -
  have o: "open_db policy_cfg 0 0 empty_db = Inr (projr (open_db policy_cfg 0 0 empty_db))" by code_simp
  have "system_start demo_site (projr (open_db policy_cfg 0 0 empty_db)) = Inr demo_system"
    unfolding demo_system_def by code_simp
  moreover have "store_inv (projr (open_db policy_cfg 0 0 empty_db))" by (rule open_inv [OF file_ok_empty o])
  moreover have "messages (projr (open_db policy_cfg 0 0 empty_db)) = []" by code_simp
  ultimately show ?thesis by (intro reach_init) (auto simp: system_init_def authentic_db_def)
qed

lemma demo_waiting_reached: "demo_reached demo_waiting"
proof -
  have "client_event demo_site (Connect 1 (Some ''h'')) demo_system \<noteq> None" by code_simp
  then obtain reply where "client_event demo_site (Connect 1 (Some ''h'')) demo_system = Some (demo_connected, reply)"
    unfolding demo_connected_def by (cases "client_event demo_site (Connect 1 (Some ''h'')) demo_system") auto
  from sy_client [OF this] have "demo_reached demo_connected" using demo_started reach_step by metis
  then show ?thesis unfolding demo_waiting_def by (rule demo_lines_reached)
qed

lemma demo_answered_reached: "demo_reached demo_answered"
proof -
  have "writer_step policy_cfg demo_env (sy_queue demo_waiting) \<noteq> None"
    "writer_step policy_cfg demo_env (sy_queue demo_holding) \<noteq> None"
    "writer_step policy_cfg demo_env (sy_queue demo_writing) \<noteq> None"
    by code_simp+
  then show ?thesis
    unfolding demo_answered_def demo_writing_def demo_holding_def
    by (intro demo_write_reached demo_waiting_reached)
qed

lemma demo_sending_reached: "demo_reached demo_sending"
proof -
  have f: "enter 0 1 (sy_dispatcher demo_answered) \<noteq> None" "permit 0 1 1 (sy_dispatcher demo_entered) \<noteq> None"
    "take_job policy_cfg 0 1 (sy_dispatcher demo_allowed) \<noteq> None"
    by code_simp+
  have "demo_reached demo_entered" using f(1) unfolding demo_entered_def work_once_def
    by (intro demo_work_reached [OF demo_answered_reached, of "DEnter 0 1"])
      (auto simp: own_event_def intro: ds_enter)
  then have "demo_reached demo_allowed" using f(2) unfolding demo_allowed_def work_once_def
    by (intro demo_work_reached [of demo_entered "DPermit 0 1 1"]) (auto simp: own_event_def intro: ds_permit)
  then show ?thesis using f(3) unfolding demo_sending_def work_once_def
    by (intro demo_work_reached [of demo_allowed "DTake 0 1"]) (auto simp: own_event_def intro: ds_take)
qed

section \<open>What leaves the service\<close>

lemma waiting_outcome:
  assumes "system_inv si s" "(i, f) \<in> set (sy_tickets s)" "system_step si e s t"
    and "(f, Acked k) \<in> set (sq_outcomes (sy_queue t))" "(f, Acked k) \<notin> set (sq_outcomes (sy_queue s))"
  shows "\<exists>m r. submission_at i (sy_listener s) = Some m \<and> k = pm_id m
     \<and> find_row k (messages (sq_db (sy_queue t))) = Some r \<and> status r = Queued
     \<and> mime r = Some (pm_mime m) \<and> recipients r = pm_recipients m"
proof -
  note j = system_invD [OF assms(1)]
  have new: "\<exists>env q. writer_step (si_config si) env (sy_queue s) = Some q \<and> sy_queue t = q"
    using assms(3)
  proof cases
    case (sy_writer env q)
    then show ?thesis by (auto simp: share_queue_def)
  next
    case (sy_line c extra u line reply)
    then have "sq_outcomes (sy_queue t) = sq_outcomes (sy_queue s)"
      using submit_Inr(5)
      by (fastforce simp: client_line_def Let_def share_queue_def split: prod.splits option.splits sum.splits)
    then show ?thesis using assms(4,5) by simp
  qed (use assms(4,5) in \<open>auto simp: client_event_def answer_client_def share_queue_def share_dispatcher_def
      request_close_def send_stop_def Let_def split: prod.splits option.splits event.splits if_splits\<close>)
  then obtain env q where q: "writer_step (si_config si) env (sy_queue s) = Some q" "sy_queue t = q" by blast
  from j(2) q(1) show ?thesis
  proof (cases rule: writer_cases)
    case moves
    then show ?thesis using assms(4,5) q(2) by simp
  next
    case (commits b st)
    have "(f, Acked k) \<in> set (sq_outcomes (commit_batch (si_config si) env b (sy_queue s)))"
      using assms(4) q(2) commits(3) by simp
    from commit_acked [OF this assms(5)] obtain x r where
      x: "x \<in> set b" "sub_future x = f" "pm_id (sub_message x) = k"
      and r: "find_row k (messages (sq_db q)) = Some r" "status r = Queued"
        "mime r = Some (pm_mime (sub_message x))" "recipients r = pm_recipients (sub_message x)"
      using commits(2) by auto
    have xs: "x \<in> set (submissions (sy_queue s))" using x(1) commits(4) by simp
    obtain m where m: "submission_at i (sy_listener s) = Some m" "sub_message x = m"
    proof -
      obtain m where m: "submission_at i (sy_listener s) = Some m" and
        f: "(\<exists>y \<in> set (submissions (sy_queue s)). sub_future y = f \<and> sub_message y = m) \<or>
          f \<in> fst ` set (sq_outcomes (sy_queue s))"
        using j(6) [OF assms(2)] unfolding ticket_ok_def by blast
      have "f \<notin> fst ` set (sq_outcomes (sy_queue s))" using submissions_open [OF j(2) xs] x(2) by simp
      then obtain y where "y \<in> set (submissions (sy_queue s))" "sub_future y = f" "sub_message y = m"
        using f by blast
      then have "sub_message x = m" using submissions_unique [OF j(2) xs, of y] x(2) by simp
      with m show ?thesis by (rule that)
    qed
    then show ?thesis using x(3) r q(2) by auto
  qed
qed





end
