(* ===== verification/Gw_Benchmark.thy ===== *)
theory Gw_Benchmark
  imports Gw_Smtp Gw_Vault Gw_Store_Reads
begin

text \<open>
  \<open>tools/benchmark.py\<close>: the load client, which speaks SMTP to the listener; the mock of the
  Microsoft endpoint, which counts what it is sent; and the checks and the figures at the end.
  Times are rationals, as in \<open>Gw_Prelude\<close>; the clock itself and the wiring are left out.
\<close>

section \<open>Arguments\<close>

record bench_args =
  ba_messages :: int
  ba_clients :: int
  ba_message_bytes :: int
  ba_graph :: bool
  ba_mock_latency_ms :: pyfloat
  ba_delivery_rate :: pyfloat
  ba_timeout :: pyfloat

definition bench_defaults :: bench_args where
  "bench_defaults = \<lparr>ba_messages = 3000, ba_clients = 32, ba_message_bytes = 10240, ba_graph = False,
     ba_mock_latency_ms = Fin 5, ba_delivery_rate = Fin 1000, ba_timeout = Fin 120\<rparr>"

text \<open>\<open>main\<close> refuses the others.\<close>

definition bench_args_ok :: "bench_args \<Rightarrow> bool" where
  "bench_args_ok a = (\<not> (min (ba_messages a) (ba_clients a) < 1 \<or> ba_message_bytes a < 512
     \<or> ba_message_bytes a > 2000000 \<or> py_le (ba_delivery_rate a) (Fin 0)
     \<or> py_lt (Fin 1000) (ba_delivery_rate a) \<or> py_lt (ba_mock_latency_ms a) (Fin 0)))"

definition bench_config :: "string \<Rightarrow> bench_args \<Rightarrow> config" where
  "bench_config directory a = (let c = default_config in
     c\<lparr>cfg_data_dir := directory,
       cfg_account := (cfg_account c)\<lparr>acc_sender := ''gateway@example.test'',
         acc_backend := (if ba_graph a then ''graph'' else ''ews'')\<rparr>,
       cfg_smtp := (cfg_smtp c)\<lparr>smtp_port := 0, smtp_max_connections := ba_clients a + 8,
         smtp_max_message_bytes := max 2000000 (ba_message_bytes a + 2048)\<rparr>,
       cfg_queue := (cfg_queue c)\<lparr>q_min_free_bytes := 0, q_max_messages := ba_messages a + 100\<rparr>,
       cfg_delivery := (cfg_delivery c)\<lparr>d_messages_per_second := ba_delivery_rate a,
         d_recipient_limit_24h := 0, d_shutdown_seconds := Fin 5\<rparr>\<rparr>)"

section \<open>\<open>percentile\<close>\<close>

text \<open>\<open>int(x)\<close> cuts off towards zero; an index may count from the end.\<close>

definition truncate_rat :: "rat \<Rightarrow> int" where
  "truncate_rat x = (if 0 \<le> x then \<lfloor>x\<rfloor> else \<lceil>x\<rceil>)"

definition index_from :: "'a list \<Rightarrow> int \<Rightarrow> 'a res" where
  "index_from xs i =
     (let n = int (length xs) in
      if 0 \<le> i \<and> i < n then Inr (xs ! nat i)
      else if - n \<le> i \<and> i < 0 then Inr (xs ! nat (n + i))
      else Inl IndexError)"

definition percentile :: "rat list \<Rightarrow> rat \<Rightarrow> rat res" where
  "percentile values fraction =
     (let ordered = sort values; n = int (length ordered) in
      index_from ordered (min (n - 1) (truncate_rat (rat_of_int (n - 1) * fraction))))"

section \<open>The load client\<close>

text \<open>\<open>int\<close> of octets: spaces around it, a sign, digits with single underscores.\<close>

definition ascii_space :: "char \<Rightarrow> bool" where
  "ascii_space c = (c = CHR '' '' \<or> (9 \<le> code c \<and> code c \<le> 13))"

definition octets_int :: "bytes \<Rightarrow> int option" where
  "octets_int s =
     (let t = rev (dropWhile ascii_space (rev (dropWhile ascii_space s)));
          (neg, u) = sign_of t; (ds, r) = take_digits u
      in if ds = [] \<or> r \<noteq> [] then None
         else Some (if neg then - int (digits_value ds) else int (digits_value ds)))"

text \<open>
  The lines the client has not read yet; an empty line is the end of the stream, and when no line
  is left the wait of 30 seconds ends in a \<open>TimeoutError\<close>.  \<open>acc\<close> holds the lines read before.
\<close>

fun read_response :: "bytes \<Rightarrow> bytes list \<Rightarrow> (int \<times> bytes) res \<times> bytes list" where
  "read_response acc [] = (Inl OSError, [])"
| "read_response acc (l # ls) =
     (if length l < 4 then (Inl (RuntimeError ''SMTP connection closed unexpectedly''), ls)
      else if l ! 3 \<noteq> CHR ''-'' then
        (case octets_int (take 3 l) of
           None \<Rightarrow> (Inl (ValueError ''invalid literal for int() with base 10''), ls)
         | Some n \<Rightarrow> (Inr (n, acc @ l), ls))
      else read_response (acc @ l) ls)"

text \<open>
  The other side takes octets and answers with lines; a client's state is that of the other side
  with the lines not read yet.  Replies are ASCII.
\<close>

type_synonym 's talk = "'s \<times> bytes list"
type_synonym 's peer = "'s \<Rightarrow> bytes \<Rightarrow> 's \<times> bytes list"

definition send_octets :: "'s peer \<Rightarrow> 's talk \<Rightarrow> bytes \<Rightarrow> 's talk" where
  "send_octets peer st octets = (let (s, out) = peer (fst st) octets in (s, snd st @ out))"

definition expect_reply :: "'s talk \<Rightarrow> (int \<Rightarrow> bytes \<Rightarrow> unit res) \<Rightarrow> 's talk \<times> unit res" where
  "expect_reply st f = (let (r, rest) = read_response [] (snd st)
     in ((fst st, rest), bind_res r (\<lambda>(n, content). f n content)))"

definition client_command :: "'s peer \<Rightarrow> bytes \<Rightarrow> int \<Rightarrow> 's talk \<Rightarrow> 's talk \<times> unit res" where
  "client_command peer text_sent expected st =
     expect_reply (send_octets peer st (text_sent @ [CR, LF])) (\<lambda>n content.
       if n \<noteq> expected then Inl (RuntimeError (''Unexpected SMTP reply: '' @ content)) else Inr ())"

text \<open>One after the other; the first exception ends it.\<close>

definition and_then :: "'s talk \<times> unit res \<Rightarrow> ('s talk \<Rightarrow> 's talk \<times> unit res) \<Rightarrow> 's talk \<times> unit res" where
  "and_then m f = (case m of (st, Inl e) \<Rightarrow> (st, Inl e) | (st, Inr u) \<Rightarrow> f st)"

definition message_header :: "nat \<Rightarrow> bytes" where
  "message_header index =
     ''From: _NAT_source@example.test'' @ [CR, LF] @ ''To: recipient@example.test'' @ [CR, LF] @
     ''Subject: Offline load test '' @ dec_text (int index) @ [CR, LF] @
     ''Message-ID: <offline-'' @ dec_text (int index) @ ''@example.test>'' @ [CR, LF] @
     ''Content-Type: text/plain; charset=us-ascii'' @ [CR, LF, CR, LF]"

definition make_message :: "nat \<Rightarrow> nat \<Rightarrow> bytes" where
  "make_message index len =
     (let body_size = len - length (message_header index);
          lines = body_size div 78; remainder = body_size mod 78;
          body = concat (replicate lines (replicate 76 CHR ''x'' @ [CR, LF]))
      in message_header index @ (if remainder \<ge> 2 then body @ replicate (remainder - 2) CHR ''x'' @ [CR, LF] else body))"

definition send_message :: "'s peer \<Rightarrow> nat \<Rightarrow> nat \<Rightarrow> 's talk \<Rightarrow> 's talk \<times> unit res" where
  "send_message peer len index st =
     and_then (client_command peer ''MAIL FROM:<ignored@example.test>'' 250 st) (\<lambda>st.
     and_then (client_command peer ''RCPT TO:<recipient@example.test>'' 250 st) (\<lambda>st.
     and_then (client_command peer ''DATA'' 354 st) (\<lambda>st.
     expect_reply (send_octets peer st (make_message index len @ [CHR ''.'', CR, LF])) (\<lambda>n content.
       if n \<noteq> 250 then Inl (RuntimeError content) else Inr ()))))"

fun send_messages :: "'s peer \<Rightarrow> nat \<Rightarrow> nat list \<Rightarrow> 's talk \<Rightarrow> 's talk \<times> unit res" where
  "send_messages peer len [] st = (st, Inr ())"
| "send_messages peer len (k # ks) st = and_then (send_message peer len k st) (send_messages peer len ks)"

text \<open>\<open>range(start, stop, step)\<close> with a positive step.\<close>

function step_range :: "nat \<Rightarrow> nat \<Rightarrow> nat \<Rightarrow> nat list" where
  "step_range start stop k = (if k = 0 \<or> stop \<le> start then [] else start # step_range (start + k) stop k)"
  by auto
termination by (relation "measure (\<lambda>(start, stop, k). stop - start)") auto

declare step_range.simps [simp del]

definition assertion_error :: exn where "assertion_error = OtherExc ''AssertionError''"

definition producer :: "'s peer \<Rightarrow> nat \<Rightarrow> nat list \<Rightarrow> 's talk \<Rightarrow> 's talk \<times> unit res" where
  "producer peer len indices st =
     and_then (expect_reply st (\<lambda>n content. if n \<noteq> 220 then Inl assertion_error else Inr ())) (\<lambda>st.
     and_then (client_command peer ''EHLO benchmark'' 250 st) (\<lambda>st.
     and_then (send_messages peer len indices st) (client_command peer ''QUIT'' 221)))"

text \<open>What each of the clients sends.\<close>

definition shares :: "nat \<Rightarrow> nat \<Rightarrow> nat list list" where
  "shares wanted clients = map (\<lambda>number. step_range number wanted clients) [0..<clients]"

section \<open>The mock endpoint\<close>

text \<open>
  A request is being read, or it is waiting before its answer; these two numbers are the
  positions of the running handlers.
\<close>

record mock =
  mk_count :: nat
  mk_active :: nat
  mk_maximum :: nat
  mk_seen :: "string list"
  mk_reading :: nat
  mk_waiting :: nat

definition mock_start :: mock where
  "mock_start = \<lparr>mk_count = 0, mk_active = 0, mk_maximum = 0, mk_seen = [], mk_reading = 0, mk_waiting = 0\<rparr>"

text \<open>
  The message in a request; \<open>xml_mime\<close> is \<open>ElementTree.fromstring\<close> with \<open>findtext\<close> of \<open>MimeContent\<close>,
  \<open>None\<close> where the document has none.
\<close>

definition mock_mime :: "bool \<Rightarrow> (bytes \<Rightarrow> string option res) \<Rightarrow> bytes \<Rightarrow> bytes res" where
  "mock_mime graph xml_mime payload =
     bind_res (if graph then Inr (Some payload) else xml_mime payload) (\<lambda>t.
       case t of None \<Rightarrow> Inl (OtherExc ''TypeError'')
       | Some s \<Rightarrow> (case b64_strict s of None \<Rightarrow> Inl (ValueError ''Invalid base64-encoded string'') | Some b \<Rightarrow> Inr b))"

definition mock_check :: "bool \<Rightarrow> (bytes \<Rightarrow> string option res) \<Rightarrow> bytes \<Rightarrow> string option \<Rightarrow> string list \<Rightarrow> string res" where
  "mock_check graph xml_mime payload request_id seen =
     bind_res (mock_mime graph xml_mime payload) (\<lambda>mime.
     if \<not> is_infix (''From: gateway@example.test'' @ [CR, LF]) mime \<or> \<not> is_infix ''Sender: source@example.test'' mime
     then Inl assertion_error
     else case request_id of
         None \<Rightarrow> Inl (OtherExc ''KeyError'')
       | Some i \<Rightarrow> if i \<in> set seen then Inl assertion_error else Inr i)"

text \<open>
  The events: a request arrives, its body has been read, the wait is over and it is answered, the
  connection is lost meanwhile.
\<close>

datatype mock_event = Arrives | Reads bytes "string option" | Answers | LostReading | LostWaiting

definition mock_step :: "bool \<Rightarrow> (bytes \<Rightarrow> string option res) \<Rightarrow> mock_event \<Rightarrow> mock \<Rightarrow> mock" where
  "mock_step graph xml_mime e m = (case e of
      Arrives \<Rightarrow> m\<lparr>mk_active := Suc (mk_active m), mk_maximum := max (mk_maximum m) (Suc (mk_active m)),
                  mk_reading := Suc (mk_reading m)\<rparr>
    | Reads payload request_id \<Rightarrow>
        if mk_reading m = 0 then m
        else (let m1 = m\<lparr>mk_reading := mk_reading m - 1\<rparr> in
          case mock_check graph xml_mime payload request_id (mk_seen m) of
            Inl x \<Rightarrow> m1\<lparr>mk_active := mk_active m - 1\<rparr>
          | Inr i \<Rightarrow> m1\<lparr>mk_seen := i # mk_seen m, mk_waiting := Suc (mk_waiting m)\<rparr>)
    | Answers \<Rightarrow>
        if mk_waiting m = 0 then m
        else m\<lparr>mk_count := Suc (mk_count m), mk_active := mk_active m - 1, mk_waiting := mk_waiting m - 1\<rparr>
    | LostReading \<Rightarrow>
        if mk_reading m = 0 then m else m\<lparr>mk_active := mk_active m - 1, mk_reading := mk_reading m - 1\<rparr>
    | LostWaiting \<Rightarrow>
        if mk_waiting m = 0 then m else m\<lparr>mk_active := mk_active m - 1, mk_waiting := mk_waiting m - 1\<rparr>)"

definition mock_run :: "bool \<Rightarrow> (bytes \<Rightarrow> string option res) \<Rightarrow> mock_event list \<Rightarrow> mock" where
  "mock_run graph xml_mime es = fold (mock_step graph xml_mime) es mock_start"

text \<open>The answer, once the wait is over.\<close>

definition success_xml :: bytes where
  "success_xml = ''<s:Envelope xmlns:s=\"http://schemas.xmlsoap.org/soap/envelope/\" xmlns:m=\"http://schemas.microsoft.com/exchange/services/2006/messages\"><s:Body><m:CreateItemResponse><m:ResponseMessages><m:CreateItemResponseMessage ResponseClass=\"Success\"><m:ResponseCode>NoError</m:ResponseCode></m:CreateItemResponseMessage></m:ResponseMessages></m:CreateItemResponse></s:Body></s:Envelope>''"

definition mock_response :: "bool \<Rightarrow> int \<times> bytes" where
  "mock_response graph = (if graph then (202, []) else (200, success_xml))"

section \<open>The end of a run\<close>

text \<open>One turn of the wait: go on waiting, stop, or raise.\<close>

definition pipeline_turn :: "int \<Rightarrow> bool \<Rightarrow> queue_stats \<Rightarrow> bool res" where
  "pipeline_turn wanted healthy q =
     (if (case map_of (qs_counters q) ''submitted'' of None \<Rightarrow> 0 | Some n \<Rightarrow> n) < wanted
      then if \<not> healthy \<or> (case map_of (qs_states q) ''uncertain'' of None \<Rightarrow> False | Some n \<Rightarrow> n \<noteq> 0)
           then Inl (RuntimeError ''Pipeline fault in offline benchmark'') else Inr False
      else Inr True)"

definition result_checks :: "int \<Rightarrow> mock \<Rightarrow> queue_stats \<Rightarrow> bool" where
  "result_checks wanted m q =
     (int (mk_count m) = wanted \<and> wanted = int (card (set (mk_seen m)))
      \<and> map_of (qs_counters q) ''accepted'' = Some (int (mk_count m))
      \<and> map_of (qs_counters q) ''submitted'' = Some (int (mk_count m))
      \<and> map_of (qs_counters q) ''retained_messages'' = Some 0)"

section \<open>The report\<close>

text \<open>\<open>round(x, digits)\<close>: to the nearest, a tie to the even neighbour.\<close>

definition round_even :: "rat \<Rightarrow> int" where
  "round_even x = (let f = \<lfloor>x\<rfloor>; d = x - rat_of_int f in
     if d < 1 / 2 then f else if 1 / 2 < d then f + 1 else if even f then f else f + 1)"

definition round_to :: "nat \<Rightarrow> rat \<Rightarrow> rat" where
  "round_to digits x = rat_of_int (round_even (x * 10 ^ digits)) / 10 ^ digits"

definition divide_res :: "rat \<Rightarrow> rat \<Rightarrow> rat res" where
  "divide_res x y = (if y = 0 then Inl (OtherExc ''ZeroDivisionError'') else Inr (x / y))"

text \<open>The measured figures of the report.\<close>

record bench_report =
  br_sample_bytes :: nat
  br_intake_seconds :: rat
  br_end_to_end_seconds :: rat
  br_accepts_per_second :: rat
  br_submissions_per_second :: rat
  br_p50 :: rat
  br_p95 :: rat
  br_p99 :: rat
  br_mock_submitted :: nat

definition latency_ms :: "rat list \<Rightarrow> rat \<Rightarrow> rat res" where
  "latency_ms latencies fraction =
     bind_res (percentile latencies fraction) (\<lambda>x. Inr (round_to 2 (x * 1000)))"

definition bench_figures :: "bench_args \<Rightarrow> rat \<Rightarrow> rat \<Rightarrow> rat \<Rightarrow> rat list \<Rightarrow> mock \<Rightarrow> bench_report res" where
  "bench_figures a started intake_done completed latencies m =
     bind_res (divide_res (rat_of_int (ba_messages a)) (intake_done - started)) (\<lambda>accepts.
     bind_res (divide_res (rat_of_int (ba_messages a)) (completed - started)) (\<lambda>submissions.
     bind_res (latency_ms latencies (1 / 2)) (\<lambda>p50.
     bind_res (latency_ms latencies (95 / 100)) (\<lambda>p95.
     bind_res (latency_ms latencies (99 / 100)) (\<lambda>p99.
     Inr \<lparr>br_sample_bytes = length (make_message 0 (nat (ba_message_bytes a))),
          br_intake_seconds = round_to 4 (intake_done - started),
          br_end_to_end_seconds = round_to 4 (completed - started),
          br_accepts_per_second = round_to 2 accepts, br_submissions_per_second = round_to 2 submissions,
          br_p50 = p50, br_p95 = p95, br_p99 = p99, br_mock_submitted = mk_count m\<rparr>)))))"

end
