(* ===== verification/Gw_Benchmark_Props.thy ===== *)
theory Gw_Benchmark_Props
  imports Gw_Benchmark Gw_Listener_Props Gw_Vault_Props "HOL-Library.Multiset"
begin

text \<open>
  The benchmark (\<open>tools/benchmark.py\<close>): percentiles, how the work is shared out, the messages it
  makes, the count of the mock endpoint, and a whole run of a load client against the listener.
\<close>

section \<open>Percentiles\<close>

lemma filter_take_all: "(\<forall>x \<in> set (take k xs). P x) \<Longrightarrow> k \<le> length xs \<Longrightarrow> k \<le> length (filter P xs)"
proof -
  assume "\<forall>x \<in> set (take k xs). P x" and k: "k \<le> length xs"
  then have "filter P (take k xs) = take k xs" by (simp add: filter_id_conv)
  then have "length (filter P (take k xs @ drop k xs)) \<ge> k" using k by (simp del: append_take_drop_id)
  then show ?thesis by simp
qed

lemma filter_drop_all: "(\<forall>x \<in> set (drop k xs). P x) \<Longrightarrow> length xs - k \<le> length (filter P xs)"
proof -
  assume "\<forall>x \<in> set (drop k xs). P x"
  then have "filter P (drop k xs) = drop k xs" by (simp add: filter_id_conv)
  then have "length (filter P (take k xs @ drop k xs)) \<ge> length xs - k" by (simp del: append_take_drop_id)
  then show ?thesis by simp
qed

lemma length_filter_sort: "length (filter P (sort xs)) = length (filter P xs)"
  by (metis mset_filter mset_sort size_mset)

lemma rank_below:
  assumes "sorted xs" "k < length xs"
  shows "k < length (filter (\<lambda>v. v \<le> xs ! k) xs)"
proof -
  have "\<forall>x \<in> set (take (Suc k) xs). x \<le> xs ! k"
    using assms by (auto simp: in_set_conv_nth sorted_iff_nth_mono less_Suc_eq_le)
  from filter_take_all [OF this] assms(2) show ?thesis by simp
qed

lemma rank_above:
  assumes "sorted xs" "k < length xs"
  shows "length xs - k \<le> length (filter (\<lambda>v. xs ! k \<le> v) xs)"
proof -
  have "\<forall>x \<in> set (drop k xs). xs ! k \<le> x"
    using assms by (auto simp: in_set_conv_nth sorted_iff_nth_mono)
  from filter_drop_all [OF this] show ?thesis .
qed

definition rank_of :: "nat \<Rightarrow> rat \<Rightarrow> nat" where
  "rank_of n fraction = nat \<lfloor>rat_of_nat (n - 1) * fraction\<rfloor>"

lemma rank_of_less: "0 < n \<Longrightarrow> 0 \<le> f \<Longrightarrow> f \<le> 1 \<Longrightarrow> rank_of n f < n"
proof -
  assume n: "0 < n" and f: "0 \<le> f" "f \<le> 1"
  have "rat_of_nat (n - 1) * f \<le> rat_of_nat (n - 1) * 1" using f by (intro mult_left_mono) auto
  then have "\<lfloor>rat_of_nat (n - 1) * f\<rfloor> \<le> int (n - 1)" by (metis floor_mono floor_of_nat mult.right_neutral)
  then show ?thesis using n by (simp add: rank_of_def)
qed

lemma percentile_nth:
  assumes "vs \<noteq> []" "0 \<le> f" "f \<le> 1"
  shows "percentile vs f = Inr (sort vs ! rank_of (length vs) f)"
proof -
  have n: "0 < length vs" using assms(1) by simp
  have r: "rat_of_int (int (length vs) - 1) * f = rat_of_nat (length vs - 1) * f"
    using n by (cases vs) simp_all
  have "0 \<le> rat_of_nat (length vs - 1) * f" using assms(2) by simp
  then have t: "truncate_rat (rat_of_nat (length vs - 1) * f) = int (rank_of (length vs) f)"
    by (simp add: truncate_rat_def rank_of_def)
  have l: "rank_of (length vs) f < length vs" by (rule rank_of_less [OF n assms(2,3)])
  then have i: "min (int (length vs) - 1) (truncate_rat (rat_of_int (int (length vs) - 1) * f)) = int (rank_of (length vs) f)"
    unfolding r t by linarith
  show ?thesis unfolding percentile_def Let_def length_sort i using l by (simp add: index_from_def)
qed

text \<open>A percentile is one of the values: more than its rank are at most it, the rest are at least it.\<close>

lemma percentile_rank:
  assumes "vs \<noteq> []" "0 \<le> f" "f \<le> 1"
  shows "\<exists>x \<in> set vs. percentile vs f = Inr x
     \<and> rank_of (length vs) f < length (filter (\<lambda>v. v \<le> x) vs)
     \<and> length vs - rank_of (length vs) f \<le> length (filter (\<lambda>v. x \<le> v) vs)"
proof -
  let ?k = "rank_of (length vs) f"
  have k: "?k < length (sort vs)" using rank_of_less [OF _ assms(2,3)] assms(1) by simp
  have "sort vs ! ?k \<in> set vs" using nth_mem [OF k] by simp
  then show ?thesis
    using percentile_nth [OF assms] rank_below [OF sorted_sort k] rank_above [OF sorted_sort k]
    by (intro bexI [of _ "sort vs ! ?k"]) (simp_all add: length_filter_sort)
qed

lemma percentile_mono:
  assumes "vs \<noteq> []" "0 \<le> f" "f \<le> g" "g \<le> 1" "percentile vs f = Inr x" "percentile vs g = Inr y"
  shows "x \<le> y"
proof -
  have "rank_of (length vs) f \<le> rank_of (length vs) g"
    unfolding rank_of_def using assms(2,3) by (intro nat_mono floor_mono mult_left_mono) auto
  moreover have "rank_of (length vs) g < length vs" using assms by (intro rank_of_less) auto
  ultimately have "sort vs ! rank_of (length vs) f \<le> sort vs ! rank_of (length vs) g"
    by (intro sorted_nth_mono) auto
  then show ?thesis using assms percentile_nth [of vs f] percentile_nth [of vs g] by auto
qed

lemma percentile_nothing: "percentile [] f = Inl IndexError"
  by (simp add: percentile_def index_from_def Let_def)

section \<open>Shares\<close>

lemma step_range_set: "0 < k \<Longrightarrow> set (step_range a b k) = {i. a \<le> i \<and> i < b \<and> i mod k = a mod k}"
proof (induction a b k rule: step_range.induct)
  case (1 a b k)
  show ?case
  proof (cases "b \<le> a")
    case True
    then show ?thesis by (subst step_range.simps) auto
  next
    case False
    have "set (step_range (a + k) b k) = {i. a + k \<le> i \<and> i < b \<and> i mod k = a mod k}"
      using 1 False by simp
    moreover have "i = a" if "a \<le> i" "i mod k = a mod k" "\<not> a + k \<le> i" for i
    proof -
      have "(i - a) mod k = 0" using that(1,2) by (metis mod_eq_dvd_iff_nat mod_0_imp_dvd dvd_eq_mod_eq_0)
      moreover have "i - a < k" using that by linarith
      ultimately show ?thesis using that(1) by simp
    qed
    ultimately show ?thesis using False 1(2) by (subst step_range.simps) auto
  qed
qed

lemma step_range_distinct: "distinct (step_range a b k)"
proof (induction a b k rule: step_range.induct)
  case (1 a b k)
  then show ?case using step_range_set [of k "a + k" b] by (subst step_range.simps) auto
qed

text \<open>Each message is sent by exactly one client.\<close>

lemma work_is_shared_out:
  assumes "0 < clients"
  shows "mset (concat (shares wanted clients)) = mset [0..<wanted]"
proof -
  have s: "set (step_range n wanted clients) = {i. n \<le> i \<and> i < wanted \<and> i mod clients = n}" if "n < clients" for n
    using step_range_set [OF assms, of n wanted] that by simp
  have "distinct (concat (map (\<lambda>n. step_range n wanted clients) ns))" if "distinct ns" "set ns \<subseteq> {..<clients}" for ns
    using that
  proof (induction ns)
    case (Cons n ns)
    then show ?case using s by (auto simp: step_range_distinct)
  qed simp
  from this [of "[0..<clients]"] have "distinct (concat (shares wanted clients))"
    by (simp add: shares_def lessThan_atLeast0)
  moreover have "set (concat (shares wanted clients)) = set [0..<wanted]"
  proof
    show "set [0..<wanted] \<subseteq> set (concat (shares wanted clients))"
    proof
      fix i assume "i \<in> set [0..<wanted]"
      then have "i \<in> set (step_range (i mod clients) wanted clients)" "i mod clients < clients"
        using s [of "i mod clients"] assms by auto
      then show "i \<in> set (concat (shares wanted clients))" by (auto simp: shares_def)
    qed
  qed (auto simp: shares_def s)
  ultimately show ?thesis by (metis distinct_upt set_eq_iff_mset_eq_distinct)
qed

section \<open>Messages\<close>

declare dec_text.simps [simp del]

text \<open>The lines of a message, without their ends.\<close>

definition header_lines :: "nat \<Rightarrow> bytes list" where
  "header_lines index = [''From: _NAT_source@example.test'', ''To: recipient@example.test'',
     ''Subject: Offline load test '' @ dec_text (int index),
     ''Message-ID: <offline-'' @ dec_text (int index) @ ''@example.test>'',
     ''Content-Type: text/plain; charset=us-ascii'', []]"

definition body_lines :: "nat \<Rightarrow> bytes list" where
  "body_lines n = replicate (n div 78) (replicate 76 CHR ''x'') @
     (if 2 \<le> n mod 78 then [replicate (n mod 78 - 2) CHR ''x''] else [])"

definition message_lines :: "nat \<Rightarrow> nat \<Rightarrow> bytes list" where
  "message_lines index len = header_lines index @ body_lines (len - length (message_header index))"

lemma octets_append: "octets (xs @ ys) = octets xs @ octets ys"
  by (simp add: octets_def)

lemma header_octets: "message_header index = octets (header_lines index)"
  by (simp add: message_header_def header_lines_def octets_def)

lemma make_message_lines: "make_message index len = octets (message_lines index len)"
  by (simp add: make_message_def message_lines_def octets_append header_octets Let_def)
    (simp add: octets_def body_lines_def map_replicate)

lemma digits_ten: "\<forall>d \<in> set [0, 1, 2, 3, 4, 5, 6, 7, 8, 9 :: int].
    (char_of (48 + d) :: char) \<in> set ''0123456789'' \<and> int (code (char_of (48 + d)) - 48) = d"
  by code_simp

lemma digit_char:
  assumes "0 \<le> d" "d < (10 :: int)"
  shows "(char_of (48 + d) :: char) \<in> set ''0123456789''" "int (code (char_of (48 + d)) - 48) = d"
proof -
  have "d \<in> set [0, 1, 2, 3, 4, 5, 6, 7, 8, 9]" using assms by (simp, arith)
  then show "(char_of (48 + d) :: char) \<in> set ''0123456789''" "int (code (char_of (48 + d)) - 48) = d"
    using digits_ten by blast+
qed

lemma dec_text_digits: "0 \<le> n \<Longrightarrow> set (dec_text n) \<subseteq> set ''0123456789''"
proof (induction n rule: dec_text.induct)
  case (1 n)
  then show ?case using digit_char(1) [of n] digit_char(1) [of "n mod 10"]
    by (cases "n < 10"; subst dec_text.simps) simp_all
qed

lemma dec_text_length: "0 \<le> n \<Longrightarrow> n < 10 ^ Suc d \<Longrightarrow> length (dec_text n) \<le> Suc d"
proof (induction d arbitrary: n)
  case 0
  then show ?case by (subst dec_text.simps) simp
next
  case (Suc d)
  have "n div 10 < 10 ^ Suc d" using Suc.prems(2) by (simp add: div_less_iff_less_mult)
  with Suc show ?case by (cases "n < 10"; subst dec_text.simps) (simp_all add: div_int_pos_iff)
qed

lemma dec_text_number: "0 \<le> n \<Longrightarrow> digits_number (dec_text n) = n"
proof (induction n rule: dec_text.induct)
  case (1 n)
  show ?case
  proof (cases "n < 10")
    case True
    then show ?thesis using digit_char(2) [of n] 1(2) by (subst dec_text.simps) (simp add: digits_number_def)
  next
    case False
    then show ?thesis using digit_char(2) [of "n mod 10"] 1 by (subst dec_text.simps) (simp add: digits_number_def)
  qed
qed

lemma dec_text_inject: "dec_text (int k) = dec_text (int j) \<Longrightarrow> k = j"
  by (metis dec_text_number of_nat_0_le_iff of_nat_eq_iff)

lemma dec_text_char: "c \<in> set (dec_text (int k)) \<Longrightarrow> c \<in> set ''0123456789''"
  by (rule subsetD [OF dec_text_digits [of "int k"]]) simp_all

lemma body_length: "length (octets (body_lines n)) = (if n mod 78 = 1 then n - 1 else n)"
proof -
  have "length (octets (body_lines n)) = 78 * (n div 78) + (if 2 \<le> n mod 78 then n mod 78 else 0)"
    by (simp add: body_lines_def octets_append) (auto simp: octets_def map_replicate length_concat sum_list_replicate)
  moreover have "78 * (n div 78) + n mod 78 = n" by (rule mult_div_mod_eq)
  ultimately show ?thesis by (cases "2 \<le> n mod 78"; cases "n mod 78 = 1"; cases "n mod 78 = 0") simp_all
qed

text \<open>A message has the length asked for, or one octet less; different indices give different messages.\<close>

lemma make_message_length:
  assumes "length (message_header index) \<le> len"
  shows "length (make_message index len) \<in> {len - 1, len}"
  using body_length [of "len - length (message_header index)"] assms
  by (auto simp: make_message_lines message_lines_def octets_append header_octets)

lemma takeWhile_digits: "takeWhile (\<lambda>c. c \<noteq> CR) (dec_text (int k) @ CR # r) = dec_text (int k)"
  using dec_text_char [of CR k] by (subst takeWhile_append2) auto

lemma make_message_inject:
  assumes "make_message k len = make_message j len"
  shows "k = j"
proof -
  have d: "\<exists>r. drop 87 (make_message i len) = dec_text (int i) @ CR # r" for i
    by (simp add: make_message_lines message_lines_def header_lines_def octets_append) (simp add: octets_def)
  from d [of k] d [of j] assms obtain r r1 where "dec_text (int k) @ CR # r = dec_text (int j) @ CR # r1" by metis
  then have "dec_text (int k) = dec_text (int j)" using takeWhile_digits [of k r] takeWhile_digits [of j r1] by simp
  then show ?thesis by (rule dec_text_inject)
qed

lemma message_text_lines:
  assumes "int index < 10 ^ 100"
  shows "list_all text_line (message_lines index len)"
proof -
  have l: "length (dec_text (int index)) \<le> 100" using dec_text_length [of "int index" 99] assms by simp
  have c: "CR \<notin> set (dec_text (int index))" "LF \<notin> set (dec_text (int index))"
    using dec_text_char [of CR index] dec_text_char [of LF index] by auto
  have "list_all text_line (body_lines n)" for n by (auto simp: body_lines_def text_line_def list_all_iff)
  moreover have "list_all text_line (header_lines index)"
    using l c by (simp add: header_lines_def text_line_def)
  ultimately show ?thesis by (simp add: message_lines_def list_all_append)
qed

lemma no_dot: "replicate n CHR ''x'' \<noteq> CHR ''.'' # y"
  by (cases n) simp_all

lemma message_no_dots: "x \<in> set (message_lines index len) \<Longrightarrow> take 1 x \<noteq> ''.''"
  unfolding take_1 by (auto simp: message_lines_def header_lines_def body_lines_def no_dot no_dot [symmetric] split: if_splits)

section \<open>Lines of a stream\<close>

fun stream_lines :: "bytes \<Rightarrow> bytes \<Rightarrow> bytes list" where
  "stream_lines acc [] = (if acc = [] then [] else [rev acc])"
| "stream_lines acc (c # cs) = (if c = LF then rev (c # acc) # stream_lines [] cs else stream_lines (c # acc) cs)"

lemma stream_line: "LF \<notin> set x \<Longrightarrow> stream_lines acc (x @ LF # rest) = (rev acc @ x @ [LF]) # stream_lines [] rest"
  by (induction x arbitrary: acc) auto

lemma stream_crlf: "LF \<notin> set x \<Longrightarrow> stream_lines [] (x @ CR # LF # rest) = (x @ [CR, LF]) # stream_lines [] rest"
  using stream_line [of "x @ [CR]" "[]" rest] by simp

lemma stream_octets: "list_all text_line xs \<Longrightarrow> stream_lines [] (octets xs @ rest) = map (\<lambda>x. x @ [CR, LF]) xs @ stream_lines [] rest"
  by (induction xs) (simp_all add: octets_def text_line_def stream_crlf)

lemma message_stream:
  assumes "int index < 10 ^ 100"
  shows "stream_lines [] (make_message index len @ [CHR ''.'', CR, LF]) = map sent_line (message_lines index len) @ [data_end]"
proof -
  have "map sent_line (message_lines index len) = map (\<lambda>x. x @ [CR, LF]) (message_lines index len)"
    using message_no_dots by (auto simp: sent_line_def)
  then show ?thesis
    using stream_octets [OF message_text_lines [OF assms], of len "[CHR ''.'', CR, LF]"] stream_crlf [of "''.''" "[]"]
    by (simp add: make_message_lines data_end_def)
qed

section \<open>The mock endpoint\<close>

text \<open>
  The handlers that run are the active ones; every identifier is entered once; no more requests
  are answered than identifiers were seen.
\<close>

definition mock_inv :: "mock \<Rightarrow> bool" where
  "mock_inv m = (mk_active m = mk_reading m + mk_waiting m \<and> mk_active m \<le> mk_maximum m \<and> distinct (mk_seen m)
     \<and> mk_count m + mk_waiting m \<le> length (mk_seen m))"

lemma mock_check_new: "mock_check graph x p i seen = Inr k \<Longrightarrow> i = Some k \<and> k \<notin> set seen"
  by (auto simp: mock_check_def bind_res_Inr split: if_splits option.splits)

lemma mock_step_inv: "mock_inv m \<Longrightarrow> mock_inv (mock_step graph x e m)"
  by (cases e) (auto simp: mock_inv_def mock_step_def Let_def dest: mock_check_new split: sum.splits)

lemma mock_run_inv: "mock_inv (mock_run graph x es)"
proof -
  have "mock_inv m \<Longrightarrow> mock_inv (fold (mock_step graph x) es m)" for m
    by (induction es arbitrary: m) (auto intro: mock_step_inv)
  moreover have "mock_inv mock_start" by (simp add: mock_start_def mock_inv_def)
  ultimately show ?thesis by (simp add: mock_run_def)
qed

text \<open>While no waiting request is lost, each identifier seen is answered or about to be.\<close>

lemma mock_step_exact:
  "e \<noteq> LostWaiting \<Longrightarrow> mk_count m + mk_waiting m = length (mk_seen m) \<Longrightarrow>
   mk_count (mock_step graph x e m) + mk_waiting (mock_step graph x e m) = length (mk_seen (mock_step graph x e m))"
  by (cases e) (auto simp: mock_step_def Let_def split: sum.splits)

lemma mock_run_exact:
  assumes "LostWaiting \<notin> set es"
  shows "mk_count (mock_run graph x es) + mk_waiting (mock_run graph x es) = card (set (mk_seen (mock_run graph x es)))"
proof -
  have "mk_count m + mk_waiting m = length (mk_seen m) \<Longrightarrow> LostWaiting \<notin> set es \<Longrightarrow>
      mk_count (fold (mock_step graph x) es m) + mk_waiting (fold (mock_step graph x) es m) =
      length (mk_seen (fold (mock_step graph x) es m))" for m
    by (induction es arbitrary: m) (use mock_step_exact in auto)
  then have "mk_count (mock_run graph x es) + mk_waiting (mock_run graph x es) = length (mk_seen (mock_run graph x es))"
    using assms by (simp add: mock_run_def mock_start_def)
  then show ?thesis using mock_run_inv [of graph x es] by (simp add: mock_inv_def distinct_card)
qed

text \<open>A run that passes the checks: as many different requests as messages, and none waits for its answer.\<close>

lemma checked_run:
  assumes "result_checks wanted (mock_run graph x es) q" and "LostWaiting \<notin> set es"
  shows "mk_waiting (mock_run graph x es) = 0 \<and> int (length (mk_seen (mock_run graph x es))) = wanted
    \<and> distinct (mk_seen (mock_run graph x es)) \<and> map_of (qs_counters q) ''submitted'' = Some wanted"
proof -
  have d: "distinct (mk_seen (mock_run graph x es))" using mock_run_inv by (simp add: mock_inv_def)
  then show ?thesis using assms(1) mock_run_exact [OF assms(2), of graph x]
    by (auto simp: result_checks_def distinct_card)
qed

text \<open>The mock reads the message that the back end encoded.\<close>

lemma mock_reads_message: "mock_mime True x (b64encode raw) = Inr raw"
  by (simp add: mock_mime_def b64_strict_def b64_valid_encode b64_roundtrip)

text \<open>The back end takes the answer of the Graph mock as an acceptance.\<close>

lemma mock_accepts: "judge lib True (fst (mock_response True)) (snd (mock_response True)) delay = Inr ()"
  by (simp add: judge_def mock_response_def)

section \<open>Arguments\<close>

text \<open>A message of an admissible length is within the limit that the benchmark sets.\<close>

lemma bench_message_fits:
  assumes "bench_args_ok a" and "length (message_header k) \<le> 512"
  shows "int (length (make_message k (nat (ba_message_bytes a)))) \<le> smtp_max_message_bytes (cfg_smtp (bench_config dir a))"
proof -
  have b: "512 \<le> ba_message_bytes a" using assms(1) by (simp add: bench_args_ok_def)
  then have "length (make_message k (nat (ba_message_bytes a))) \<le> nat (ba_message_bytes a)"
    using make_message_length [of k "nat (ba_message_bytes a)"] assms(2) by fastforce
  with b show ?thesis by (simp add: bench_config_def Let_def)
qed

text \<open>
  What the argument check lets through: a rate that is not a number, and a share that is longer than
  the 100000 commands after which the listener asks a client to reconnect.
\<close>

lemma nan_rate_admitted: "bench_args_ok (bench_defaults\<lparr>ba_delivery_rate := NaN\<rparr>)"
  by (simp add: bench_args_ok_def bench_defaults_def)

lemma long_share_admitted: "bench_args_ok (bench_defaults\<lparr>ba_messages := 40000, ba_clients := 1\<rparr>)"
  by (simp add: bench_args_ok_def bench_defaults_def)

lemma long_share_cut_off: "100000 \<le> ss_count s \<Longrightarrow> \<exists>t. command_line lib cfg av line s = Hangup t"
  by (simp add: command_line_def Let_def split: prod.splits)

section \<open>The report\<close>

lemma round_even_mono: "x \<le> y \<Longrightarrow> round_even x \<le> round_even y"
proof -
  assume le: "x \<le> y"
  then have f: "\<lfloor>x\<rfloor> \<le> \<lfloor>y\<rfloor>" by (rule floor_mono)
  have b: "\<lfloor>z\<rfloor> \<le> round_even z \<and> round_even z \<le> \<lfloor>z\<rfloor> + 1" for z by (simp add: round_even_def Let_def)
  show ?thesis
  proof (cases "\<lfloor>x\<rfloor> = \<lfloor>y\<rfloor>")
    case True
    then show ?thesis using le by (auto simp: round_even_def Let_def)
  next
    case False
    then show ?thesis using f b [of x] b [of y] by linarith
  qed
qed

lemma round_to_mono: "x \<le> y \<Longrightarrow> round_to n x \<le> round_to n y"
  unfolding round_to_def by (intro divide_right_mono) (auto intro!: round_even_mono mult_right_mono)

lemma round_even_near: "\<bar>rat_of_int (round_even x) - x\<bar> \<le> 1 / 2"
proof -
  have "rat_of_int \<lfloor>x\<rfloor> \<le> x" "x < rat_of_int \<lfloor>x\<rfloor> + 1" by linarith+
  then show ?thesis by (auto simp: round_even_def Let_def abs_le_iff)
qed

text \<open>A figure differs from what was measured by at most half of its last digit.\<close>

lemma round_to_near: "\<bar>round_to n x - x\<bar> \<le> 1 / (2 * 10 ^ n)"
proof -
  have "round_to n x - x = (rat_of_int (round_even (x * 10 ^ n)) - x * 10 ^ n) / 10 ^ n"
    by (simp add: round_to_def diff_divide_distrib)
  then have "\<bar>round_to n x - x\<bar> = \<bar>rat_of_int (round_even (x * 10 ^ n)) - x * 10 ^ n\<bar> / 10 ^ n" by simp
  also have "\<dots> \<le> (1 / 2) / 10 ^ n" by (intro divide_right_mono round_even_near) simp
  finally show ?thesis by simp
qed

lemma latency_mono:
  assumes "vs \<noteq> []" "0 \<le> f" "f \<le> g" "g \<le> 1" "latency_ms vs f = Inr x" "latency_ms vs g = Inr y"
  shows "x \<le> y"
  using assms percentile_mono [OF assms(1-4)]
  by (auto simp: latency_ms_def bind_res_Inr intro!: round_to_mono)

text \<open>A run that took time and sent a message has its figures, and the percentiles are in order.\<close>

lemma figures_in_order:
  assumes "latencies \<noteq> []" and "started < intake_done" and "intake_done \<le> completed"
  shows "\<exists>r. bench_figures a started intake_done completed latencies m = Inr r
     \<and> br_p50 r \<le> br_p95 r \<and> br_p95 r \<le> br_p99 r \<and> br_intake_seconds r \<le> br_end_to_end_seconds r"
proof -
  have p: "\<exists>x. latency_ms latencies f = Inr x" if "0 \<le> f" "f \<le> 1" for f
    using percentile_nth [OF assms(1) that] by (simp add: latency_ms_def)
  obtain x y z where l: "latency_ms latencies (1 / 2) = Inr x" "latency_ms latencies (95 / 100) = Inr y"
    "latency_ms latencies (99 / 100) = Inr z" using p [of "1 / 2"] p [of "95 / 100"] p [of "99 / 100"] by auto
  have "x \<le> y" by (rule latency_mono [OF assms(1) _ _ _ l(1,2)]) simp_all
  moreover have "y \<le> z" by (rule latency_mono [OF assms(1) _ _ _ l(2,3)]) simp_all
  ultimately show ?thesis using l assms(2,3) by (simp add: bench_figures_def divide_res_def round_to_mono)
qed

end
