(* ===== verification/Gw_Load_Claims.thy ===== *)
theory Gw_Load_Claims
  imports Gw_Benchmark_Props
begin

text \<open>
  A load client of the benchmark at the SMTP listener.  The locale \<open>smtp_service\<close> is what the client
  relies on: each of its commands is answered with the code it expects.  The listener keeps that
  contract, so that every message is queued, as \<open>prepare_message\<close> makes it of exactly the octets of
  \<open>make_message\<close>.
\<close>

section \<open>What the client relies on\<close>

definition replies :: "int \<Rightarrow> bytes list \<Rightarrow> bool" where
  "replies n ls = (\<exists>content. read_response [] ls = (Inr (n, content), []))"

lemma expect_ok: "replies n ls \<Longrightarrow> (\<And>content. f n content = Inr ()) \<Longrightarrow> expect_reply (s, ls) f = ((s, []), Inr ())"
  by (auto simp: replies_def expect_reply_def)

lemma send_octets_eq: "peer s octs = (s1, ls) \<Longrightarrow> send_octets peer (s, []) octs = (s1, ls)"
  by (simp add: send_octets_def)

lemma client_command_ok:
  "peer s (t @ [CR, LF]) = (s1, ls) \<Longrightarrow> replies n ls \<Longrightarrow> client_command peer t n (s, []) = ((s1, []), Inr ())"
  by (simp add: client_command_def send_octets_eq expect_ok)

lemma and_then_ok [simp]: "and_then (st, Inr u) f = f st"
  by (simp add: and_then_def)

text \<open>
  \<open>fresh todo s\<close>: the client is connected and is to send the messages \<open>todo\<close>; \<open>ready todo done s\<close>:
  it has been greeted and has sent \<open>done\<close>.
\<close>

locale smtp_service =
  fixes peer :: "'s peer"
    and fresh :: "nat list \<Rightarrow> 's \<Rightarrow> bool"
    and ready :: "nat list \<Rightarrow> nat list \<Rightarrow> 's \<Rightarrow> bool"
    and gone :: "nat list \<Rightarrow> 's \<Rightarrow> bool"
    and len :: nat
  assumes greets: "fresh todo s \<Longrightarrow>
      \<exists>s1 ls. peer s (''EHLO benchmark'' @ [CR, LF]) = (s1, ls) \<and> replies 250 ls \<and> ready todo [] s1"
    and takes: "ready (k # todo) sent s \<Longrightarrow> \<exists>s1 l1 s2 l2 s3 l3 s4 l4.
      peer s (''MAIL FROM:<ignored@example.test>'' @ [CR, LF]) = (s1, l1) \<and> replies 250 l1
      \<and> peer s1 (''RCPT TO:<recipient@example.test>'' @ [CR, LF]) = (s2, l2) \<and> replies 250 l2
      \<and> peer s2 (''DATA'' @ [CR, LF]) = (s3, l3) \<and> replies 354 l3
      \<and> peer s3 (make_message k len @ [CHR ''.'', CR, LF]) = (s4, l4) \<and> replies 250 l4
      \<and> ready todo (sent @ [k]) s4"
    and quits: "ready [] sent s \<Longrightarrow>
      \<exists>s1 ls. peer s (''QUIT'' @ [CR, LF]) = (s1, ls) \<and> replies 221 ls \<and> gone sent s1"
begin

lemma message_sent:
  assumes "ready (k # todo) sent s"
  shows "\<exists>s1. send_message peer len k (s, []) = ((s1, []), Inr ()) \<and> ready todo (sent @ [k]) s1"
proof -
  from takes [OF assms] obtain s1 l1 s2 l2 s3 l3 s4 l4 where
    m: "peer s (''MAIL FROM:<ignored@example.test>'' @ [CR, LF]) = (s1, l1)" "replies 250 l1"
    and r: "peer s1 (''RCPT TO:<recipient@example.test>'' @ [CR, LF]) = (s2, l2)" "replies 250 l2"
    and d: "peer s2 (''DATA'' @ [CR, LF]) = (s3, l3)" "replies 354 l3"
    and b: "peer s3 (make_message k len @ [CHR ''.'', CR, LF]) = (s4, l4)" "replies 250 l4"
    and "ready todo (sent @ [k]) s4" by blast
  then show ?thesis
    using client_command_ok [of peer s "''MAIL FROM:<ignored@example.test>''" s1 l1 250, OF m]
      client_command_ok [of peer s1 "''RCPT TO:<recipient@example.test>''" s2 l2 250, OF r]
      client_command_ok [of peer s2 "''DATA''" s3 l3 354, OF d]
    by (simp add: send_message_def send_octets_eq [of peer s3 _ s4 l4, OF b(1)] expect_ok [OF b(2)] del: append_Cons)
qed

lemma messages_sent:
  "ready todo sent s \<Longrightarrow>
     \<exists>s1. send_messages peer len todo (s, []) = ((s1, []), Inr ()) \<and> ready [] (sent @ todo) s1"
proof (induction todo arbitrary: sent s)
  case (Cons k todo)
  then obtain s1 where "send_message peer len k (s, []) = ((s1, []), Inr ())" "ready todo (sent @ [k]) s1"
    using message_sent by blast
  then show ?case using Cons.IH [of "sent @ [k]" s1] by simp
qed auto

lemma producer_completes:
  assumes "fresh todo s" and "replies 220 greeting"
  shows "\<exists>s1. producer peer len todo (s, greeting) = ((s1, []), Inr ()) \<and> gone todo s1"
proof -
  from greets [OF assms(1)] obtain s1 ls where
    e: "peer s (''EHLO benchmark'' @ [CR, LF]) = (s1, ls)" "replies 250 ls" "ready todo [] s1" by blast
  from messages_sent [OF e(3)] obtain s2 where
    m: "send_messages peer len todo (s1, []) = ((s2, []), Inr ())" "ready [] todo s2" by auto
  from quits [OF m(2)] obtain s3 l3 where
    q: "peer s2 (''QUIT'' @ [CR, LF]) = (s3, l3)" "replies 221 l3" "gone todo s3" by blast
  show ?thesis
    using client_command_ok [of peer s "''EHLO benchmark''" s1 ls 250, OF e(1,2)]
      client_command_ok [of peer s2 "''QUIT''" s3 l3 221, OF q(1,2)]
    by (simp add: producer_def expect_ok [OF assms(2)] m(1) q(3) del: append_Cons)
qed

end

section \<open>The listener as the other side\<close>

definition reply_lines :: "string \<Rightarrow> bytes list" where
  "reply_lines t = (if t = [] then [] else stream_lines [] (t @ [CR, LF]))"

text \<open>
  The surroundings: the library, the configuration, the allowlist, the number of the connection,
  the additional sender, and the queue ID of each submission.
\<close>

record load_site =
  st_email :: email_lib
  st_config :: config
  st_parse :: "string \<Rightarrow> ip option"
  st_networks :: "network list"
  st_client :: nat
  st_extra :: string
  st_ident :: "nat \<Rightarrow> string"
  st_len :: nat

text \<open>The listener and the messages handed to the queue, which takes them all.\<close>

record served =
  sd_listener :: listener
  sd_queued :: "prepared_message list"

definition site_serve :: "load_site \<Rightarrow> event \<Rightarrow> listener \<Rightarrow> listener \<times> string" where
  "site_serve w e sv = serve (st_email w) (st_config w) (st_parse w) (st_networks w) e sv"

definition site_phase :: "load_site \<Rightarrow> listener \<Rightarrow> phase option" where
  "site_phase w sv = map_option co_phase (map_of (sv_connections sv) (st_client w))"

definition site_line :: "load_site \<Rightarrow> bytes \<Rightarrow> served \<Rightarrow> served \<times> bytes list" where
  "site_line w line s =
     (let (sv, t) = site_serve w (Line (st_client w) True (st_extra w) (st_ident w (length (sd_queued s))) line) (sd_listener s)
      in case site_phase w sv of
          Some (Submitting d q x m) \<Rightarrow>
            (let (sv1, t1) = site_serve w (event.Submitted (st_client w) True) sv
             in (\<lparr>sd_listener = sv1, sd_queued = sd_queued s @ [m]\<rparr>, reply_lines t @ reply_lines t1))
        | _ \<Rightarrow> (s\<lparr>sd_listener := sv\<rparr>, reply_lines t))"

fun site_lines :: "load_site \<Rightarrow> bytes list \<Rightarrow> served \<Rightarrow> served \<times> bytes list" where
  "site_lines w [] s = (s, [])"
| "site_lines w (l # ls) s =
     (let (s1, out) = site_line w l s; (s2, rest) = site_lines w ls s1 in (s2, out @ rest))"

definition site_peer :: "load_site \<Rightarrow> served peer" where
  "site_peer w s octs = site_lines w (stream_lines [] octs) s"

lemma reply_line: "LF \<notin> set t \<Longrightarrow> t \<noteq> [] \<Longrightarrow> reply_lines t = [t @ [CR, LF]]"
  using stream_crlf [of t "[]"] by (simp add: reply_lines_def)

lemma site_command: "LF \<notin> set t \<Longrightarrow> site_peer w s (t @ [CR, LF]) = site_line w (t @ [CR, LF]) s"
  using stream_crlf [of t "[]"] by (simp add: site_peer_def split: prod.split)

section \<open>The client's commands\<close>

definition plain_command :: "bytes \<Rightarrow> string \<Rightarrow> string \<Rightarrow> bool" where
  "plain_command t c a = (length t \<le> 510 \<and> \<not> list_ex non_ascii (t @ [CR, LF]) \<and> CHR 0x00 \<notin> set t \<and> LF \<notin> set t
     \<and> (let (c0, f, a0) = partition_char CHR '' '' t in upper c0 = c \<and> strip a0 = a))"

lemma client_commands:
  "plain_command ''EHLO benchmark'' ''EHLO'' ''benchmark''"
  "plain_command ''MAIL FROM:<ignored@example.test>'' ''MAIL'' ''FROM:<ignored@example.test>''"
  "plain_command ''RCPT TO:<recipient@example.test>'' ''RCPT'' ''TO:<recipient@example.test>''"
  "plain_command ''DATA'' ''DATA'' []" "plain_command ''QUIT'' ''QUIT'' []"
  by code_simp+

lemma client_paths:
  "path_of ''FROM:'' ''FROM:<ignored@example.test>'' = Some (''ignored@example.test'', [])"
  "path_of ''TO:'' ''TO:<recipient@example.test>'' = Some (''recipient@example.test'', [])"
  by code_simp+

lemma command_line_plain:
  assumes "plain_command t c a" "ss_count s < 100000"
  shows "command_line lib cfg av (t @ [CR, LF]) s = dispatch_command lib cfg av c a (s\<lparr>ss_count := Suc (ss_count s)\<rparr>)"
  using assms
  by (auto simp: plain_command_def command_line_def ends_crlf_def ends_with_def Let_def split: prod.splits)

lemma reply_read:
  assumes "octets_int [c1, c2, c3] = Some n" "LF \<notin> set (c1 # c2 # c3 # c4 # u)" "c4 \<noteq> CHR ''-''"
  shows "replies n (reply_lines (c1 # c2 # c3 # c4 # u))"
  using assms(1,3) reply_line [OF assms(2)] by (simp add: replies_def)

lemma codes: "octets_int ''250'' = Some 250" "octets_int ''354'' = Some 354" "octets_int ''220'' = Some 220"
  "octets_int ''221'' = Some 221"
  by code_simp+

lemma reply_lines_append: "LF \<notin> set t \<Longrightarrow> reply_lines (t @ CR # LF # u) = (t @ [CR, LF]) # stream_lines [] (u @ [CR, LF])"
  using stream_crlf [of t "u @ [CR, LF]"] by (simp add: reply_lines_def)

lemma ehlo_reply:
  assumes "LF \<notin> set host" "0 \<le> n"
  shows "replies 250 (reply_lines (''250-'' @ host @ [CR, LF] @ ''250-SIZE '' @ dec_text n @ [CR, LF] @ ''250 8BITMIME''))"
proof -
  have "LF \<notin> set (dec_text n)" using dec_text_char [of LF "nat n"] assms(2) by auto
  then have "reply_lines (''250-'' @ host @ [CR, LF] @ ''250-SIZE '' @ dec_text n @ [CR, LF] @ ''250 8BITMIME'') =
      [''250-'' @ host @ [CR, LF], ''250-SIZE '' @ dec_text n @ [CR, LF], ''250 8BITMIME'' @ [CR, LF]]"
    using reply_lines_append [of "''250-'' @ host" "''250-SIZE '' @ dec_text n @ [CR, LF] @ ''250 8BITMIME''"]
      stream_crlf [of "''250-SIZE '' @ dec_text n" "''250 8BITMIME'' @ [CR, LF]"] stream_crlf [of "''250 8BITMIME''" "[]"] assms(1)
    by simp
  then show ?thesis by (simp add: replies_def codes)
qed

section \<open>A connection between two commands\<close>

definition conn_at :: "load_site \<Rightarrow> connection \<Rightarrow> served \<Rightarrow> bool" where
  "conn_at w c s = (map_of (sv_connections (sd_listener s)) (st_client w) = Some c)"

text \<open>What the command and the message leave alone: the buffer, the count of accepted messages, the queue.\<close>

definition totals :: "served \<Rightarrow> int \<times> nat \<times> prepared_message list" where
  "totals s = (sv_buffered (sd_listener s), sv_accepted (sd_listener s), sd_queued s)"

definition put_conn :: "load_site \<Rightarrow> connection \<Rightarrow> served \<Rightarrow> served" where
  "put_conn w c s = s\<lparr>sd_listener := set_connection (st_client w) c (sd_listener s)\<rparr>"

lemma put_conn_simps [simp]: "conn_at w c (put_conn w c s)" "totals (put_conn w c s) = totals s"
  by (simp_all add: conn_at_def put_conn_def set_connection_def update_conv' totals_def)

lemma phase_set [simp]: "site_phase w (set_connection (st_client w) c sv) = Some (co_phase c)"
  by (simp add: site_phase_def set_connection_def update_conv')

lemma site_line_proceed:
  assumes "conn_at w c s" "co_phase c = Commands" "line \<noteq> []"
    and "command_line (st_email w) (st_config w) True line (co_session c) = Proceed s1 t"
  shows "site_line w line s = (put_conn w (c\<lparr>co_session := s1\<rparr>) s, reply_lines t)"
  using assms by (simp add: site_line_def site_serve_def conn_at_def serve_command_def put_conn_def)

lemma site_line_data:
  assumes "conn_at w c s" "co_phase c = Commands" "line \<noteq> []"
    and "command_line (st_email w) (st_config w) True line (co_session c) = ReadData s1 t"
  shows "site_line w line s = (put_conn w (c\<lparr>co_session := s1, co_phase := Reading data_start\<rparr>) s, reply_lines t)"
  using assms by (simp add: site_line_def site_serve_def conn_at_def serve_command_def put_conn_def)

lemma site_line_hangup:
  assumes "conn_at w c s" "co_phase c = Commands" "line \<noteq> []"
    and "command_line (st_email w) (st_config w) True line (co_session c) = Hangup t"
  shows "\<exists>s1. site_line w line s = (s1, reply_lines t) \<and> totals s1 = totals s
     \<and> map_of (sv_connections (sd_listener s1)) (st_client w) = None"
  using assms
  by (simp add: site_line_def site_serve_def conn_at_def serve_command_def drop_connection_def site_phase_def totals_def
      octets_held_def delete_conv')

text \<open>A line of a message.\<close>

lemma site_line_text:
  assumes "conn_at w c s" "co_phase c = Reading d" "text_line x" "ds_failure d = []"
    and "int (length (ds_content d)) + int (length x + 2) \<le> smtp_max_message_bytes (cfg_smtp (st_config w))"
    and "fst (totals s) + int (length x + 2) \<le> smtp_max_buffer_bytes (cfg_smtp (st_config w))"
  shows "\<exists>s1. site_line w (sent_line x) s = (s1, [])
     \<and> conn_at w (c\<lparr>co_phase := Reading (d\<lparr>ds_content := ds_content d @ x @ [CR, LF],
            ds_retained := ds_retained d + int (length x + 2)\<rparr>)\<rparr>) s1
     \<and> totals s1 = (fst (totals s) + int (length x + 2), snd (totals s))"
  using assms sent_line_no_end [OF assms(3)] data_line_sent [OF assms(3,4,5), of "fst (totals s)"]
  by (simp add: site_line_def site_serve_def conn_at_def serve_data_def totals_def reply_lines_def
      set_connection_def update_conv' site_phase_def)

lemma site_lines_text:
  assumes "conn_at w c s" "co_phase c = Reading d" "list_all text_line xs" "ds_failure d = []"
    and "int (length (ds_content d)) + int (length (octets xs)) \<le> smtp_max_message_bytes (cfg_smtp (st_config w))"
    and "fst (totals s) + int (length (octets xs)) \<le> smtp_max_buffer_bytes (cfg_smtp (st_config w))"
  shows "\<exists>s1. site_lines w (map sent_line xs @ ls) s = site_lines w ls s1
     \<and> conn_at w (c\<lparr>co_phase := Reading (d\<lparr>ds_content := ds_content d @ octets xs,
            ds_retained := ds_retained d + int (length (octets xs))\<rparr>)\<rparr>) s1
     \<and> totals s1 = (fst (totals s) + int (length (octets xs)), snd (totals s))"
  using assms
proof (induction xs arbitrary: s c d)
  case Nil
  then have c: "c\<lparr>co_phase := Reading d\<rparr> = c" by (cases c) simp
  show ?case using Nil by (intro exI [of _ s]) (simp add: octets_def c)
next
  case (Cons x xs)
  have o: "octets (x # xs) = x @ [CR, LF] @ octets xs" by (simp add: octets_def)
  let ?d = "d\<lparr>ds_content := ds_content d @ x @ [CR, LF], ds_retained := ds_retained d + int (length x + 2)\<rparr>"
  obtain s1 where s1: "site_line w (sent_line x) s = (s1, [])" "conn_at w (c\<lparr>co_phase := Reading ?d\<rparr>) s1"
    "totals s1 = (fst (totals s) + int (length x + 2), snd (totals s))"
    using site_line_text [OF Cons.prems(1,2), of x] Cons.prems(3-6) by (auto simp: o)
  have "\<exists>s2. site_lines w (map sent_line xs @ ls) s1 = site_lines w ls s2
     \<and> conn_at w (c\<lparr>co_phase := Reading ?d\<rparr>\<lparr>co_phase := Reading (?d\<lparr>ds_content := ds_content ?d @ octets xs,
            ds_retained := ds_retained ?d + int (length (octets xs))\<rparr>)\<rparr>) s2
     \<and> totals s2 = (fst (totals s1) + int (length (octets xs)), snd (totals s1))"
    using Cons.prems(3-6) by (intro Cons.IH [OF s1(2)]) (simp_all add: o s1(3) algebra_simps)
  then obtain s2 where s2: "site_lines w (map sent_line xs @ ls) s1 = site_lines w ls s2"
    "conn_at w (c\<lparr>co_phase := Reading (d\<lparr>ds_content := ds_content d @ octets (x # xs),
            ds_retained := ds_retained d + int (length (octets (x # xs)))\<rparr>)\<rparr>) s2"
    "totals s2 = (fst (totals s) + int (length (octets (x # xs))), snd (totals s))"
    by (auto simp: o s1(3) algebra_simps)
  then show ?case using s1(1) by (auto split: prod.splits)
qed

text \<open>The end mark: the message is prepared, queued and acknowledged.\<close>

lemma site_line_end:
  assumes "conn_at w c s" "co_phase c = Reading d" "ds_failure d = []"
    and "prepare_message (st_email w) (ds_content d) (ss_recipients (co_session c)) (the (ss_sender (co_session c)))
       (st_ident w (length (sd_queued s))) (st_config w) (st_extra w) = Inr m"
  shows "\<exists>s1. site_line w data_end s = (s1, reply_lines (queue_reply (st_ident w (length (sd_queued s))) True))
     \<and> conn_at w (c\<lparr>co_session := after_data (co_session c), co_phase := Commands\<rparr>) s1
     \<and> totals s1 = (fst (totals s) - ds_retained d, Suc (fst (snd (totals s))), snd (snd (totals s)) @ [m])"
  using assms
  by (simp add: site_line_def site_serve_def conn_at_def serve_data_def data_message_def data_end_def totals_def
      set_connection_def update_conv' site_phase_def serve_submitted_def end_data_def data_release_def reply_lines_def)

section \<open>The contract\<close>

text \<open>
  What the surroundings must be: the two mailboxes are valid, any recipient domain is allowed, and
  the host name does not break a reply line.
\<close>

definition site_ok :: "load_site \<Rightarrow> string \<Rightarrow> string \<Rightarrow> bool" where
  "site_ok w a r =
     (mailbox (st_email w) ''ignored@example.test'' True = Inr a
      \<and> mailbox (st_email w) ''recipient@example.test'' False = Inr r
      \<and> acc_allowed_recipient_domains (cfg_account (st_config w)) = []
      \<and> 1 \<le> smtp_max_recipients (cfg_smtp (st_config w)) \<and> 0 \<le> smtp_max_message_bytes (cfg_smtp (st_config w))
      \<and> LF \<notin> set (smtp_hostname (cfg_smtp (st_config w))) \<and> (\<forall>n. LF \<notin> set (st_ident w n)))"

definition prepared :: "load_site \<Rightarrow> string \<Rightarrow> string \<Rightarrow> nat \<Rightarrow> nat \<Rightarrow> prepared_message res" where
  "prepared w a r k n = prepare_message (st_email w) (make_message k (st_len w)) [r] a (st_ident w n) (st_config w) (st_extra w)"

text \<open>Message \<open>k\<close> fits, with \<open>b\<close> octets in the buffer, and is accepted by the policy.\<close>

definition fits :: "load_site \<Rightarrow> string \<Rightarrow> string \<Rightarrow> int \<Rightarrow> nat \<Rightarrow> bool" where
  "fits w a r b k = (int k < 10 ^ 100
     \<and> int (length (make_message k (st_len w))) \<le> smtp_max_message_bytes (cfg_smtp (st_config w))
     \<and> b + int (length (make_message k (st_len w))) \<le> smtp_max_buffer_bytes (cfg_smtp (st_config w))
     \<and> (\<forall>n. \<exists>m. prepared w a r k n = Inr m))"

text \<open>The queue after the messages \<open>sent\<close>, from the listener's totals at the start.\<close>

definition queued_all :: "load_site \<Rightarrow> string \<Rightarrow> string \<Rightarrow> int \<Rightarrow> nat \<Rightarrow> nat list \<Rightarrow> served \<Rightarrow> bool" where
  "queued_all w a r b acc sent s = (\<exists>ms. totals s = (b, acc + length sent, ms)
     \<and> list_all2 (\<lambda>k m. \<exists>n. prepared w a r k n = Inr m) sent ms)"

definition client_session :: "nat \<Rightarrow> session" where
  "client_session n = \<lparr>ss_greeted = True, ss_extended = True, ss_sender = None, ss_recipients = [], ss_count = n\<rparr>"

definition in_transaction :: "string \<Rightarrow> string list \<Rightarrow> nat \<Rightarrow> session" where
  "in_transaction a rs n = (client_session n)\<lparr>ss_sender := Some a, ss_recipients := rs\<rparr>"

lemmas step_defs = dispatch_command_def client_session_def in_transaction_def new_session_def

definition ehlo_text :: "config \<Rightarrow> string" where
  "ehlo_text cfg = ''250-'' @ smtp_hostname (cfg_smtp cfg) @ [CR, LF] @ ''250-SIZE '' @
     dec_text (smtp_max_message_bytes (cfg_smtp cfg)) @ [CR, LF] @ ''250 8BITMIME''"

lemma ehlo_step: "command_line lib cfg av (''EHLO benchmark'' @ [CR, LF]) new_session = Proceed (client_session 1) (ehlo_text cfg)"
  by (subst command_line_plain [OF client_commands(1)]) (simp_all add: step_defs greet_command_def ehlo_text_def)

lemma mail_step:
  assumes "n < 100000" "mailbox lib ''ignored@example.test'' True = Inr a" "0 \<le> smtp_max_message_bytes (cfg_smtp cfg)"
  shows "command_line lib cfg True (''MAIL FROM:<ignored@example.test>'' @ [CR, LF]) (client_session n) =
     Proceed (in_transaction a [] (Suc n)) ''250 2.1.0 Sender accepted; message From will be validated''"
  using assms by (subst command_line_plain [OF client_commands(2)])
    (simp_all add: step_defs mail_command_def client_paths)

lemma rcpt_step:
  assumes "n < 100000" "mailbox lib ''recipient@example.test'' False = Inr r" "1 \<le> smtp_max_recipients (cfg_smtp cfg)"
    and "acc_allowed_recipient_domains (cfg_account cfg) = []"
  shows "command_line lib cfg True (''RCPT TO:<recipient@example.test>'' @ [CR, LF]) (in_transaction a [] n) =
     Proceed (in_transaction a [r] (Suc n)) ''250 2.1.5 Recipient accepted''"
  using assms by (subst command_line_plain [OF client_commands(3)])
    (simp_all add: step_defs rcpt_command_def client_paths Let_def)

lemma data_step:
  "n < 100000 \<Longrightarrow> command_line lib cfg True (''DATA'' @ [CR, LF]) (in_transaction a [r] n) =
     ReadData (in_transaction a [r] (Suc n)) ''354 Send message; end with <CRLF>.<CRLF>''"
  by (subst command_line_plain [OF client_commands(4)]) (simp_all add: step_defs data_command_def)

lemma quit_step:
  "n < 100000 \<Longrightarrow> command_line lib cfg True (''QUIT'' @ [CR, LF]) (client_session n) = Hangup ''221 2.0.0 Closing connection''"
  by (subst command_line_plain [OF client_commands(5)]) (simp_all add: step_defs)

lemma after_transaction: "after_data (in_transaction a rs n) = client_session n"
  by (simp add: after_data_def in_transaction_def client_session_def)

definition at_command :: "load_site \<Rightarrow> session \<Rightarrow> served \<Rightarrow> bool" where
  "at_command w ss s = (\<exists>h. conn_at w \<lparr>co_peer = h, co_session = ss, co_phase = Commands\<rparr> s)"

text \<open>One command that is answered, and the octets of one message.\<close>

lemma proceed:
  assumes "at_command w ss s" "LF \<notin> set t"
    and "command_line (st_email w) (st_config w) True (t @ [CR, LF]) ss = Proceed ss1 u"
  shows "\<exists>s1. site_peer w s (t @ [CR, LF]) = (s1, reply_lines u) \<and> at_command w ss1 s1 \<and> totals s1 = totals s"
proof -
  obtain h where c: "conn_at w \<lparr>co_peer = h, co_session = ss, co_phase = Commands\<rparr> s"
    using assms(1) by (auto simp: at_command_def)
  from site_line_proceed [OF c, of "t @ [CR, LF]" ss1 u] assms(3) have
    "site_line w (t @ [CR, LF]) s = (put_conn w \<lparr>co_peer = h, co_session = ss1, co_phase = Commands\<rparr> s, reply_lines u)"
    by simp
  moreover have "at_command w ss1 (put_conn w \<lparr>co_peer = h, co_session = ss1, co_phase = Commands\<rparr> s)"
    unfolding at_command_def using put_conn_simps(1) by blast
  ultimately show ?thesis by (simp add: site_command [OF assms(2)])
qed

lemma message_taken:
  assumes "conn_at w \<lparr>co_peer = h, co_session = in_transaction a [r] n, co_phase = Reading data_start\<rparr> s"
    and "fits w a r (fst (totals s)) k"
  shows "\<exists>s1 q m. site_peer w s (make_message k (st_len w) @ [CHR ''.'', CR, LF]) = (s1, reply_lines (queue_reply (st_ident w q) True))
     \<and> at_command w (client_session n) s1 \<and> prepared w a r k q = Inr m
     \<and> totals s1 = (fst (totals s), Suc (fst (snd (totals s))), snd (snd (totals s)) @ [m])"
proof -
  let ?xs = "message_lines k (st_len w)" let ?c = "\<lparr>co_peer = h, co_session = in_transaction a [r] n, co_phase = Reading data_start\<rparr>"
  have f: "int k < 10 ^ 100" "int (length (octets ?xs)) \<le> smtp_max_message_bytes (cfg_smtp (st_config w))"
    "fst (totals s) + int (length (octets ?xs)) \<le> smtp_max_buffer_bytes (cfg_smtp (st_config w))"
    "\<And>n. \<exists>m. prepared w a r k n = Inr m"
    using assms(2) by (simp_all add: fits_def make_message_lines)
  let ?d = "data_start\<lparr>ds_content := ds_content data_start @ octets ?xs, ds_retained := ds_retained data_start + int (length (octets ?xs))\<rparr>"
  have d: "ds_failure data_start = []" "ds_content data_start = []" "ds_retained data_start = 0"
    by (simp_all add: data_start_def)
  obtain s1 where s1: "site_lines w (map sent_line ?xs @ [data_end]) s = site_lines w [data_end] s1"
    "conn_at w (?c\<lparr>co_phase := Reading ?d\<rparr>) s1"
    "totals s1 = (fst (totals s) + int (length (octets ?xs)), snd (totals s))"
    using site_lines_text [OF assms(1) _ message_text_lines [OF f(1)] d(1), of "st_len w" "[data_end]"] f(2,3) d(2) by auto
  let ?q = "length (sd_queued s1)"
  obtain m where m: "prepared w a r k ?q = Inr m" using f(4) by blast
  then have "prepare_message (st_email w) (ds_content ?d) [r] a (st_ident w ?q) (st_config w) (st_extra w) = Inr m"
    by (simp add: prepared_def make_message_lines d)
  then obtain s2 where s2: "site_line w data_end s1 = (s2, reply_lines (queue_reply (st_ident w ?q) True))"
    "conn_at w \<lparr>co_peer = h, co_session = after_data (in_transaction a [r] n), co_phase = Commands\<rparr> s2"
    "totals s2 = (fst (totals s1) - ds_retained ?d, Suc (fst (snd (totals s1))), snd (snd (totals s1)) @ [m])"
    using site_line_end [OF s1(2), of ?d m] d(1) by (auto simp: in_transaction_def)
  have "site_peer w s (make_message k (st_len w) @ [CHR ''.'', CR, LF]) = site_lines w [data_end] s1"
    unfolding site_peer_def message_stream [OF f(1)] by (rule s1(1))
  then have "site_peer w s (make_message k (st_len w) @ [CHR ''.'', CR, LF]) = (s2, reply_lines (queue_reply (st_ident w ?q) True))"
    by (simp add: s2(1))
  moreover have "at_command w (client_session n) s2" using s2(2) by (auto simp: at_command_def after_transaction)
  moreover have "totals s2 = (fst (totals s), Suc (fst (snd (totals s))), snd (snd (totals s)) @ [m])"
    by (simp add: s2(3) s1(3) d)
  ultimately show ?thesis using m by blast
qed

text \<open>
  Between the client's commands: \<open>todo\<close> fits, and 100000 commands are enough for it.
\<close>

definition site_fresh :: "load_site \<Rightarrow> string \<Rightarrow> string \<Rightarrow> int \<Rightarrow> nat \<Rightarrow> nat list \<Rightarrow> served \<Rightarrow> bool" where
  "site_fresh w a r b acc todo s = (site_ok w a r \<and> list_all (fits w a r b) todo
     \<and> 3 * length todo + 2 \<le> 100000 \<and> at_command w new_session s \<and> queued_all w a r b acc [] s)"

definition site_ready :: "load_site \<Rightarrow> string \<Rightarrow> string \<Rightarrow> int \<Rightarrow> nat \<Rightarrow> nat list \<Rightarrow> nat list \<Rightarrow> served \<Rightarrow> bool" where
  "site_ready w a r b acc todo sent s = (site_ok w a r \<and> list_all (fits w a r b) todo
     \<and> (\<exists>n. at_command w (client_session n) s \<and> n + 3 * length todo + 1 \<le> 100000)
     \<and> queued_all w a r b acc sent s)"

definition site_gone :: "load_site \<Rightarrow> string \<Rightarrow> string \<Rightarrow> int \<Rightarrow> nat \<Rightarrow> nat list \<Rightarrow> served \<Rightarrow> bool" where
  "site_gone w a r b acc sent s = (map_of (sv_connections (sd_listener s)) (st_client w) = None
     \<and> queued_all w a r b acc sent s)"

lemma site_greets:
  assumes "site_fresh w a r b acc todo s"
  shows "\<exists>s1 ls. site_peer w s (''EHLO benchmark'' @ [CR, LF]) = (s1, ls) \<and> replies 250 ls
     \<and> site_ready w a r b acc todo [] s1"
proof -
  from assms have ok: "site_ok w a r" "list_all (fits w a r b) todo" "3 * length todo + 2 \<le> 100000"
    "queued_all w a r b acc [] s" and o: "at_command w new_session s" by (simp_all add: site_fresh_def)
  obtain s1 where s1: "site_peer w s (''EHLO benchmark'' @ [CR, LF]) = (s1, reply_lines (ehlo_text (st_config w)))"
    "at_command w (client_session 1) s1" "totals s1 = totals s"
    using proceed [OF o _ ehlo_step] by auto
  have "replies 250 (reply_lines (ehlo_text (st_config w)))"
    unfolding ehlo_text_def using ok(1) by (intro ehlo_reply) (simp_all add: site_ok_def)
  moreover have "site_ready w a r b acc todo [] s1"
    using ok s1(2,3) by (auto simp: site_ready_def queued_all_def intro!: exI [of _ 1])
  ultimately show ?thesis using s1(1) by blast
qed

lemma site_takes:
  assumes "site_ready w a r b acc (k # todo) sent s"
  shows "\<exists>s1 l1 s2 l2 s3 l3 s4 l4.
      site_peer w s (''MAIL FROM:<ignored@example.test>'' @ [CR, LF]) = (s1, l1) \<and> replies 250 l1
      \<and> site_peer w s1 (''RCPT TO:<recipient@example.test>'' @ [CR, LF]) = (s2, l2) \<and> replies 250 l2
      \<and> site_peer w s2 (''DATA'' @ [CR, LF]) = (s3, l3) \<and> replies 354 l3
      \<and> site_peer w s3 (make_message k (st_len w) @ [CHR ''.'', CR, LF]) = (s4, l4) \<and> replies 250 l4
      \<and> site_ready w a r b acc todo (sent @ [k]) s4"
proof -
  from assms obtain n where ok: "site_ok w a r" and f: "fits w a r b k" "list_all (fits w a r b) todo"
    and n: "n + 3 * length todo + 4 \<le> 100000" and c: "at_command w (client_session n) s"
    and q: "queued_all w a r b acc sent s" by (auto simp: site_ready_def)
  have lib: "mailbox (st_email w) ''ignored@example.test'' True = Inr a"
    "mailbox (st_email w) ''recipient@example.test'' False = Inr r"
    "0 \<le> smtp_max_message_bytes (cfg_smtp (st_config w))" "1 \<le> smtp_max_recipients (cfg_smtp (st_config w))"
    "acc_allowed_recipient_domains (cfg_account (st_config w)) = []" "\<And>n. LF \<notin> set (st_ident w n)"
    using ok by (simp_all add: site_ok_def)
  obtain s1 where s1: "site_peer w s (''MAIL FROM:<ignored@example.test>'' @ [CR, LF]) =
      (s1, reply_lines ''250 2.1.0 Sender accepted; message From will be validated'')"
    "at_command w (in_transaction a [] (Suc n)) s1" "totals s1 = totals s"
    using proceed [OF c _ mail_step [OF _ lib(1,3)]] n by auto
  obtain s2 where s2: "site_peer w s1 (''RCPT TO:<recipient@example.test>'' @ [CR, LF]) =
      (s2, reply_lines ''250 2.1.5 Recipient accepted'')"
    "at_command w (in_transaction a [r] (Suc (Suc n))) s2" "totals s2 = totals s"
    using proceed [OF s1(2) _ rcpt_step [OF _ lib(2,4,5)]] n s1(3) by auto
  obtain h where h: "conn_at w \<lparr>co_peer = h, co_session = in_transaction a [r] (Suc (Suc n)), co_phase = Commands\<rparr> s2"
    using s2(2) by (auto simp: at_command_def)
  let ?c = "\<lparr>co_peer = h, co_session = in_transaction a [r] (Suc (Suc (Suc n))), co_phase = Reading data_start\<rparr>"
  have s3: "site_peer w s2 (''DATA'' @ [CR, LF]) =
      (put_conn w ?c s2, reply_lines ''354 Send message; end with <CRLF>.<CRLF>'')"
    using site_line_data [OF h, of "''DATA'' @ [CR, LF]"]
      data_step [of "Suc (Suc n)" "st_email w" "st_config w" a r] n by (subst site_command) simp_all
  obtain s4 i m where s4: "site_peer w (put_conn w ?c s2) (make_message k (st_len w) @ [CHR ''.'', CR, LF]) =
      (s4, reply_lines (queue_reply (st_ident w i) True))" "at_command w (client_session (Suc (Suc (Suc n)))) s4"
    "prepared w a r k i = Inr m" "totals s4 = (fst (totals s), Suc (fst (snd (totals s))), snd (snd (totals s)) @ [m])"
    using message_taken [OF put_conn_simps(1) [of w ?c s2], of k] f(1) q s2(3)
    by (auto simp: queued_all_def)
  have "replies 250 (reply_lines (queue_reply (st_ident w i) True))"
    using lib(6) unfolding queue_reply_def by simp (rule reply_read [OF codes(1)]; simp)
  moreover have "replies 250 (reply_lines ''250 2.1.0 Sender accepted; message From will be validated'')"
    "replies 250 (reply_lines ''250 2.1.5 Recipient accepted'')"
    "replies 354 (reply_lines ''354 Send message; end with <CRLF>.<CRLF>'')"
    by (rule reply_read [OF codes(1)] reply_read [OF codes(2)]; simp)+
  moreover have "queued_all w a r b acc (sent @ [k]) s4"
    using q s4(3,4) by (auto simp: queued_all_def intro!: list_all2_appendI)
  then have "site_ready w a r b acc todo (sent @ [k]) s4"
    using ok f(2) n s4(2) by (auto simp: site_ready_def intro!: exI [of _ "Suc (Suc (Suc n))"])
  ultimately show ?thesis using s1(1) s2(1) s3 s4(1) by blast
qed

lemma site_quits:
  assumes "site_ready w a r b acc [] sent s"
  shows "\<exists>s1 ls. site_peer w s (''QUIT'' @ [CR, LF]) = (s1, ls) \<and> replies 221 ls \<and> site_gone w a r b acc sent s1"
proof -
  from assms obtain n h where n: "n \<le> 99999"
    and c: "conn_at w \<lparr>co_peer = h, co_session = client_session n, co_phase = Commands\<rparr> s"
    and q: "queued_all w a r b acc sent s" by (auto simp: site_ready_def at_command_def)
  obtain s1 where "site_line w (''QUIT'' @ [CR, LF]) s = (s1, reply_lines ''221 2.0.0 Closing connection'')"
    "totals s1 = totals s" "map_of (sv_connections (sd_listener s1)) (st_client w) = None"
    using site_line_hangup [OF c, of "''QUIT'' @ [CR, LF]"] quit_step [of n] n by auto
  moreover have "replies 221 (reply_lines ''221 2.0.0 Closing connection'')"
    by (rule reply_read [OF codes(4)]; simp)
  ultimately show ?thesis using q by (subst site_command) (auto simp: site_gone_def queued_all_def)
qed

interpretation site: smtp_service "site_peer w" "site_fresh w a r b acc" "site_ready w a r b acc"
    "site_gone w a r b acc" "st_len w" for w a r b acc
  by unfold_locales (rule site_greets site_takes site_quits; assumption)+

section \<open>A whole run\<close>

text \<open>
  C14: A load client is served.  A client from an allowed address, connecting while there is room, sends
  its share of the messages: no reply differs from what it expects, and when it has quit, each of
  its messages has been counted as accepted and handed to the queue once, in order, prepared from
  exactly the octets of \<open>make_message\<close>; the shared buffer is as it was and the connection is gone.
\<close>

theorem load_client_is_served:
  assumes "site_ok w a r" and "allowed (st_parse w) (st_networks w) host" and "\<not> sv_closing sv"
    and "map_of (sv_connections sv) (st_client w) = None"
    and "int (length (sv_connections sv)) < smtp_max_connections (cfg_smtp (st_config w))"
    and "list_all (fits w a r (sv_buffered sv)) todo" and "3 * length todo + 2 \<le> 100000"
    and "site_serve w (Connect (st_client w) (Some host)) sv = (sv1, greeting)"
  shows "\<exists>s. producer (site_peer w) (st_len w) todo (\<lparr>sd_listener = sv1, sd_queued = []\<rparr>, reply_lines greeting)
        = ((s, []), Inr ())
      \<and> sv_accepted (sd_listener s) = sv_accepted sv + length todo \<and> sv_buffered (sd_listener s) = sv_buffered sv
      \<and> map_of (sv_connections (sd_listener s)) (st_client w) = None
      \<and> list_all2 (\<lambda>k m. \<exists>n. prepare_message (st_email w) (make_message k (st_len w)) [r] a (st_ident w n)
           (st_config w) (st_extra w) = Inr m) todo (sd_queued s)"
proof -
  have sv1: "sv1 = set_connection (st_client w) \<lparr>co_peer = host, co_session = new_session, co_phase = Commands\<rparr>
      (sv\<lparr>sv_admitted := Suc (sv_admitted sv)\<rparr>)"
    and g: "greeting = ''220 '' @ smtp_hostname (cfg_smtp (st_config w)) @ '' ESMTP noreply-gateway''"
    using assms(2-5,8) by (simp_all add: site_serve_def admit_connection_def)
  let ?s = "\<lparr>sd_listener = sv1, sd_queued = []\<rparr>"
  have "LF \<notin> set (smtp_hostname (cfg_smtp (st_config w)))" using assms(1) by (simp add: site_ok_def)
  then have "replies 220 (reply_lines greeting)" unfolding g by simp (rule reply_read [OF codes(3)]; simp)
  moreover have "site_fresh w a r (sv_buffered sv) (sv_accepted sv) todo ?s"
    using assms(1,6,7)
    by (auto simp: site_fresh_def at_command_def conn_at_def sv1 set_connection_def update_conv' queued_all_def totals_def)
  ultimately obtain s where "producer (site_peer w) (st_len w) todo (?s, reply_lines greeting) = ((s, []), Inr ())"
    "site_gone w a r (sv_buffered sv) (sv_accepted sv) todo s"
    using site.producer_completes by blast
  then show ?thesis by (auto simp: site_gone_def queued_all_def totals_def prepared_def)
qed

text \<open>One message of a benchmark with small messages.\<close>

definition bench_site :: load_site where
  "bench_site = \<lparr>st_email = plain_lib, st_config = bench_config ''/tmp/b'' bench_defaults,
     st_parse = (\<lambda>_. Some (V4 1)), st_networks = [Net4 1 32], st_client = 7, st_extra = [],
     st_ident = (\<lambda>_. ''q1''), st_len = 200\<rparr>"

lemma bench_prepared:
  "\<not> isl (prepared bench_site ''ignored@example.test'' ''recipient@example.test'' 0 0)"
  by code_simp

lemma bench_length: "length (make_message 0 200) \<le> 200"
  by code_simp

lemma bench_limits: "smtp_max_message_bytes (cfg_smtp (st_config bench_site)) = 2000000"
  "smtp_max_buffer_bytes (cfg_smtp (st_config bench_site)) \<ge> 200"
  by code_simp+

lemma bench_fits:
  assumes "\<not> isl (prepared bench_site a r k 0)" "length (make_message k 200) \<le> 200" "int k < 10 ^ 100"
  shows "fits bench_site a r 0 k"
proof -
  have "\<exists>m. prepared bench_site a r k n = Inr m" for n
    using sum.collapse(2) [OF assms(1), symmetric] by (auto simp: prepared_def bench_site_def)
  moreover have "st_len bench_site = 200" by (simp add: bench_site_def)
  ultimately show ?thesis using assms(2,3) bench_limits by (simp add: fits_def)
qed

theorem load_client_is_served_witness:
  "\<exists>sv1 greeting s. site_serve bench_site (Connect (st_client bench_site) (Some ''h'')) listener_start = (sv1, greeting)
     \<and> producer (site_peer bench_site) (st_len bench_site) [0]
        (\<lparr>sd_listener = sv1, sd_queued = []\<rparr>, reply_lines greeting) = ((s, []), Inr ())
     \<and> sv_accepted (sd_listener s) = sv_accepted listener_start + length [0 :: nat]"
proof -
  have ok: "site_ok bench_site ''ignored@example.test'' ''recipient@example.test''"
  proof -
    have "mailbox plain_lib ''ignored@example.test'' True = Inr ''ignored@example.test''"
      "mailbox plain_lib ''recipient@example.test'' False = Inr ''recipient@example.test''" by code_simp+
    then show ?thesis
      by (simp add: site_ok_def bench_site_def bench_config_def bench_defaults_def default_config_def
          default_smtp_def default_account_def Let_def)
  qed
  have al: "allowed (st_parse bench_site) (st_networks bench_site) ''h''" by code_simp
  obtain sv1 greeting where c: "site_serve bench_site (Connect (st_client bench_site) (Some ''h'')) listener_start = (sv1, greeting)"
    by (rule prod.exhaust)
  have "int (length (sv_connections listener_start)) < smtp_max_connections (cfg_smtp (st_config bench_site))"
    by code_simp
  moreover have "list_all (fits bench_site ''ignored@example.test'' ''recipient@example.test'' (sv_buffered listener_start)) [0]"
    using bench_fits [OF bench_prepared bench_length]
    by (simp add: listener_start_def)
  ultimately show ?thesis
    using load_client_is_served [OF ok al _ _ _ _ _ c, of "[0]"] c by (auto simp: listener_start_def)
qed

end
