(* ===== verification/Spec2Isabelle.thy ===== *)
theory Spec2Isabelle
  imports Gw_Message_Policy Gw_Store_Control Gw_Store_Reads Gw_Queue_Props Gw_Tokens_Props
    Gw_Backend_Props Gw_Delivery_Claims Gw_Listener_Props Gw_Additional_Props Gw_Vault_Props
    Gw_Limit_Props Gw_Web_Props Gw_Validate_Claims Gw_Migration_Props Gw_Cli_Claims Gw_Service
    Gw_Shutdown_Claims Gw_System_Claims Gw_Load_Claims
begin

text \<open>
  The no-reply mail gateway (\<open>src/src/noreply_gateway\<close>).

  The program.  Local clients submit mail by SMTP (\<open>smtp.py\<close>).  Each message is checked and
  rewritten (\<open>message.py\<close>), then stored in a durable queue, a SQLite database (\<open>store.py\<close>); the
  client gets its queue ID only after the commit.  Workers (\<open>delivery.py\<close>) claim due messages,
  pace their attempts, and submit each one to Microsoft over EWS or Graph (\<open>backend.py\<close>) with an
  access token of the account (\<open>oauth.py\<close>) or of an optional second account
  (\<open>additional_sender.py\<close>).  Credentials and the administration password live in an encrypted
  vault (\<open>security.py\<close>).  An administration page (\<open>web.py\<close>) shows the queue, signs the accounts in,
  and lets the operator pause, retry and cancel.  The settings are a TOML file (\<open>config.py\<close>);
  \<open>cli.py\<close> creates it, with the vault, on request from a DavMail installation (\<open>migration.py\<close>), and
  \<open>service.py\<close> starts and stops the parts.  \<open>src/tools/benchmark.py\<close> loads the gateway with many SMTP
  clients and a mock of the upstream.

  Conventions (\<open>Gw_Prelude\<close>).  A Python float is a \<open>pyfloat\<close>: a rational, an infinity or NaN, so
  comparisons behave as the code's do; the rounding of finite doubles is not modelled.  Text is a
  \<open>string\<close>, octets are \<open>bytes\<close>; characters beyond Latin-1 do not occur.  A function that can raise
  returns \<open>exn + 'a\<close>, with the exceptions of \<open>errors.py\<close> and the standard ones as constructors.
  Every method of a class is a function of the object's record to a new record.  An \<open>await\<close> that
  lets other tasks in splits a method into steps, and the interleavings are explicit sequences.

  Theories and code.
    \<^item> \<open>Gw_Config\<close>: the dataclasses of \<open>config.py\<close> with their defaults.  \<open>Gw_Validate\<close>: the TOML tables
      as field descriptions of each record, \<open>load_config\<close>, every check of \<open>Config.validate\<close> in order,
      and \<open>config_text\<close> of \<open>cli.py\<close>.  \<open>Gw_Validate_Props\<close>: the locale of a section of settings,
      interpreted for the six sections; \<open>Gw_Validate_Claims\<close>: settings take effect, what validation
      promises, what is written is read back.
    \<^item> \<open>Gw_Message\<close> (\<open>mailbox\<close>, \<open>prepare_message\<close>); \<open>Gw_Message_Props\<close>, \<open>Gw_Message_Policy\<close>: sender
      and recipient policy, preservation of the body.
    \<^item> \<open>Gw_Tables\<close>, \<open>Gw_Store\<close>, \<open>Gw_Store_Reads\<close>: the tables and one function per transaction and
      reader of \<open>Store\<close>.  \<open>Gw_Store_Inv\<close>: the well-formedness invariant and that every transaction
      keeps it.  \<open>Gw_Store_Steps\<close>: the database as a transition system with restarts, and the
      message life cycle as an abstract machine.  \<open>Gw_Store_Props\<close>, \<open>Gw_Store_Control\<close>: refinement,
      capacity, quota, recovery, operator actions.
    \<^item> \<open>Gw_Queue\<close>: \<open>submit\<close>, the group-commit writer \<open>_writer\<close> with its place in the loop, \<open>close\<close>.
      \<open>Gw_Queue_Props\<close>: acknowledged means durable, closing drains and answers everything.
    \<^item> \<open>Gw_Values\<close>, \<open>Gw_Tokens\<close>, \<open>Gw_Login\<close>: \<open>TokenManager\<close> (\<open>get_token\<close>, \<open>rejected\<close>, \<open>_save\<close>,
      \<open>disconnect\<close>, \<open>begin_login\<close>, the ID token check, \<open>complete_login\<close>); \<open>Gw_Tokens_Props\<close>.
    \<^item> \<open>Gw_Backend\<close>: requests, the reading of responses, one attempt; \<open>Gw_Backend_Props\<close>: what a
      recorded result says about the upstream.
    \<^item> \<open>Gw_Delivery\<close>: the workers of \<open>Dispatcher\<close>, pacing, pause, rate, recording, failing database
      jobs, housekeeping, \<open>close\<close> with cancellation.
      \<open>Gw_Jobs\<close>: the locale of a store of jobs, which the database interprets.
      \<open>Gw_Delivery_Props\<close>, \<open>Gw_Delivery_Claims\<close>: ownership, spacing, pause.  \<open>Gw_Shutdown_Claims\<close>: the
      dispatcher comes to its end.
    \<^item> \<open>Gw_Net\<close>, \<open>Gw_Smtp\<close>, \<open>Gw_Listener\<close>: the client allowlist, the commands of a session, the DATA
      phase, connections with the shared buffer, \<open>close\<close>.  \<open>Gw_Listener_Inv\<close>, \<open>Gw_Listener_Props\<close>.
    \<^item> \<open>Gw_Additional\<close>: \<open>AdditionalSender\<close>; \<open>Gw_Additional_Props\<close>: the accounts do not mix.
    \<^item> \<open>Gw_Vault\<close>: \<open>atomic_write\<close> over a disk with a journal of directory states, the lock, the vault
      and the password hash; \<open>Gw_Vault_Props\<close>.
    \<^item> \<open>Gw_Web_Auth\<close>, \<open>Gw_Web\<close>: the \<open>boundary\<close> middleware, sessions, the limiter, every handler and
      the routes, over the record of the whole gateway.  \<open>Gw_Limit_Props\<close>, \<open>Gw_Web_Props\<close>.
    \<^item> \<open>Gw_Migration\<close>: \<open>read_properties\<close> (lines, continuations, separators, escapes), \<open>apply_davmail\<close>,
      \<open>imported_record\<close>.  \<open>Gw_Migration_Props\<close>: the file that Java's \<open>Properties.store\<close> writes is read
      back; the import is confined; an imported credential is usable.
    \<^item> \<open>Gw_Cli\<close>: \<open>initialize\<close>, \<open>check\<close> and \<open>reset-admin\<close> over the disk of \<open>Gw_Vault\<close> and the lock, and
      \<open>main\<close> with its exit codes.  \<open>Gw_Cli_Props\<close>: nothing is overwritten, a crash leaves no half-made
      installation, and a new installation works.  \<open>Gw_Cli_Claims\<close>: the exit codes, and that
      \<open>reset-admin\<close> replaces the password and nothing else.
    \<^item> \<open>Gw_Service\<close>: \<open>serve\<close> as the log of its steps, with every way to fail, and their order.
    \<^item> \<open>Gw_System\<close>: the listener, the queue and the dispatcher running together on one database and one
      \<open>healthy\<close> flag; a step of the system is a step of one part.  \<open>Gw_System_Inv\<close>,
      \<open>Gw_System_Claims\<close>: the invariant of the whole, with the origin of every message, from the
      client's octets to the request of the back end, and the truth of the replies.
    \<^item> \<open>Gw_Benchmark\<close>: the load client, its messages, percentiles, the mock endpoint, the checks and figures of
      \<open>benchmark.py\<close>; \<open>Gw_Benchmark_Props\<close>.  \<open>Gw_Load_Claims\<close>: the contract \<open>smtp_service\<close> that the
      client relies on, as a locale, which the listener of \<open>Gw_Listener\<close> interprets: every message is
      queued.

  Parameters.  Code that is not in the repository is an argument of the definitions that use it:
  the email package (header parsing, \<open>email_lib\<close>), JWT, hashes and URLs of the login (\<open>oauth_lib\<close>),
  XML and JSON decoding of the upstream's answers (\<open>upstream_lib\<close>), AES-GCM and scrypt
  (\<open>vault_lib\<close>), the TOML reader, JSON writer, paths and address parsing of the configuration
  (\<open>config_lib\<close>), aiohttp and \<open>urllib\<close> (\<open>web_lib\<close>, \<open>http_request\<close>), the clock, random values and the
  network.  What a theorem needs of them is a hypothesis of its own, with an instance in its
  witness.

  Bounds.  No definition needs fuel: loops are folds or recursions on the data.  The writer and the
  workers, which run forever, are step functions; \<open>close_drains\<close> and \<open>shutdown_completes\<close> bound the
  steps of closing.

  Outside the model.  Where a value can leave what the types hold, the result is \<open>Inr None\<close>: a TOML
  value of a type its field does not have (the code does not check types), and characters beyond
  Latin-1 in imported properties.  For the order of crashes in \<open>init\<close>, the state directory and the
  one of the configuration file are one directory.

  Not modelled: sockets, TLS, time-outs and the encoding of HTTP; the schema text and pragmas of
  SQLite (a committed transaction is atomic and durable); \<open>argparse\<close>, signals, logging and what is
  printed on success; the wiring and the clock of the benchmark; \<open>tools/render_preview.py\<close>, which
  drives a browser, and the page's script.
\<close>

end
